(* ===== verification/Prelude.thy ===== *)
theory Prelude
  imports Complex_Main "HOL-Library.Char_ord" "HOL-Library.List_Lexorder" "HOL-Library.Sublist"
begin

text \<open>
  What every component shares: the development's theorem collections, the part of Go's
  \<open>strings\<close> package the sources use, signed 64-bit wrap-around, SQL \<open>NULL\<close> strings, and
  generic lemmas on lists and on the lexicographic order of strings.

  A Go \<open>string\<close> or \<open>[]byte\<close> is a HOL \<open>string\<close>: a list of bytes. The case and
  white-space functions of Go's \<open>strings\<close> package treat non-ASCII letters and spaces by
  their Unicode classes; the model gives their ASCII part and leaves bytes from 128 on alone.
\<close>

section \<open>Theorem collections\<close>

named_theorems frame \<open>which parts of the state an operation leaves unchanged\<close>
named_theorems preserve \<open>invariants an operation preserves\<close>
named_theorems query_defs \<open>definitions of the SQL statements\<close>

section \<open>Errors and absent values\<close>

type_synonym ('e, 'a) result = "'e + 'a"

definition is_ok :: "('e, 'a) result \<Rightarrow> bool" where
  "is_ok r = (case r of Inl _ \<Rightarrow> False | Inr _ \<Rightarrow> True)"

lemma is_ok_simps [simp]: "is_ok (Inr x) = True" "is_ok (Inl e) = False"
  by (simp_all add: is_ok_def)

text \<open>\<open>sql.NullString{String: s, Valid: s != ""}\<close>.\<close>

definition nullstr :: "string \<Rightarrow> string option" where
  "nullstr s = (if s = '''' then None else Some s)"

text \<open>Reading a \<open>sql.NullString\<close> the way the services do: the empty string when not valid.\<close>

definition str_of_null :: "string option \<Rightarrow> string" where
  "str_of_null v = (case v of None \<Rightarrow> '''' | Some s \<Rightarrow> s)"

lemma str_of_nullstr [simp]: "str_of_null (nullstr s) = s"
  by (simp add: str_of_null_def nullstr_def)

section \<open>Signed 64-bit integers\<close>

text \<open>Go's \<open>int\<close>, \<open>int64\<close> and \<open>time.Duration\<close>: arithmetic wraps modulo \<open>2 ^ 64\<close>.\<close>

definition sw64 :: "int \<Rightarrow> int" where
  "sw64 x = (x + 2 ^ 63) mod 2 ^ 64 - 2 ^ 63"

lemma sw64_id: "- (2 ^ 63) \<le> x \<Longrightarrow> x < 2 ^ 63 \<Longrightarrow> sw64 x = x"
  by (simp add: sw64_def)

lemma sw64_range: "- (2 ^ 63) \<le> sw64 x" "sw64 x < 2 ^ 63"
  by (simp_all add: sw64_def)

section \<open>Go's strings package\<close>

definition is_space :: "char \<Rightarrow> bool" where
  "is_space c = (of_char c \<in> {9::nat, 10, 11, 12, 13, 32})"

definition trim_left :: "string \<Rightarrow> string" where
  "trim_left s = dropWhile is_space s"

definition trim_space :: "string \<Rightarrow> string" where
  "trim_space s = rev (trim_left (rev (trim_left s)))"

definition lower_char :: "char \<Rightarrow> char" where
  "lower_char c = (if 65 \<le> (of_char c :: nat) \<and> (of_char c :: nat) \<le> 90
                   then char_of (of_char c + 32 :: nat) else c)"

definition upper_char :: "char \<Rightarrow> char" where
  "upper_char c = (if 97 \<le> (of_char c :: nat) \<and> (of_char c :: nat) \<le> 122
                   then char_of (of_char c - 32 :: nat) else c)"

definition to_lower :: "string \<Rightarrow> string" where
  "to_lower s = map lower_char s"

definition to_upper :: "string \<Rightarrow> string" where
  "to_upper s = map upper_char s"

definition equal_fold :: "string \<Rightarrow> string \<Rightarrow> bool" where
  "equal_fold a b = (to_lower a = to_lower b)"

definition has_prefix :: "string \<Rightarrow> string \<Rightarrow> bool" where
  "has_prefix s p = (take (length p) s = p)"

definition has_suffix :: "string \<Rightarrow> string \<Rightarrow> bool" where
  "has_suffix s p = (length p \<le> length s \<and> drop (length s - length p) s = p)"

definition trim_prefix :: "string \<Rightarrow> string \<Rightarrow> string" where
  "trim_prefix s p = (if has_prefix s p then drop (length p) s else s)"

definition trim_suffix :: "string \<Rightarrow> string \<Rightarrow> string" where
  "trim_suffix s p = (if has_suffix s p then take (length s - length p) s else s)"

text \<open>\<open>strings.Index\<close>: the first position of \<open>sub\<close> (\<open>None\<close> for Go's \<open>-1\<close>).\<close>

fun str_index :: "string \<Rightarrow> string \<Rightarrow> nat option" where
  "str_index [] sub = (if sub = [] then Some 0 else None)"
| "str_index (c # cs) sub =
     (if has_prefix (c # cs) sub then Some 0 else map_option Suc (str_index cs sub))"

definition contains :: "string \<Rightarrow> string \<Rightarrow> bool" where
  "contains s sub = (str_index s sub \<noteq> None)"

text \<open>\<open>strings.LastIndex\<close> of a one-byte separator.\<close>

fun last_index :: "char \<Rightarrow> string \<Rightarrow> nat option" where
  "last_index c [] = None"
| "last_index c (x # xs) =
     (case last_index c xs of
        Some i \<Rightarrow> Some (Suc i)
      | None \<Rightarrow> (if x = c then Some 0 else None))"

text \<open>\<open>strings.Split\<close> and \<open>strings.SplitN(s, sep, 2)\<close> for a one-byte separator.\<close>

fun split_on :: "char \<Rightarrow> string \<Rightarrow> string list" where
  "split_on c [] = [[]]"
| "split_on c (x # xs) =
     (if x = c then [] # split_on c xs
      else (case split_on c xs of [] \<Rightarrow> [[x]] | y # ys \<Rightarrow> (x # y) # ys))"

definition split_n2 :: "char \<Rightarrow> string \<Rightarrow> string list" where
  "split_n2 c s =
     (if c \<in> set s then [takeWhile (\<lambda>x. x \<noteq> c) s, tl (dropWhile (\<lambda>x. x \<noteq> c) s)] else [s])"

text \<open>\<open>strings.Fields\<close>: the maximal runs of non-space bytes.\<close>

fun fields_aux :: "string \<Rightarrow> string \<Rightarrow> string list" where
  "fields_aux acc [] = (if acc = [] then [] else [rev acc])"
| "fields_aux acc (x # xs) =
     (if is_space x then (if acc = [] then fields_aux [] xs else rev acc # fields_aux [] xs)
      else fields_aux (x # acc) xs)"

definition fields :: "string \<Rightarrow> string list" where
  "fields s = fields_aux [] s"

fun join_with :: "string \<Rightarrow> string list \<Rightarrow> string" where
  "join_with sep [] = []"
| "join_with sep [x] = x"
| "join_with sep (x # xs) = x @ sep @ join_with sep xs"

section \<open>Generic lemmas\<close>

lemma trim_space_nil [simp]: "trim_space [] = []"
  by (simp add: trim_space_def trim_left_def)

lemma split_on_nonempty [simp]: "split_on c s \<noteq> []"
  by (induction s) (auto split: list.splits)

lemma split_on_append:
  "c \<notin> set x \<Longrightarrow> split_on c (x @ c # ys) = x # split_on c ys"
  by (induction x) auto

lemma split_on_last: "c \<notin> set x \<Longrightarrow> split_on c x = [x]"
  by (induction x) auto

lemma split_n2_app: "c \<notin> set x \<Longrightarrow> split_n2 c (x @ c # ys) = [x, ys]"
  unfolding split_n2_def by (induction x) auto

lemma length_split_n2: "length (split_n2 c s) = (if c \<in> set s then 2 else 1)"
  by (simp add: split_n2_def)

lemma set_fields_nonempty: "x \<in> set (fields_aux acc s) \<Longrightarrow> x \<noteq> []"
  by (induction acc s rule: fields_aux.induct) (auto split: if_splits)

lemma last_index_Some: "last_index c s = Some i \<Longrightarrow> i < length s \<and> s ! i = c"
  by (induction s arbitrary: i) (auto split: option.splits if_splits)

text \<open>Comparing concatenations whose first parts have the same length.\<close>

lemma less_append_same_length:
  fixes a b x y :: string
  shows "length a = length b \<Longrightarrow> a @ x < b @ y \<longleftrightarrow> a < b \<or> a = b \<and> x < y"
  by (induction a b rule: list_induct2) auto

lemma less_div_mod:
  fixes a b n :: nat
  assumes "0 < n"
  shows "a < b \<longleftrightarrow> a div n < b div n \<or> a div n = b div n \<and> a mod n < b mod n"
proof -
  consider "a div n < b div n" | "a div n = b div n" | "b div n < a div n" by linarith
  then show ?thesis
  proof cases
    case 1
    then have "a < b" by (meson div_le_mono leD leI)
    with 1 show ?thesis by simp
  next
    case 2
    then show ?thesis using div_mult_mod_eq [of a n] div_mult_mod_eq [of b n]
      by (metis add_less_cancel_left order_less_irrefl)
  next
    case 3
    then have "b < a" by (meson div_le_mono leD leI)
    with 3 show ?thesis by simp
  qed
qed

lemma less_char_iff: "(c :: char) < d \<longleftrightarrow> (of_char c :: nat) < of_char d"
  by (simp add: less_char_def)

lemma find_filter: "find P xs = (case filter P xs of [] \<Rightarrow> None | x # _ \<Rightarrow> Some x)"
  by (induction xs) auto

lemma find_Some_in: "find P xs = Some x \<Longrightarrow> x \<in> set xs \<and> P x"
  by (auto simp: find_Some_iff)

lemma filter_at_most_one:
  "length (filter P xs) \<le> 1 \<Longrightarrow> x \<in> set xs \<Longrightarrow> P x \<Longrightarrow> y \<in> set xs \<Longrightarrow> P y \<Longrightarrow> x = y"
  by (induction xs) (auto simp: filter_empty_conv split: if_splits)

lemma filter_map_shrinks: "(\<And>x. P (f x) \<Longrightarrow> P x) \<Longrightarrow> length (filter P (map f xs)) \<le> length (filter P xs)"
  by (induction xs) (auto intro: le_SucI)

lemma filter_implies_le: "(\<And>x. P x \<Longrightarrow> Q x) \<Longrightarrow> length (filter P xs) \<le> length (filter Q xs)"
  by (induction xs) (auto intro: le_SucI)

lemma find_antimono: "find P xs = Some x \<Longrightarrow> Q x \<Longrightarrow> (\<And>y. Q y \<Longrightarrow> P y) \<Longrightarrow> find Q xs = Some x"
  by (induction xs) (auto split: if_splits)

end
