(* ===== verification/Clock.thy ===== *)
theory Clock
  imports Prelude
begin

text \<open>
  Instants, durations and their textual forms: Go's \<open>time.Time\<close> with
  \<open>Format(time.RFC3339)\<close>, and SQLite's \<open>CURRENT_TIMESTAMP\<close>. The database stores both
  kinds of text in the same columns and compares them byte by byte, so the theory proves how
  the byte order of the two forms relates to the order of time.

  An instant is the number of nanoseconds since Go's zero time (0001-01-01 00:00:00 UTC), so
  \<open>time.Time{}\<close> is 0. The calendar is the proleptic Gregorian one, computed as
  \<open>time.Time.Date\<close> does, from 400-, 100-, 4- and 1-year cycles.
\<close>

type_synonym time = int
type_synonym duration = int

abbreviation second :: duration where "second \<equiv> 1000000000"
abbreviation minute :: duration where "minute \<equiv> 60000000000"
abbreviation hour :: duration where "hour \<equiv> 3600000000000"

definition zero_time :: time where "zero_time = 0"

section \<open>Calendar\<close>

datatype civil = Civil (cyear: nat) (cmonth: nat) (cday: nat)

instantiation civil :: linorder
begin

definition less_eq_civil :: "civil \<Rightarrow> civil \<Rightarrow> bool" where
  "less_eq_civil a b = (cyear a < cyear b \<or> cyear a = cyear b \<and>
     (cmonth a < cmonth b \<or> cmonth a = cmonth b \<and> cday a \<le> cday b))"

definition less_civil :: "civil \<Rightarrow> civil \<Rightarrow> bool" where
  "less_civil a b = (cyear a < cyear b \<or> cyear a = cyear b \<and>
     (cmonth a < cmonth b \<or> cmonth a = cmonth b \<and> cday a < cday b))"

instance
proof
  fix x y z :: civil
  show "x < y \<longleftrightarrow> x \<le> y \<and> \<not> y \<le> x"
    by (auto simp: less_civil_def less_eq_civil_def)
  show "x \<le> x" by (simp add: less_eq_civil_def)
  show "x \<le> y \<Longrightarrow> y \<le> z \<Longrightarrow> x \<le> z" by (auto simp: less_eq_civil_def)
  show "x \<le> y \<Longrightarrow> y \<le> x \<Longrightarrow> x = y"
    by (cases x; cases y) (auto simp: less_eq_civil_def)
  show "x \<le> y \<or> y \<le> x" by (auto simp: less_eq_civil_def)
qed

end

definition leap :: "nat \<Rightarrow> bool" where
  "leap y = (y mod 4 = 0 \<and> (y mod 100 \<noteq> 0 \<or> y mod 400 = 0))"

text \<open>Years before the year of a day (day 0 is 0001-01-01), and the day within its year.\<close>

definition year_index :: "nat \<Rightarrow> nat" where
  "year_index d =
     (let a = d div 146097; r = d mod 146097;
          b = min 3 (r div 36524); r1 = r - b * 36524;
          c = r1 div 1461; r2 = r1 mod 1461;
          e = min 3 (r2 div 365)
      in 400 * a + 100 * b + 4 * c + e)"

definition year_day :: "nat \<Rightarrow> nat" where
  "year_day d =
     (let r = d mod 146097;
          r1 = r - min 3 (r div 36524) * 36524;
          r2 = r1 mod 1461
      in r2 - min 3 (r2 div 365) * 365)"

definition month_lengths :: "bool \<Rightarrow> nat list" where
  "month_lengths lp = [31, if lp then 29 else 28, 31, 30, 31, 30, 31, 31, 30, 31, 30, 31]"

text \<open>Month (from \<open>m\<close> on) and day of the month of the day \<open>yd\<close> of a year.\<close>

fun find_month :: "nat list \<Rightarrow> nat \<Rightarrow> nat \<Rightarrow> nat \<times> nat" where
  "find_month [] m yd = (m, yd + 1)"
| "find_month (l # ls) m yd = (if yd < l then (m, yd + 1) else find_month ls (m + 1) (yd - l))"

definition civil_of_day :: "nat \<Rightarrow> civil" where
  "civil_of_day d =
     (let y = year_index d + 1; md = find_month (month_lengths (leap y)) 1 (year_day d)
      in Civil y (fst md) (snd md))"

definition year_start :: "nat \<Rightarrow> nat" where
  "year_start k = 365 * k + k div 4 - k div 100 + k div 400"

definition day_of_civil :: "civil \<Rightarrow> nat" where
  "day_of_civil c =
     year_start (cyear c - 1) + sum_list (take (cmonth c - 1) (month_lengths (leap (cyear c))))
     + (cday c - 1)"

section \<open>Textual forms\<close>

definition digit :: "nat \<Rightarrow> char" where
  "digit n = char_of (48 + n)"

fun pad :: "nat \<Rightarrow> nat \<Rightarrow> string" where
  "pad 0 n = []"
| "pad (Suc k) n = pad k (n div 10) @ [digit (n mod 10)]"

definition secs_of :: "time \<Rightarrow> nat" where
  "secs_of t = nat (t div second)"

definition day_of :: "time \<Rightarrow> nat" where
  "day_of t = secs_of t div 86400"

definition date_text :: "nat \<Rightarrow> string" where
  "date_text d =
     (case civil_of_day d of Civil y m dd \<Rightarrow> pad 4 y @ ''-'' @ pad 2 m @ ''-'' @ pad 2 dd)"

definition clock_text :: "nat \<Rightarrow> string" where
  "clock_text s = pad 2 (s div 3600) @ '':'' @ pad 2 (s mod 3600 div 60) @ '':'' @ pad 2 (s mod 60)"

text \<open>\<open>t.UTC().Format(time.RFC3339)\<close> and SQLite's \<open>CURRENT_TIMESTAMP\<close> at \<open>t\<close>.\<close>

definition rfc3339 :: "time \<Rightarrow> string" where
  "rfc3339 t = date_text (day_of t) @ ''T'' @ clock_text (secs_of t mod 86400) @ ''Z''"

definition current_timestamp :: "time \<Rightarrow> string" where
  "current_timestamp t = date_text (day_of t) @ '' '' @ clock_text (secs_of t mod 86400)"

text \<open>The instants with a four-digit year.\<close>

definition calendar_range :: "time \<Rightarrow> bool" where
  "calendar_range t = (0 \<le> t \<and> day_of t < 3652059)"

text \<open>
  \<open>time.Parse(time.RFC3339, s)\<close> on the texts \<open>Format\<close> writes for UTC instants; other zone
  designators and fractions of a second are not accepted by the model.
\<close>

definition undigit :: "char \<Rightarrow> nat option" where
  "undigit c = (if 48 \<le> (of_char c :: nat) \<and> (of_char c :: nat) \<le> 57
                then Some (of_char c - 48) else None)"

fun unpad_aux :: "nat \<Rightarrow> string \<Rightarrow> nat option" where
  "unpad_aux acc [] = Some acc"
| "unpad_aux acc (c # cs) =
     (case undigit c of None \<Rightarrow> None | Some v \<Rightarrow> unpad_aux (10 * acc + v) cs)"

definition unpad :: "string \<Rightarrow> nat option" where
  "unpad s = unpad_aux 0 s"

definition days_in :: "nat \<Rightarrow> nat \<Rightarrow> nat" where
  "days_in y m = month_lengths (leap y) ! (m - 1)"

definition parse_rfc3339 :: "string \<Rightarrow> time option" where
  "parse_rfc3339 s =
     (if length s = 20 \<and> s ! 4 = CHR ''-'' \<and> s ! 7 = CHR ''-'' \<and> s ! 10 = CHR ''T''
         \<and> s ! 13 = CHR '':'' \<and> s ! 16 = CHR '':'' \<and> s ! 19 = CHR ''Z''
      then (case (unpad (take 4 s), unpad (take 2 (drop 5 s)), unpad (take 2 (drop 8 s)),
                  unpad (take 2 (drop 11 s)), unpad (take 2 (drop 14 s)), unpad (take 2 (drop 17 s))) of
              (Some y, Some mo, Some d, Some h, Some mi, Some se) \<Rightarrow>
                if 1 \<le> y \<and> 1 \<le> mo \<and> mo \<le> 12 \<and> 1 \<le> d \<and> d \<le> days_in y mo
                   \<and> h < 24 \<and> mi < 60 \<and> se < 60
                then Some (int (day_of_civil (Civil y mo d) * 86400 + h * 3600 + mi * 60 + se) * second)
                else None
            | _ \<Rightarrow> None)
      else None)"

section \<open>The calendar is monotone and invertible\<close>

lemma year_digits:
  fixes d :: nat
  obtains a b c e y where
    "year_index d = 400 * a + 100 * b + 4 * c + e" "year_day d = y"
    "d = 146097 * a + 36524 * b + 1461 * c + 365 * e + y"
    "b \<le> 3" "c \<le> 24" "e \<le> 3" "y \<le> 365" "y = 365 \<longrightarrow> e = 3 \<and> (c = 24 \<longrightarrow> b = 3)"
proof -
  define a where "a = d div 146097"
  define r where "r = d mod 146097"
  define b where "b = min 3 (r div 36524)"
  define r1 where "r1 = r - b * 36524"
  define c where "c = r1 div 1461"
  define r2 where "r2 = r1 mod 1461"
  define e where "e = min 3 (r2 div 365)"
  define y where "y = r2 - e * 365"
  have d: "d = 146097 * a + r" and r: "r < 146097" by (simp_all add: a_def r_def)
  have b: "b \<le> 3" "r = 36524 * b + r1" "r1 \<le> 36524" "r1 = 36524 \<longrightarrow> b = 3"
    using r div_mult_mod_eq [of r 36524] mod_less_divisor [of 36524 r]
    by (auto simp: b_def r1_def min_def)
  have c: "r1 = 1461 * c + r2" "r2 < 1461" "c \<le> 24"
    using b(3) by (auto simp: c_def r2_def)
  have e: "e \<le> 3" "r2 = 365 * e + y" "y \<le> 365" "y = 365 \<longrightarrow> e = 3"
    using c(2) div_mult_mod_eq [of r2 365] mod_less_divisor [of 365 r2]
    by (auto simp: e_def y_def min_def)
  have "y = 365 \<longrightarrow> e = 3 \<and> (c = 24 \<longrightarrow> b = 3)"
    using e c b by auto
  moreover have "year_index d = 400 * a + 100 * b + 4 * c + e" "year_day d = y"
    by (simp_all add: year_index_def year_day_def a_def b_def c_def e_def y_def r_def r1_def r2_def Let_def)
  moreover have "d = 146097 * a + 36524 * b + 1461 * c + 365 * e + y"
    using d b(2) c(1) e(2) by simp
  ultimately show ?thesis using that b(1) c(3) e(1,3) by blast
qed

lemma year_start_digits:
  assumes "b \<le> 3" "c \<le> 24" "e \<le> 3"
  shows "year_start (400 * a + 100 * b + 4 * c + e) = 146097 * a + 36524 * b + 1461 * c + 365 * e"
proof -
  have "(400 * a + 100 * b + 4 * c + e) div 4 = 100 * a + 25 * b + c"
    "(400 * a + 100 * b + 4 * c + e) div 100 = 4 * a + b"
    "(400 * a + 100 * b + 4 * c + e) div 400 = a"
    using assms by (auto intro!: div_nat_eqI)
  then show ?thesis unfolding year_start_def by simp
qed

lemma day_split: "d = year_start (year_index d) + year_day d"
  by (rule year_digits [of d]) (simp add: year_start_digits)

lemma leap_cycle_end:
  assumes "c = 24 \<longrightarrow> b = 3" "b \<le> 3" "c \<le> 24"
  shows "leap (400 * a + 100 * b + 4 * c + 4)"
proof (cases "c = 24")
  case True
  then have "400 * a + 100 * b + 4 * c + 4 = (a + 1) * 400" using assms by simp
  moreover have "leap (n * 400)" for n
    by (simp add: leap_def mod_mult_right_eq flip: mod_mod_cancel [of 4 400])
  ultimately show ?thesis by metis
next
  case False
  have "(400 * a + 100 * b + 4 * c + 4) mod 4 = 0" by presburger
  moreover have "(400 * a + 100 * b + 4 * c + 4) mod 100 = 4 * c + 4"
  proof -
    have "400 * a + 100 * b + 4 * c + 4 = (4 * c + 4) + 100 * (4 * a + b)" by simp
    moreover have "4 * c + 4 < 100" using False assms(3) by simp
    ultimately show ?thesis by (metis mod_less mod_mult_self2)
  qed
  ultimately show ?thesis by (simp add: leap_def)
qed

lemma year_day_bound: "year_day d < (if leap (year_index d + 1) then 366 else 365)"
proof (rule year_digits [of d])
  fix a b c e y
  assume yi: "year_index d = 400 * a + 100 * b + 4 * c + e" and "year_day d = y"
    and "y \<le> 365" "y = 365 \<longrightarrow> e = 3 \<and> (c = 24 \<longrightarrow> b = 3)" "b \<le> 3" "c \<le> 24" "e \<le> 3"
  then show ?thesis
    using leap_cycle_end [of c b a] by (cases "y = 365") (auto simp: ac_simps)
qed

lemma year_step:
  fixes k q4 q100 q400 i j l :: nat
  assumes "q100 \<le> q4" "l \<le> j" "j \<le> i" "i \<le> 1"
  shows "365 * Suc k + (q4 + i) - (q100 + j) + (q400 + l)
       = 365 * k + q4 - q100 + q400 + (if i = 1 \<and> (j = 0 \<or> l = 1) then 366 else 365)"
  using assms by (cases "i = 0"; cases "j = 0"; cases "l = 0") auto

lemma year_start_Suc: "year_start (Suc k) = year_start k + (if leap (Suc k) then 366 else 365)"
proof -
  define i j l :: nat where "i = (if 4 dvd Suc k then 1 else 0)"
    and "j = (if 100 dvd Suc k then 1 else 0)" and "l = (if 400 dvd Suc k then 1 else 0)"
  have "Suc k div 4 = k div 4 + i" "Suc k div 100 = k div 100 + j" "Suc k div 400 = k div 400 + l"
    by (simp_all add: i_def j_def l_def div_Suc dvd_eq_mod_eq_0)
  moreover have "(100 :: nat) dvd Suc k \<Longrightarrow> 4 dvd Suc k" "(400 :: nat) dvd Suc k \<Longrightarrow> 100 dvd Suc k"
    by (auto intro: dvd_trans [of _ 100] dvd_trans [of _ 400])
  then have "l \<le> j" "j \<le> i" "i \<le> 1" by (auto simp: i_def j_def l_def)
  moreover have "k div 100 \<le> k div 4" by (simp add: div_le_mono2)
  moreover have "leap (Suc k) \<longleftrightarrow> i = 1 \<and> (j = 0 \<or> l = 1)"
    by (auto simp: leap_def dvd_eq_mod_eq_0 i_def j_def l_def)
  ultimately show ?thesis
    unfolding year_start_def by (simp only: year_step)
qed

lemma year_start_mono: "k \<le> k' \<Longrightarrow> year_start k \<le> year_start k'"
  by (rule lift_Suc_mono_le [of year_start]) (simp_all add: year_start_Suc)

lemma year_index_mono: "d \<le> d' \<Longrightarrow> year_index d \<le> year_index d'"
proof (rule ccontr)
  assume "d \<le> d'" and c: "\<not> year_index d \<le> year_index d'"
  have "d' < year_start (Suc (year_index d'))"
    using year_day_bound [of d'] day_split [of d'] by (simp add: year_start_Suc split: if_splits)
  also have "\<dots> \<le> year_start (year_index d)" using c by (intro year_start_mono) auto
  also have "\<dots> \<le> d" using day_split [of d] by simp
  finally show False using \<open>d \<le> d'\<close> by simp
qed


text \<open>Within a year: month and day against the day number.\<close>

lemma find_month_inverse:
  "yd < sum_list ls \<Longrightarrow> find_month ls m yd = (m', d) \<Longrightarrow>
   m \<le> m' \<and> m' < m + length ls \<and> 1 \<le> d \<and> d \<le> ls ! (m' - m)
   \<and> sum_list (take (m' - m) ls) + (d - 1) = yd"
proof (induction ls m yd rule: find_month.induct)
  case (1 m yd)
  then show ?case by simp
next
  case (2 l ls m yd)
  show ?case
  proof (cases "yd < l")
    case True
    with 2 show ?thesis by auto
  next
    case False
    with "2.prems" have "yd - l < sum_list ls" "find_month ls (m + 1) (yd - l) = (m', d)" by auto
    from "2.IH" [OF False this] have "m + 1 \<le> m'" "m' < m + 1 + length ls" "1 \<le> d"
      "d \<le> ls ! (m' - (m + 1))" "sum_list (take (m' - (m + 1)) ls) + (d - 1) = yd - l" by auto
    moreover from \<open>m + 1 \<le> m'\<close> have "m' - m = Suc (m' - (m + 1))" by simp
    ultimately show ?thesis using False by auto
  qed
qed

lemma find_month_mono:
  "yd < yd' \<Longrightarrow> find_month ls m yd = (m1, d1) \<Longrightarrow> find_month ls m yd' = (m2, d2) \<Longrightarrow>
   m1 < m2 \<or> m1 = m2 \<and> d1 < d2"
proof (induction ls m yd arbitrary: yd' rule: find_month.induct)
  case (1 m yd)
  then show ?case by auto
next
  case (2 l ls m yd)
  have ge: "m \<le> fst (find_month ls m yd)" for ls m yd
    by (induction ls m yd rule: find_month.induct) auto
  show ?case
  proof (cases "yd < l")
    case True
    with 2 ge [of "m + 1" ls "yd' - l"] show ?thesis by (auto split: if_splits)
  next
    case False
    with "2.prems" have "yd - l < yd' - l" "find_month ls (m + 1) (yd - l) = (m1, d1)"
      "find_month ls (m + 1) (yd' - l) = (m2, d2)" by auto
    then show ?thesis by (rule "2.IH" [OF False])
  qed
qed

lemma sum_month_lengths: "sum_list (month_lengths lp) = (if lp then 366 else 365)"
  by (simp add: month_lengths_def)

lemma length_month_lengths: "length (month_lengths lp) = 12"
  by (simp add: month_lengths_def)

lemma month_lengths_le: "k < 12 \<Longrightarrow> month_lengths lp ! k \<le> 31"
  using nth_mem [of k "month_lengths lp"] length_month_lengths [of lp]
  by (auto simp: month_lengths_def)

lemma civil_of_day_fields:
  assumes "civil_of_day d = Civil y m dd"
  shows "y = year_index d + 1" "1 \<le> m" "m \<le> 12" "1 \<le> dd" "dd \<le> days_in y m" "dd \<le> 31"
    "day_of_civil (Civil y m dd) = d"
proof -
  define lp where "lp = leap (year_index d + 1)"
  from assms have y: "y = year_index d + 1" and md: "find_month (month_lengths lp) 1 (year_day d) = (m, dd)"
    by (auto simp: civil_of_day_def Let_def lp_def)
  have "year_day d < sum_list (month_lengths lp)"
    using year_day_bound [of d] by (simp add: sum_month_lengths lp_def)
  from find_month_inverse [OF this md] have m: "1 \<le> m" "m < 1 + 12" "1 \<le> dd"
    "dd \<le> month_lengths lp ! (m - 1)" "sum_list (take (m - 1) (month_lengths lp)) + (dd - 1) = year_day d"
    by (auto simp: length_month_lengths)
  show "y = year_index d + 1" "1 \<le> m" "m \<le> 12" "1 \<le> dd" using y m by auto
  show "dd \<le> days_in y m" using m y by (simp add: days_in_def lp_def)
  show "dd \<le> 31" using m(4) month_lengths_le [of "m - 1" lp] m(1,2) by linarith
  show "day_of_civil (Civil y m dd) = d"
    using m(5) day_split [of d] by (simp add: day_of_civil_def y lp_def)
qed

lemma day_of_civil_of_day [simp]: "day_of_civil (civil_of_day d) = d"
  by (cases "civil_of_day d") (simp add: civil_of_day_fields(7))

theorem civil_of_day_less: "d < d' \<Longrightarrow> civil_of_day d < civil_of_day d'"
proof -
  assume less: "d < d'"
  obtain m1 d1 where 1: "find_month (month_lengths (leap (year_index d + 1))) 1 (year_day d) = (m1, d1)"
    by force
  obtain m2 d2 where 2: "find_month (month_lengths (leap (year_index d' + 1))) 1 (year_day d') = (m2, d2)"
    by force
  show ?thesis
  proof (cases "year_index d = year_index d'")
    case True
    then have "year_day d < year_day d'" using less day_split [of d] day_split [of d'] by simp
    from find_month_mono [OF this 1] 2 True show ?thesis
      using 1 by (auto simp: civil_of_day_def less_civil_def Let_def)
  next
    case False
    then have "year_index d < year_index d'" using year_index_mono [of d d'] less by simp
    then show ?thesis by (simp add: civil_of_day_def less_civil_def Let_def)
  qed
qed

lemma civil_of_day_less_iff: "civil_of_day d < civil_of_day d' \<longleftrightarrow> d < d'"
  using civil_of_day_less by (metis less_asym' linorder_neqE_nat order_less_irrefl)


section \<open>Byte order of the textual forms\<close>

lemma length_pad [simp]: "length (pad k n) = k"
  by (induction k arbitrary: n) auto

lemma of_char_digit: "n < 10 \<Longrightarrow> (of_char (digit n) :: nat) = 48 + n"
  by (simp add: digit_def)

lemma pad_less: "n < 10 ^ k \<Longrightarrow> m < 10 ^ k \<Longrightarrow> pad k n < pad k m \<longleftrightarrow> n < m"
  and pad_eq: "n < 10 ^ k \<Longrightarrow> m < 10 ^ k \<Longrightarrow> pad k n = pad k m \<longleftrightarrow> n = m"
proof (induction k arbitrary: n m)
  case 0
  { case 1 then show ?case by simp }
  { case 2 then show ?case by simp }
next
  case (Suc k)
  have dig: "digit (n mod 10) < digit (m mod 10) \<longleftrightarrow> n mod 10 < m mod 10"
    "digit (n mod 10) = digit (m mod 10) \<longleftrightarrow> n mod 10 = m mod 10" for n m
    by (auto simp: less_char_iff of_char_digit) (metis of_char_digit mod_less_divisor add_left_cancel zero_less_numeral)
  { case 1
    then have b: "n div 10 < 10 ^ k" "m div 10 < 10 ^ k" by auto
    have "n < m \<longleftrightarrow> n div 10 < m div 10 \<or> n div 10 = m div 10 \<and> n mod 10 < m mod 10"
      by (rule less_div_mod) simp
    then show ?case
      using Suc.IH [OF b] by (simp add: less_append_same_length dig) }
  { case 2
    then have b: "n div 10 < 10 ^ k" "m div 10 < 10 ^ k" by auto
    have "n = m \<longleftrightarrow> n div 10 = m div 10 \<and> n mod 10 = m mod 10"
      by (metis div_mult_mod_eq)
    then show ?case using Suc.IH [OF b] by (simp add: dig) }
qed

lemma year_index_bound: "d < 3652059 \<Longrightarrow> year_index d + 1 \<le> 9999"
proof (rule ccontr)
  assume d: "d < 3652059" and "\<not> year_index d + 1 \<le> 9999"
  then have "year_start 9999 \<le> year_start (year_index d)" by (intro year_start_mono) simp
  also have "\<dots> \<le> d" using day_split [of d] by simp
  finally show False using d by (simp add: year_start_def)
qed

lemma length_date_text [simp]: "length (date_text d) = 10"
  by (simp add: date_text_def split: civil.splits)

lemma length_clock_text [simp]: "length (clock_text s) = 8"
  by (simp add: clock_text_def)

lemma civil_text_less:
  assumes "y < 10000" "y' < 10000" "m < 100" "m' < 100" "d < 100" "d' < 100"
  shows "pad 4 y @ ''-'' @ pad 2 m @ ''-'' @ pad 2 d < pad 4 y' @ ''-'' @ pad 2 m' @ ''-'' @ pad 2 d'
     \<longleftrightarrow> Civil y m d < Civil y' m' d'"
  using assms by (simp add: less_append_same_length pad_less pad_eq less_civil_def)

lemma date_text_less:
  assumes "d < 3652059" "d' < 3652059"
  shows "date_text d < date_text d' \<longleftrightarrow> d < d'"
proof -
  obtain y m dd where c: "civil_of_day d = Civil y m dd" by (cases "civil_of_day d")
  obtain y' m' dd' where c': "civil_of_day d' = Civil y' m' dd'" by (cases "civil_of_day d'")
  note f = civil_of_day_fields [OF c] and f' = civil_of_day_fields [OF c']
  have "y < 10000" "y' < 10000"
    using year_index_bound [OF assms(1)] year_index_bound [OF assms(2)] f(1) f'(1) by auto
  then have "date_text d < date_text d' \<longleftrightarrow> Civil y m dd < Civil y' m' dd'"
    using f f' by (simp only: date_text_def c c' civil.case) (rule civil_text_less; simp)
  then show ?thesis using civil_of_day_less_iff [of d d'] c c' by simp
qed

lemma date_text_eq: "d < 3652059 \<Longrightarrow> d' < 3652059 \<Longrightarrow> date_text d = date_text d' \<longleftrightarrow> d = d'"
  by (metis date_text_less order_less_irrefl linorder_neqE_nat)

lemma clock_text_less:
  assumes "s < 86400" "s' < 86400"
  shows "clock_text s < clock_text s' \<longleftrightarrow> s < s'"
proof -
  have "s div 3600 < 100" "s' div 3600 < 100" "s mod 3600 div 60 < 100" "s' mod 3600 div 60 < 100"
    "s mod 60 < 100" "s' mod 60 < 100" using assms by auto
  moreover have "s < s' \<longleftrightarrow> s div 3600 < s' div 3600 \<or> s div 3600 = s' div 3600 \<and>
    (s mod 3600 div 60 < s' mod 3600 div 60 \<or> s mod 3600 div 60 = s' mod 3600 div 60 \<and> s mod 60 < s' mod 60)"
    using less_div_mod [of 3600 s s'] less_div_mod [of 60 "s mod 3600" "s' mod 3600"]
    by (simp add: mod_mod_cancel)
  ultimately show ?thesis
    by (simp add: clock_text_def less_append_same_length pad_less pad_eq)
qed


lemma secs_split: "secs_of t = day_of t * 86400 + secs_of t mod 86400"
  by (simp add: day_of_def)

lemma text_bounds: "calendar_range t \<Longrightarrow> day_of t < 3652059"
  by (simp add: calendar_range_def)

text \<open>Two texts of the same kind are ordered like the seconds they denote.\<close>

lemma current_timestamp_less:
  assumes "calendar_range t" "calendar_range t'"
  shows "current_timestamp t < current_timestamp t' \<longleftrightarrow> secs_of t < secs_of t'"
  using text_bounds [OF assms(1)] text_bounds [OF assms(2)] less_div_mod [of 86400 "secs_of t" "secs_of t'"]
  by (simp add: current_timestamp_def less_append_same_length date_text_less date_text_eq
      clock_text_less flip: day_of_def)

lemma rfc3339_less:
  assumes "calendar_range t" "calendar_range t'"
  shows "rfc3339 t < rfc3339 t' \<longleftrightarrow> secs_of t < secs_of t'"
  using text_bounds [OF assms(1)] text_bounds [OF assms(2)] less_div_mod [of 86400 "secs_of t" "secs_of t'"]
  by (simp add: rfc3339_def less_append_same_length date_text_less date_text_eq
      clock_text_less flip: day_of_def)

text \<open>
  A stored RFC 3339 text against \<open>CURRENT_TIMESTAMP\<close>: the byte \<open>T\<close> is above the blank, so
  on the same date the RFC 3339 text is the greater one, whatever the time of day.
\<close>

lemma current_timestamp_less_rfc3339:
  assumes "calendar_range now" "calendar_range e"
  shows "current_timestamp now < rfc3339 e \<longleftrightarrow> day_of now \<le> day_of e"
proof -
  have "'' '' @ clock_text (secs_of now mod 86400) < ''T'' @ clock_text (secs_of e mod 86400) @ ''Z''"
    by (simp add: less_char_iff)
  then show ?thesis
    using text_bounds [OF assms(1)] text_bounds [OF assms(2)]
    by (auto simp: current_timestamp_def rfc3339_def less_append_same_length date_text_less
        date_text_eq le_less)
qed

lemma rfc3339_le_current_timestamp:
  assumes "calendar_range now" "calendar_range e"
  shows "rfc3339 e \<le> current_timestamp now \<longleftrightarrow> day_of e < day_of now"
  using current_timestamp_less_rfc3339 [OF assms] by (simp add: not_less [symmetric])

section \<open>Parsing undoes formatting\<close>

lemma unpad_aux_append: "unpad_aux a (x @ y) = (case unpad_aux a x of None \<Rightarrow> None | Some b \<Rightarrow> unpad_aux b y)"
  by (induction x arbitrary: a) (auto split: option.splits)

lemma undigit_digit: "n < 10 \<Longrightarrow> undigit (digit n) = Some n"
  by (simp add: undigit_def of_char_digit)

lemma unpad_pad: "n < 10 ^ k \<Longrightarrow> unpad (pad k n) = Some n"
  unfolding unpad_def
  by (induction k arbitrary: n) (auto simp: unpad_aux_append undigit_digit)

lemma parse_rfc3339_format:
  assumes "calendar_range t"
  shows "parse_rfc3339 (rfc3339 t) = Some (t - t mod second)"
proof -
  obtain y m d where c: "civil_of_day (day_of t) = Civil y m d" by (cases "civil_of_day (day_of t)")
  note f = civil_of_day_fields [OF c]
  define s where "s = secs_of t mod 86400"
  have y: "y < 10000" using year_index_bound [OF text_bounds [OF assms]] f(1) by simp
  have y1: "1 \<le> y" using f(1) by simp
  have form: "rfc3339 t = pad 4 y @ CHR ''-'' # pad 2 m @ CHR ''-'' # pad 2 d @ CHR ''T''
      # pad 2 (s div 3600) @ CHR '':'' # pad 2 (s mod 3600 div 60) @ CHR '':'' # pad 2 (s mod 60) @ ''Z''"
    by (simp add: rfc3339_def date_text_def c clock_text_def s_def)
  have s: "s div 3600 < 24" "s mod 3600 div 60 < 60" "s mod 60 < 60" by (auto simp: s_def)
  have up: "unpad (pad 4 y) = Some y" "unpad (pad 2 m) = Some m" "unpad (pad 2 d) = Some d"
    "unpad (pad 2 (s div 3600)) = Some (s div 3600)"
    "unpad (pad 2 (s mod 3600 div 60)) = Some (s mod 3600 div 60)"
    "unpad (pad 2 (s mod 60)) = Some (s mod 60)"
    using y f s by (auto intro!: unpad_pad)
  have "s div 3600 * 3600 + s mod 3600 div 60 * 60 + s mod 60 = s"
  proof -
    have "s mod 3600 div 60 * 60 + s mod 60 = s mod 3600"
      using div_mult_mod_eq [of "s mod 3600" 60] mod_mod_cancel [of 60 3600 s] by simp
    then show ?thesis by (metis add.assoc div_mult_mod_eq)
  qed
  then have "day_of t * 86400 + s div 3600 * 3600 + s mod 3600 div 60 * 60 + s mod 60 = secs_of t"
    using secs_split [of t] unfolding s_def by linarith
  moreover have "int (secs_of t) * second = t - t mod second"
    using assms by (simp add: calendar_range_def secs_of_def minus_mod_eq_div_mult)
  ultimately have "int (day_of t * 86400 + s div 3600 * 3600 + s mod 3600 div 60 * 60 + s mod 60) * second
      = t - t mod second" by metis
  then show ?thesis
    using f(2-7) s y1 by (simp add: parse_rfc3339_def form nth_append up)
qed

end
