(* ===== verification/Database.thy ===== *)
theory Database
  imports Clock
begin

text \<open>
  The SQLite database: one row record per table (\<open>internal/db/generated/models.go\<close>), the
  constraints of \<open>internal/db/migrations/*.sql\<close>, and one definition per SQL statement of
  \<open>internal/db/generated/*.go\<close> and of the services that write SQL themselves. A table is the
  list of its rows in insertion order.

  A statement takes the text of \<open>CURRENT_TIMESTAMP\<close>. A violated constraint is the error
  \<open>Constraint\<close>; an empty result of a single-row query is \<open>NoRows\<close>. Timestamps are compared
  as SQLite compares two texts, byte by byte. \<open>ORDER BY x DESC\<close> leaves the order of equal
  keys open in SQL; the model lists the later row first. Each of these statements runs alone:
  the pool has one connection.
\<close>

section \<open>Rows and tables\<close>

datatype sql_error = NoRows | Constraint | DriverFault

record user_row =
  u_id :: string
  u_email :: string
  u_password_hash :: string
  u_role :: string
  u_backup_codes :: "string option"
  u_created_at :: string
  u_last_login_at :: "string option"
  u_is_active :: int

record cred_row =
  m_id :: string
  m_user_id :: string
  m_type :: string
  m_name :: string
  m_credential_data :: string
  m_sign_count :: int
  m_last_used_at :: "string option"
  m_created_at :: string
  m_is_active :: int

record session_row =
  s_id :: string
  s_user_id :: string
  s_access_token_hash :: string
  s_refresh_token_hash :: string
  s_ip_address :: string
  s_user_agent :: "string option"
  s_created_at :: string
  s_expires_at :: string
  s_revoked_at :: "string option"

record pim_row =
  p_id :: string
  p_user_id :: string
  p_session_id :: string
  p_reason :: string
  p_requested_duration_min :: int
  p_started_at :: string
  p_expires_at :: string
  p_ended_at :: "string option"
  p_is_break_glass :: int
  p_action_count :: int

record audit_row =
  a_id :: string
  a_user_id :: "string option"
  a_session_id :: "string option"
  a_pim_session_id :: "string option"
  a_action_type :: string
  a_resource :: "string option"
  a_result :: string
  a_ip_address :: "string option"
  a_metadata :: "string option"
  a_severity :: string
  a_created_at :: string

record config_row =
  c_key :: string
  c_value :: string
  c_updated_at :: string
  c_updated_by :: "string option"

record alert_row =
  al_id :: string
  al_type :: string
  al_threshold :: rat
  al_current_value :: rat
  al_severity :: string
  al_resource :: "string option"
  al_triggered_at :: string
  al_resolved_at :: "string option"
  al_notified :: int

record database =
  users :: "user_row list"
  creds :: "cred_row list"
  sessions :: "session_row list"
  pims :: "pim_row list"
  audits :: "audit_row list"
  configs :: "config_row list"
  alerts :: "alert_row list"

definition empty_db :: database where
  "empty_db = \<lparr>users = [], creds = [], sessions = [], pims = [], audits = [], configs = [], alerts = []\<rparr>"

type_synonym 'a query = "database \<Rightarrow> sql_error + 'a"
type_synonym 'a update = "string \<Rightarrow> database \<Rightarrow> sql_error + ('a \<times> database)"

section \<open>Tables with a primary key\<close>

text \<open>
  \<open>INSERT\<close> and \<open>UPDATE ... WHERE\<close> on a table reached by \<open>rows\<close> and \<open>store\<close>; \<open>first_row\<close> is a
  query with \<open>LIMIT 1\<close>.
\<close>

definition insert_row ::
    "('r \<Rightarrow> string) \<Rightarrow> ('d \<Rightarrow> 'r list) \<Rightarrow> ('r list \<Rightarrow> 'd \<Rightarrow> 'd) \<Rightarrow> 'r \<Rightarrow> 'd \<Rightarrow> sql_error + ('r \<times> 'd)" where
  "insert_row key rows store r d =
     (if key r \<in> key ` set (rows d) then Inl Constraint else Inr (r, store (rows d @ [r]) d))"

definition update_rows ::
    "('d \<Rightarrow> 'r list) \<Rightarrow> ('r list \<Rightarrow> 'd \<Rightarrow> 'd) \<Rightarrow> ('r \<Rightarrow> bool) \<Rightarrow> ('r \<Rightarrow> 'r) \<Rightarrow> 'd \<Rightarrow> 'd" where
  "update_rows rows store P f d = store (map (\<lambda>r. if P r then f r else r) (rows d)) d"

definition first_row :: "('r \<Rightarrow> bool) \<Rightarrow> 'r list \<Rightarrow> sql_error + 'r" where
  "first_row P rs = (case find P rs of None \<Rightarrow> Inl NoRows | Some r \<Rightarrow> Inr r)"

lemma first_row_Inr: "first_row P rs = Inr r \<Longrightarrow> r \<in> set rs \<and> P r"
  by (auto simp: first_row_def dest: find_Some_in split: option.splits)

lemma first_row_Inl: "first_row P rs = Inl e \<longleftrightarrow> e = NoRows \<and> (\<forall>r \<in> set rs. \<not> P r)"
  by (auto simp: first_row_def find_None_iff split: option.splits dest: find_Some_in)

text \<open>Rows changed in a way the condition or the sort key does not see.\<close>

lemma first_row_map: "(\<And>r. P (g r) = P r) \<Longrightarrow> first_row P (map g rs) = map_sum id g (first_row P rs)"
  by (induction rs) (auto simp: first_row_def split: option.splits)

lemma insort_key_map: "(\<And>r. k (g r) = k r) \<Longrightarrow> insort_key k (g x) (map g ys) = map g (insort_key k x ys)"
  by (induction ys) auto

lemma sort_key_map: "(\<And>r. k (g r) = k r) \<Longrightarrow> sort_key k (map g rs) = map g (sort_key k rs)"
  by (induction rs) (simp_all add: insort_key_map)

lemma filter_map_same: "(\<And>r. P (g r) = P r) \<Longrightarrow> filter P (map g rs) = map g (filter P rs)"
  by (induction rs) simp_all

lemma find_map_same: "(\<And>r. P (g r) = P r) \<Longrightarrow> find P (map g rs) = map_option g (find P rs)"
  by (induction rs) simp_all

definition unique_keys :: "('r \<Rightarrow> string) \<Rightarrow> 'r list \<Rightarrow> bool" where
  "unique_keys key rs = distinct (map key rs)"

lemma unique_keysD: "unique_keys key rs \<Longrightarrow> x \<in> set rs \<Longrightarrow> y \<in> set rs \<Longrightarrow> key x = key y \<Longrightarrow> x = y"
  by (auto simp: unique_keys_def distinct_map inj_on_def)

locale keyed_table =
  fixes key :: "'r \<Rightarrow> string"
    and rows :: "'d \<Rightarrow> 'r list"
    and store :: "'r list \<Rightarrow> 'd \<Rightarrow> 'd"
  assumes rows_store [simp]: "rows (store t d) = t"
begin

lemma insert_unique:
  "insert_row key rows store r d = Inr (r', d') \<Longrightarrow> unique_keys key (rows d) \<Longrightarrow> unique_keys key (rows d')"
  by (auto simp: insert_row_def unique_keys_def split: if_splits)

lemma insert_rows: "insert_row key rows store r d = Inr (r', d') \<Longrightarrow>
    r' = r \<and> rows d' = rows d @ [r] \<and> d' = store (rows d @ [r]) d \<and> key r \<notin> key ` set (rows d)"
  by (auto simp: insert_row_def split: if_splits)

lemma insert_fails: "insert_row key rows store r d = Inl e \<longleftrightarrow> e = Constraint \<and> key r \<in> key ` set (rows d)"
  by (auto simp: insert_row_def)

lemma insert_then_first:
  assumes "insert_row key rows store r d = Inr (r', d')"
  shows "first_row (\<lambda>x. key x = key r) (rows d') = Inr r"
proof (cases "first_row (\<lambda>x. key x = key r) (rows d')")
  case (Inl e)
  then show ?thesis using insert_rows [OF assms] by (auto simp: first_row_Inl)
next
  case (Inr x)
  then show ?thesis using insert_rows [OF assms] first_row_Inr [OF Inr] by (auto simp: image_iff)
qed

lemma update_keys:
  "(\<And>r. key (f r) = key r) \<Longrightarrow> map key (rows (update_rows rows store P f d)) = map key (rows d)"
  by (simp add: update_rows_def)

lemma update_unique:
  "(\<And>r. key (f r) = key r) \<Longrightarrow> unique_keys key (rows (update_rows rows store P f d)) = unique_keys key (rows d)"
  unfolding unique_keys_def by (simp add: update_keys)

text \<open>A row with the key is the only one, so a lookup by key finds it.\<close>

lemma first_key_iff:
  assumes "unique_keys key (rows d)"
  shows "first_row (\<lambda>x. key x = k) (rows d) = Inr r \<longleftrightarrow> r \<in> set (rows d) \<and> key r = k"
proof (cases "first_row (\<lambda>x. key x = k) (rows d)")
  case (Inl e)
  then show ?thesis by (auto simp: first_row_Inl dest: first_row_Inr)
next
  case (Inr x)
  then show ?thesis using first_row_Inr [OF Inr] unique_keysD [OF assms] by auto
qed

end

interpretation user_table: keyed_table u_id users "\<lambda>t d. d\<lparr>users := t\<rparr>" by unfold_locales simp
interpretation cred_table: keyed_table m_id creds "\<lambda>t d. d\<lparr>creds := t\<rparr>" by unfold_locales simp
interpretation session_table: keyed_table s_id sessions "\<lambda>t d. d\<lparr>sessions := t\<rparr>" by unfold_locales simp
interpretation pim_table: keyed_table p_id pims "\<lambda>t d. d\<lparr>pims := t\<rparr>" by unfold_locales simp
interpretation audit_table: keyed_table a_id audits "\<lambda>t d. d\<lparr>audits := t\<rparr>" by unfold_locales simp
interpretation config_table: keyed_table c_key configs "\<lambda>t d. d\<lparr>configs := t\<rparr>" by unfold_locales simp
interpretation alert_table: keyed_table al_id alerts "\<lambda>t d. d\<lparr>alerts := t\<rparr>" by unfold_locales simp

definition user_ref :: "database \<Rightarrow> string \<Rightarrow> bool" where
  "user_ref d k = (k \<in> u_id ` set (users d))"

definition session_ref :: "database \<Rightarrow> string \<Rightarrow> bool" where
  "session_ref d k = (k \<in> s_id ` set (sessions d))"

definition pim_ref :: "database \<Rightarrow> string \<Rightarrow> bool" where
  "pim_ref d k = (k \<in> p_id ` set (pims d))"

text \<open>A nullable foreign key.\<close>

definition null_or :: "('a \<Rightarrow> bool) \<Rightarrow> 'a option \<Rightarrow> bool" where
  "null_or P v = (case v of None \<Rightarrow> True | Some x \<Rightarrow> P x)"

definition newest_first :: "('r \<Rightarrow> string) \<Rightarrow> 'r list \<Rightarrow> 'r list" where
  "newest_first k rs = rev (sort_key k rs)"

lemma set_newest_first [simp]: "set (newest_first k rs) = set rs"
  by (simp add: newest_first_def)

lemma length_newest_first [simp]: "length (newest_first k rs) = length rs"
  by (simp add: newest_first_def)

lemma filter_newest_first: "filter P (newest_first k rs) = newest_first k (filter P rs)"
  by (simp add: newest_first_def filter_sort rev_filter [symmetric])

text \<open>SQLite's \<open>LIMIT n OFFSET m\<close>: a negative limit is none, a negative offset is zero.\<close>

definition limit_offset :: "int \<Rightarrow> int \<Rightarrow> 'r list \<Rightarrow> 'r list" where
  "limit_offset n m rs = (let ys = drop (nat m) rs in if n < 0 then ys else take (nat n) ys)"

end
