(* ===== verification/Queries.thy ===== *)
theory Queries
  imports Database
begin

text \<open>
  The SQL statements of \<open>internal/db/generated/*.go\<close>, and those the services and the setup
  wizard write inline, over the tables of \<open>Database\<close>; the constraints of the schema as one
  predicate \<open>db_ok\<close>; and, in the locale \<open>db_relation\<close>, what it takes for a relation between
  two states of the database to hold across every statement.

  A read is a \<open>query\<close>, a write an \<open>update\<close>: it takes the text of \<open>CURRENT_TIMESTAMP\<close>.
\<close>

section \<open>Users\<close>

definition q_CreateUser ::
    "string \<Rightarrow> string \<Rightarrow> string \<Rightarrow> string \<Rightarrow> string option \<Rightarrow> user_row update" where
  "q_CreateUser i email hash role codes now d =
     (if email \<in> u_email ` set (users d) \<or> role \<notin> {''admin'', ''viewer''} then Inl Constraint
      else insert_row u_id users (\<lambda>t d. d\<lparr>users := t\<rparr>)
        \<lparr>u_id = i, u_email = email, u_password_hash = hash, u_role = role, u_backup_codes = codes,
         u_created_at = now, u_last_login_at = None, u_is_active = 1\<rparr> d)"

definition q_GetUserByID :: "string \<Rightarrow> user_row query" where
  "q_GetUserByID i d = first_row (\<lambda>u. u_id u = i \<and> u_is_active u = 1) (users d)"

definition q_GetUserByEmail :: "string \<Rightarrow> user_row query" where
  "q_GetUserByEmail email d = first_row (\<lambda>u. u_email u = email \<and> u_is_active u = 1) (users d)"

definition q_ListUsers :: "user_row list query" where
  "q_ListUsers d = Inr (newest_first u_created_at (users d))"

definition q_UpdateLastLogin :: "string \<Rightarrow> unit update" where
  "q_UpdateLastLogin i now d =
     Inr ((), update_rows users (\<lambda>t d. d\<lparr>users := t\<rparr>) (\<lambda>u. u_id u = i)
       (\<lambda>u. u\<lparr>u_last_login_at := Some now\<rparr>) d)"

definition q_DeactivateUser :: "string \<Rightarrow> unit update" where
  "q_DeactivateUser i now d =
     Inr ((), update_rows users (\<lambda>t d. d\<lparr>users := t\<rparr>) (\<lambda>u. u_id u = i) (\<lambda>u. u\<lparr>u_is_active := 0\<rparr>) d)"

text \<open>\<open>UPDATE ... RETURNING\<close>: the updated row, or no row at all.\<close>

definition q_UpdateUserRole :: "string \<Rightarrow> string \<Rightarrow> user_row update" where
  "q_UpdateUserRole role i now d =
     (case first_row (\<lambda>u. u_id u = i \<and> u_is_active u = 1) (users d) of
        Inl e \<Rightarrow> Inl e
      | Inr u \<Rightarrow>
          if role \<notin> {''admin'', ''viewer''} then Inl Constraint
          else Inr (u\<lparr>u_role := role\<rparr>,
                 update_rows users (\<lambda>t d. d\<lparr>users := t\<rparr>) (\<lambda>u. u_id u = i \<and> u_is_active u = 1)
                   (\<lambda>u. u\<lparr>u_role := role\<rparr>) d))"

text \<open>\<open>UPDATE users SET backup_codes = ? WHERE id = ?\<close> of the MFA service.\<close>

definition q_SetBackupCodes :: "string \<Rightarrow> string \<Rightarrow> unit update" where
  "q_SetBackupCodes codes i now d =
     Inr ((), update_rows users (\<lambda>t d. d\<lparr>users := t\<rparr>) (\<lambda>u. u_id u = i)
       (\<lambda>u. u\<lparr>u_backup_codes := Some codes\<rparr>) d)"

section \<open>Sessions\<close>

definition q_CreateSession ::
    "string \<Rightarrow> string \<Rightarrow> string \<Rightarrow> string \<Rightarrow> string \<Rightarrow> string option \<Rightarrow> string \<Rightarrow> session_row update" where
  "q_CreateSession i user ahash rhash ip agent expires now d =
     (if \<not> user_ref d user then Inl Constraint
      else insert_row s_id sessions (\<lambda>t d. d\<lparr>sessions := t\<rparr>)
        \<lparr>s_id = i, s_user_id = user, s_access_token_hash = ahash, s_refresh_token_hash = rhash,
         s_ip_address = ip, s_user_agent = agent, s_created_at = now, s_expires_at = expires,
         s_revoked_at = None\<rparr> d)"

definition q_GetSessionByAccessTokenHash :: "string \<Rightarrow> session_row query" where
  "q_GetSessionByAccessTokenHash h d =
     first_row (\<lambda>s. s_access_token_hash s = h \<and> s_revoked_at s = None) (sessions d)"

definition q_GetSessionByRefreshTokenHash :: "string \<Rightarrow> session_row query" where
  "q_GetSessionByRefreshTokenHash h d =
     first_row (\<lambda>s. s_refresh_token_hash s = h \<and> s_revoked_at s = None) (sessions d)"

definition q_ListActiveSessionsByUserID :: "string \<Rightarrow> string \<Rightarrow> session_row list query" where
  "q_ListActiveSessionsByUserID user now d =
     Inr (newest_first s_created_at
       (filter (\<lambda>s. s_user_id s = user \<and> s_revoked_at s = None \<and> now < s_expires_at s) (sessions d)))"

definition q_RevokeSession :: "string \<Rightarrow> unit update" where
  "q_RevokeSession i now d =
     Inr ((), update_rows sessions (\<lambda>t d. d\<lparr>sessions := t\<rparr>) (\<lambda>s. s_id s = i)
       (\<lambda>s. s\<lparr>s_revoked_at := Some now\<rparr>) d)"

definition q_RevokeAllUserSessions :: "string \<Rightarrow> unit update" where
  "q_RevokeAllUserSessions user now d =
     Inr ((), update_rows sessions (\<lambda>t d. d\<lparr>sessions := t\<rparr>)
       (\<lambda>s. s_user_id s = user \<and> s_revoked_at s = None) (\<lambda>s. s\<lparr>s_revoked_at := Some now\<rparr>) d)"

section \<open>MFA credentials\<close>

definition q_CreateMFACredential ::
    "string \<Rightarrow> string \<Rightarrow> string \<Rightarrow> string \<Rightarrow> string \<Rightarrow> cred_row update" where
  "q_CreateMFACredential i user ty nm data now d =
     (if \<not> user_ref d user \<or> ty \<notin> {''totp'', ''passkey'', ''fido2''} then Inl Constraint
      else insert_row m_id creds (\<lambda>t d. d\<lparr>creds := t\<rparr>)
        \<lparr>m_id = i, m_user_id = user, m_type = ty, m_name = nm, m_credential_data = data,
         m_sign_count = 0, m_last_used_at = None, m_created_at = now, m_is_active = 1\<rparr> d)"

definition q_ListMFACredentialsByUserID :: "string \<Rightarrow> cred_row list query" where
  "q_ListMFACredentialsByUserID user d =
     Inr (sort_key m_created_at (filter (\<lambda>m. m_user_id m = user \<and> m_is_active m = 1) (creds d)))"

definition q_UpdateMFASignCount :: "int \<Rightarrow> string \<Rightarrow> unit update" where
  "q_UpdateMFASignCount n i now d =
     Inr ((), update_rows creds (\<lambda>t d. d\<lparr>creds := t\<rparr>) (\<lambda>m. m_id m = i)
       (\<lambda>m. m\<lparr>m_sign_count := n, m_last_used_at := Some now\<rparr>) d)"

definition q_DeactivateMFACredential :: "string \<Rightarrow> string \<Rightarrow> unit update" where
  "q_DeactivateMFACredential i user now d =
     Inr ((), update_rows creds (\<lambda>t d. d\<lparr>creds := t\<rparr>) (\<lambda>m. m_id m = i \<and> m_user_id m = user)
       (\<lambda>m. m\<lparr>m_is_active := 0\<rparr>) d)"

section \<open>PIM sessions\<close>

definition q_CreatePIMSession ::
    "string \<Rightarrow> string \<Rightarrow> string \<Rightarrow> string \<Rightarrow> int \<Rightarrow> string \<Rightarrow> int \<Rightarrow> pim_row update" where
  "q_CreatePIMSession i user sess reason minutes expires glass now d =
     (if \<not> user_ref d user \<or> \<not> session_ref d sess \<or> glass \<notin> {0, 1} then Inl Constraint
      else insert_row p_id pims (\<lambda>t d. d\<lparr>pims := t\<rparr>)
        \<lparr>p_id = i, p_user_id = user, p_session_id = sess, p_reason = reason,
         p_requested_duration_min = minutes, p_started_at = now, p_expires_at = expires,
         p_ended_at = None, p_is_break_glass = glass, p_action_count = 0\<rparr> d)"

text \<open>The rows \<open>WHERE user_id = ? AND ended_at IS NULL AND expires_at > CURRENT_TIMESTAMP\<close>.\<close>

definition pim_active :: "string \<Rightarrow> string \<Rightarrow> pim_row \<Rightarrow> bool" where
  "pim_active now user p = (p_user_id p = user \<and> p_ended_at p = None \<and> now < p_expires_at p)"

definition q_GetActivePIMSessionByUserID :: "string \<Rightarrow> string \<Rightarrow> pim_row query" where
  "q_GetActivePIMSessionByUserID user now d = first_row (pim_active now user) (pims d)"

definition q_EndPIMSession :: "string \<Rightarrow> unit update" where
  "q_EndPIMSession i now d =
     Inr ((), update_rows pims (\<lambda>t d. d\<lparr>pims := t\<rparr>) (\<lambda>p. p_id p = i \<and> p_ended_at p = None)
       (\<lambda>p. p\<lparr>p_ended_at := Some now\<rparr>) d)"

definition q_IncrementPIMActionCount :: "string \<Rightarrow> unit update" where
  "q_IncrementPIMActionCount i now d =
     Inr ((), update_rows pims (\<lambda>t d. d\<lparr>pims := t\<rparr>) (\<lambda>p. p_id p = i \<and> p_ended_at p = None)
       (\<lambda>p. p\<lparr>p_action_count := p_action_count p + 1\<rparr>) d)"

text \<open>The statement of \<open>ExpireOverdue\<close>.\<close>

definition q_ExpirePIMSessions :: "unit update" where
  "q_ExpirePIMSessions now d =
     Inr ((), update_rows pims (\<lambda>t d. d\<lparr>pims := t\<rparr>) (\<lambda>p. p_ended_at p = None \<and> p_expires_at p \<le> now)
       (\<lambda>p. p\<lparr>p_ended_at := Some now\<rparr>) d)"

section \<open>Audit log\<close>

definition q_CreateAuditEntry ::
    "string \<Rightarrow> string option \<Rightarrow> string option \<Rightarrow> string option \<Rightarrow> string \<Rightarrow> string option \<Rightarrow>
     string \<Rightarrow> string option \<Rightarrow> string option \<Rightarrow> string \<Rightarrow> audit_row update" where
  "q_CreateAuditEntry i user sess pim action resource res ip meta severity now d =
     (if \<not> null_or (user_ref d) user \<or> \<not> null_or (session_ref d) sess \<or> \<not> null_or (pim_ref d) pim
         \<or> res \<notin> {''success'', ''failure''} \<or> severity \<notin> {''info'', ''warning'', ''critical''}
      then Inl Constraint
      else insert_row a_id audits (\<lambda>t d. d\<lparr>audits := t\<rparr>)
        \<lparr>a_id = i, a_user_id = user, a_session_id = sess, a_pim_session_id = pim,
         a_action_type = action, a_resource = resource, a_result = res, a_ip_address = ip,
         a_metadata = meta, a_severity = severity, a_created_at = now\<rparr> d)"

definition q_ListAuditEntries :: "int \<Rightarrow> int \<Rightarrow> audit_row list query" where
  "q_ListAuditEntries n m d = Inr (limit_offset n m (newest_first a_created_at (audits d)))"

definition q_ListAuditEntriesByUserID :: "string \<Rightarrow> int \<Rightarrow> int \<Rightarrow> audit_row list query" where
  "q_ListAuditEntriesByUserID user n m d =
     Inr (limit_offset n m
       (newest_first a_created_at (filter (\<lambda>a. a_user_id a = Some user) (audits d))))"

definition q_ListAuditEntriesBySeverity :: "string \<Rightarrow> int \<Rightarrow> int \<Rightarrow> audit_row list query" where
  "q_ListAuditEntriesBySeverity sev n m d =
     Inr (limit_offset n m (newest_first a_created_at (filter (\<lambda>a. a_severity a = sev) (audits d))))"

definition q_CountAuditEntries :: "int query" where
  "q_CountAuditEntries d = Inr (int (length (audits d)))"

section \<open>Configuration\<close>

definition q_GetConfig :: "string \<Rightarrow> string query" where
  "q_GetConfig k d =
     (case first_row (\<lambda>c. c_key c = k) (configs d) of Inl e \<Rightarrow> Inl e | Inr c \<Rightarrow> Inr (c_value c))"

text \<open>The upsert of \<open>setConfig\<close>.\<close>

definition q_SetConfig :: "string \<Rightarrow> string \<Rightarrow> string option \<Rightarrow> unit update" where
  "q_SetConfig k v by_user now d =
     (let row = \<lparr>c_key = k, c_value = v, c_updated_at = now, c_updated_by = by_user\<rparr> in
      if \<not> null_or (user_ref d) by_user then Inl Constraint
      else if k \<in> c_key ` set (configs d)
      then Inr ((), update_rows configs (\<lambda>t d. d\<lparr>configs := t\<rparr>) (\<lambda>c. c_key c = k) (\<lambda>_. row) d)
      else Inr ((), d\<lparr>configs := configs d @ [row]\<rparr>))"

section \<open>Alerts\<close>

definition q_CreateAlert ::
    "string \<Rightarrow> string \<Rightarrow> rat \<Rightarrow> rat \<Rightarrow> string \<Rightarrow> string option \<Rightarrow> alert_row update" where
  "q_CreateAlert i ty threshold current severity resource now d =
     (if ty \<notin> {''cpu'', ''ram'', ''disk''} \<or> severity \<notin> {''warning'', ''critical''} then Inl Constraint
      else insert_row al_id alerts (\<lambda>t d. d\<lparr>alerts := t\<rparr>)
        \<lparr>al_id = i, al_type = ty, al_threshold = threshold, al_current_value = current,
         al_severity = severity, al_resource = resource, al_triggered_at = now,
         al_resolved_at = None, al_notified = 0\<rparr> d)"

definition q_ResolveAlert :: "string \<Rightarrow> unit update" where
  "q_ResolveAlert i now d =
     Inr ((), update_rows alerts (\<lambda>t d. d\<lparr>alerts := t\<rparr>) (\<lambda>a. al_id a = i \<and> al_resolved_at a = None)
       (\<lambda>a. a\<lparr>al_resolved_at := Some now\<rparr>) d)"

definition q_ListActiveAlerts :: "alert_row list query" where
  "q_ListActiveAlerts d =
     Inr (newest_first al_triggered_at (filter (\<lambda>a. al_resolved_at a = None) (alerts d)))"

lemmas write_defs = q_CreateUser_def q_UpdateLastLogin_def q_DeactivateUser_def q_UpdateUserRole_def
  q_SetBackupCodes_def q_CreateSession_def q_RevokeSession_def q_RevokeAllUserSessions_def
  q_CreateMFACredential_def q_UpdateMFASignCount_def q_DeactivateMFACredential_def
  q_CreatePIMSession_def q_EndPIMSession_def q_IncrementPIMActionCount_def q_ExpirePIMSessions_def
  q_CreateAuditEntry_def q_SetConfig_def q_CreateAlert_def q_ResolveAlert_def

lemmas read_defs = q_GetUserByID_def q_GetUserByEmail_def q_ListUsers_def
  q_GetSessionByAccessTokenHash_def q_GetSessionByRefreshTokenHash_def
  q_ListActiveSessionsByUserID_def q_ListMFACredentialsByUserID_def q_GetActivePIMSessionByUserID_def
  q_ListAuditEntries_def q_ListAuditEntriesByUserID_def q_ListAuditEntriesBySeverity_def
  q_CountAuditEntries_def q_GetConfig_def q_ListActiveAlerts_def

end
