(* ===== verification/Integrity.thy ===== *)
theory Integrity
  imports Queries
begin

text \<open>
  What holds across every SQL statement: the step relation \<open>db_step\<close> has one rule per writing
  statement, \<open>db_steps\<close> is its reflexive transitive closure, and the locales
  \<open>db_invariant\<close> and \<open>db_relation\<close> lift a fact about one statement to any sequence of
  them. They are interpreted on the schema's constraints (\<open>db_ok\<close>), on the audit log being
  append-only, and on identifiers never disappearing.
\<close>

section \<open>Steps\<close>

inductive db_step :: "string \<Rightarrow> database \<Rightarrow> database \<Rightarrow> bool" for now where
  create_user: "q_CreateUser i em h ro bc now d = Inr (r, d') \<Longrightarrow> db_step now d d'"
| update_last_login: "q_UpdateLastLogin i now d = Inr (x, d') \<Longrightarrow> db_step now d d'"
| deactivate_user: "q_DeactivateUser i now d = Inr (x, d') \<Longrightarrow> db_step now d d'"
| update_user_role: "q_UpdateUserRole ro i now d = Inr (r, d') \<Longrightarrow> db_step now d d'"
| set_backup_codes: "q_SetBackupCodes c i now d = Inr (x, d') \<Longrightarrow> db_step now d d'"
| create_session: "q_CreateSession i u ah rh ip ag ex now d = Inr (s, d') \<Longrightarrow> db_step now d d'"
| revoke_session: "q_RevokeSession i now d = Inr (x, d') \<Longrightarrow> db_step now d d'"
| revoke_all: "q_RevokeAllUserSessions u now d = Inr (x, d') \<Longrightarrow> db_step now d d'"
| create_cred: "q_CreateMFACredential i u ty nm da now d = Inr (m, d') \<Longrightarrow> db_step now d d'"
| update_sign_count: "q_UpdateMFASignCount n i now d = Inr (x, d') \<Longrightarrow> db_step now d d'"
| deactivate_cred: "q_DeactivateMFACredential i u now d = Inr (x, d') \<Longrightarrow> db_step now d d'"
| create_pim: "q_CreatePIMSession i u se re mi ex gl now d = Inr (p, d') \<Longrightarrow> db_step now d d'"
| end_pim: "q_EndPIMSession i now d = Inr (x, d') \<Longrightarrow> db_step now d d'"
| increment_pim: "q_IncrementPIMActionCount i now d = Inr (x, d') \<Longrightarrow> db_step now d d'"
| expire_pim: "q_ExpirePIMSessions now d = Inr (x, d') \<Longrightarrow> db_step now d d'"
| create_audit: "q_CreateAuditEntry i u se pm ac re rs ip me sv now d = Inr (a, d') \<Longrightarrow> db_step now d d'"
| set_config: "q_SetConfig k v u now d = Inr (x, d') \<Longrightarrow> db_step now d d'"
| create_alert: "q_CreateAlert i ty th cu sv re now d = Inr (al, d') \<Longrightarrow> db_step now d d'"
| resolve_alert: "q_ResolveAlert i now d = Inr (x, d') \<Longrightarrow> db_step now d d'"

abbreviation db_steps :: "string \<Rightarrow> database \<Rightarrow> database \<Rightarrow> bool" where
  "db_steps now \<equiv> (db_step now)\<^sup>*\<^sup>*"

lemmas step_intros = db_step.intros [THEN r_into_rtranclp [where r = "db_step now" for now]]

locale db_invariant =
  fixes I :: "database \<Rightarrow> bool"
  assumes step: "db_step now d d' \<Longrightarrow> I d \<Longrightarrow> I d'"
begin

lemma steps: "db_steps now d d' \<Longrightarrow> I d \<Longrightarrow> I d'"
  by (induction rule: rtranclp_induct) (auto intro: step)

end

locale db_relation =
  fixes R :: "database \<Rightarrow> database \<Rightarrow> bool"
  assumes refl: "R d d"
    and trans: "R a b \<Longrightarrow> R b c \<Longrightarrow> R a c"
    and step: "db_step now d d' \<Longrightarrow> R d d'"
begin

lemma steps: "db_steps now d d' \<Longrightarrow> R d d'"
  by (induction rule: rtranclp_induct) (auto intro: refl trans step)

text \<open>A property a relation carries forward is an invariant.\<close>

lemma invariant: "(\<And>d d'. R d d' \<Longrightarrow> I d \<Longrightarrow> I d') \<Longrightarrow> db_invariant I"
  by unfold_locales (blast dest: step)

end

section \<open>The audit log is append-only, and no row disappears\<close>

definition appends :: "database \<Rightarrow> database \<Rightarrow> bool" where
  "appends d d' = prefix (audits d) (audits d')"

interpretation append_only: db_relation appends
proof unfold_locales
  show "db_step now d d' \<Longrightarrow> appends d d'" for now d d'
    by (cases rule: db_step.cases)
      (auto simp: write_defs appends_def update_rows_def insert_row_def Let_def split: if_splits sum.splits)
qed (auto simp: appends_def)

text \<open>A table evolves when rows are changed in place, keeping their key, and rows are added at its end.\<close>

definition evolves :: "('r \<Rightarrow> string) \<Rightarrow> 'r list \<Rightarrow> 'r list \<Rightarrow> bool" where
  "evolves key rs rs' = (\<exists>f new. rs' = map f rs @ new \<and> (\<forall>r. key (f r) = key r))"

lemma evolves_refl [simp]: "evolves key rs rs"
  unfolding evolves_def by (rule exI [of _ id], rule exI [of _ "[]"]) simp

lemma evolves_insert [simp]: "evolves key rs (rs @ new)"
  unfolding evolves_def by (rule exI [of _ id], rule exI [of _ new]) simp

lemma evolves_update [simp]:
  "(\<And>r. P r \<Longrightarrow> key (f r) = key r) \<Longrightarrow> evolves key rs (map (\<lambda>r. if P r then f r else r) rs)"
  unfolding evolves_def by (rule exI [of _ "\<lambda>r. if P r then f r else r"], rule exI [of _ "[]"]) simp

lemma evolves_trans: "evolves key xs ys \<Longrightarrow> evolves key ys zs \<Longrightarrow> evolves key xs zs"
proof -
  assume "evolves key xs ys" "evolves key ys zs"
  then obtain f n g m where "ys = map f xs @ n" "zs = map g ys @ m"
    "\<forall>r. key (f r) = key r" "\<forall>r. key (g r) = key r" unfolding evolves_def by blast
  then show ?thesis
    unfolding evolves_def by (intro exI [of _ "g \<circ> f"] exI [of _ "map g n @ m"]) simp
qed

lemma evolves_keys: "evolves key rs rs' \<Longrightarrow> k \<in> key ` set rs \<Longrightarrow> k \<in> key ` set rs'"
  unfolding evolves_def by (auto simp: image_Un image_image)

definition keeps_keys :: "database \<Rightarrow> database \<Rightarrow> bool" where
  "keeps_keys d d' =
     (evolves u_id (users d) (users d') \<and> evolves m_id (creds d) (creds d')
      \<and> evolves s_id (sessions d) (sessions d') \<and> evolves p_id (pims d) (pims d')
      \<and> evolves a_id (audits d) (audits d') \<and> evolves c_key (configs d) (configs d')
      \<and> evolves al_id (alerts d) (alerts d'))"

lemmas statement_split = if_split_asm sum.split_asm prod.split_asm

interpretation keys_kept: db_relation keeps_keys
proof unfold_locales
  show "db_step now d d' \<Longrightarrow> keeps_keys d d'" for now d d'
    by (cases rule: db_step.cases)
      (auto simp: write_defs keeps_keys_def update_rows_def insert_row_def Let_def split: statement_split)
  show "keeps_keys a b \<Longrightarrow> keeps_keys b c \<Longrightarrow> keeps_keys a c" for a b c
    unfolding keeps_keys_def by (blast intro: evolves_trans)
qed (simp add: keeps_keys_def)

lemma ref_kept:
  assumes "keeps_keys d d'"
  shows "user_ref d k \<Longrightarrow> user_ref d' k" "session_ref d k \<Longrightarrow> session_ref d' k"
    "pim_ref d k \<Longrightarrow> pim_ref d' k"
  using assms unfolding keeps_keys_def user_ref_def session_ref_def pim_ref_def
  by (blast intro: evolves_keys)+

section \<open>The constraints of the schema\<close>

definition user_ok :: "user_row \<Rightarrow> bool" where
  "user_ok u = (u_role u \<in> {''admin'', ''viewer''} \<and> u_is_active u \<in> {0, 1})"

definition users_ok :: "user_row list \<Rightarrow> bool" where
  "users_ok us = (unique_keys u_id us \<and> unique_keys u_email us
     \<and> list_all user_ok us)"

definition cred_ok :: "database \<Rightarrow> cred_row \<Rightarrow> bool" where
  "cred_ok d m = (user_ref d (m_user_id m) \<and> m_type m \<in> {''totp'', ''passkey'', ''fido2''}
     \<and> m_is_active m \<in> {0, 1})"

definition session_ok :: "database \<Rightarrow> session_row \<Rightarrow> bool" where
  "session_ok d s = user_ref d (s_user_id s)"

definition pim_ok :: "database \<Rightarrow> pim_row \<Rightarrow> bool" where
  "pim_ok d p = (user_ref d (p_user_id p) \<and> session_ref d (p_session_id p) \<and> p_is_break_glass p \<in> {0, 1})"

definition audit_ok :: "database \<Rightarrow> audit_row \<Rightarrow> bool" where
  "audit_ok d a = (null_or (user_ref d) (a_user_id a) \<and> null_or (session_ref d) (a_session_id a)
     \<and> null_or (pim_ref d) (a_pim_session_id a) \<and> a_result a \<in> {''success'', ''failure''}
     \<and> a_severity a \<in> {''info'', ''warning'', ''critical''})"

definition config_ok :: "database \<Rightarrow> config_row \<Rightarrow> bool" where
  "config_ok d c = null_or (user_ref d) (c_updated_by c)"

definition alert_ok :: "alert_row \<Rightarrow> bool" where
  "alert_ok a = (al_type a \<in> {''cpu'', ''ram'', ''disk''} \<and> al_severity a \<in> {''warning'', ''critical''}
     \<and> al_notified a \<in> {0, 1})"

definition db_ok :: "database \<Rightarrow> bool" where
  "db_ok d = (users_ok (users d)
     \<and> unique_keys m_id (creds d) \<and> list_all (cred_ok d) (creds d)
     \<and> unique_keys s_id (sessions d) \<and> list_all (session_ok d) (sessions d)
     \<and> unique_keys p_id (pims d) \<and> list_all (pim_ok d) (pims d)
     \<and> unique_keys a_id (audits d) \<and> list_all (audit_ok d) (audits d)
     \<and> unique_keys c_key (configs d) \<and> list_all (config_ok d) (configs d)
     \<and> unique_keys al_id (alerts d) \<and> list_all alert_ok (alerts d))"

lemma db_ok_empty: "db_ok empty_db"
  by (simp add: db_ok_def empty_db_def users_ok_def unique_keys_def)

lemma null_or_mono: "null_or P v \<Longrightarrow> (\<And>x. P x \<Longrightarrow> Q x) \<Longrightarrow> null_or Q v"
  by (cases v) (auto simp: null_or_def)

text \<open>Rows of other tables stay well-formed because what they refer to is kept.\<close>

lemma rows_ok_kept:
  assumes "keeps_keys d d'"
  shows "cred_ok d m \<Longrightarrow> cred_ok d' m" "session_ok d s \<Longrightarrow> session_ok d' s" "pim_ok d p \<Longrightarrow> pim_ok d' p"
    "audit_ok d a \<Longrightarrow> audit_ok d' a" "config_ok d c \<Longrightarrow> config_ok d' c"
  using ref_kept [OF assms]
  by (auto simp: cred_ok_def session_ok_def pim_ok_def audit_ok_def config_ok_def intro: null_or_mono)

lemma unique_insert [simp]:
  "unique_keys key (rs @ [r]) \<longleftrightarrow> unique_keys key rs \<and> key r \<notin> key ` set rs"
  by (auto simp: unique_keys_def)

lemma unique_update [simp]:
  "(\<And>r. P r \<Longrightarrow> key (f r) = key r) \<Longrightarrow>
   unique_keys key (map (\<lambda>r. if P r then f r else r) rs) = unique_keys key rs"
  unfolding unique_keys_def by (simp add: comp_def if_distrib [of key] cong: if_cong map_cong)

lemma list_all_update:
  "list_all Q rs \<Longrightarrow> (\<And>r. r \<in> set rs \<Longrightarrow> Q r \<Longrightarrow> P r \<Longrightarrow> Q (f r)) \<Longrightarrow> list_all Q (map (\<lambda>r. if P r then f r else r) rs)"
  by (auto simp: list_all_iff)

lemma ref_frame [simp]:
  "user_ref (d\<lparr>creds := ms\<rparr>) = user_ref d" "user_ref (d\<lparr>sessions := ss\<rparr>) = user_ref d"
  "user_ref (d\<lparr>pims := ps\<rparr>) = user_ref d" "user_ref (d\<lparr>audits := as\<rparr>) = user_ref d"
  "user_ref (d\<lparr>configs := cs\<rparr>) = user_ref d" "user_ref (d\<lparr>alerts := als\<rparr>) = user_ref d"
  "session_ref (d\<lparr>users := us\<rparr>) = session_ref d" "session_ref (d\<lparr>creds := ms\<rparr>) = session_ref d"
  "session_ref (d\<lparr>pims := ps\<rparr>) = session_ref d" "session_ref (d\<lparr>audits := as\<rparr>) = session_ref d"
  "session_ref (d\<lparr>configs := cs\<rparr>) = session_ref d" "session_ref (d\<lparr>alerts := als\<rparr>) = session_ref d"
  "pim_ref (d\<lparr>users := us\<rparr>) = pim_ref d" "pim_ref (d\<lparr>creds := ms\<rparr>) = pim_ref d"
  "pim_ref (d\<lparr>sessions := ss\<rparr>) = pim_ref d" "pim_ref (d\<lparr>audits := as\<rparr>) = pim_ref d"
  "pim_ref (d\<lparr>configs := cs\<rparr>) = pim_ref d" "pim_ref (d\<lparr>alerts := als\<rparr>) = pim_ref d"
  by (simp_all add: user_ref_def session_ref_def pim_ref_def fun_eq_iff)

lemmas row_ok_defs = user_ok_def cred_ok_def session_ok_def pim_ok_def audit_ok_def config_ok_def alert_ok_def

lemma db_ok_rows_kept:
  assumes "keeps_keys d d'" "db_ok d"
  shows "list_all (cred_ok d') (creds d)" "list_all (session_ok d') (sessions d)"
    "list_all (pim_ok d') (pims d)" "list_all (audit_ok d') (audits d)" "list_all (config_ok d') (configs d)"
  using assms(2) rows_ok_kept [OF assms(1)] by (auto simp: db_ok_def list_all_iff)

lemma db_ok_step:
  assumes step: "db_step now d d'" and ok: "db_ok d"
  shows "db_ok d'"
proof -
  note kept = db_ok_rows_kept [OF keys_kept.step [OF step] ok]
  have base: "unique_keys u_id (users d)" "unique_keys u_email (users d)" "list_all user_ok (users d)"
    "unique_keys m_id (creds d)" "unique_keys s_id (sessions d)"
    "unique_keys p_id (pims d)" "unique_keys a_id (audits d)" "unique_keys c_key (configs d)"
    "unique_keys al_id (alerts d)" "list_all alert_ok (alerts d)"
    using ok by (simp_all add: db_ok_def users_ok_def)
  show ?thesis using step kept base
    by (cases rule: db_step.cases)
      (simp_all add: write_defs db_ok_def users_ok_def update_rows_def insert_row_def Let_def
        split: if_split_asm sum.split_asm,
       (hypsubst, simp add: row_ok_defs; (erule list_all_update, simp add: row_ok_defs)?)+)
qed

interpretation schema: db_invariant db_ok
  by unfold_locales (rule db_ok_step)

end
