(* ===== verification/RateLimit.thy ===== *)
theory RateLimit
  imports Clock
begin

text \<open>
  The in-memory login rate limiter (\<open>internal/ratelimit/ratelimit.go\<close>): one entry per IP
  address, a short lock after three failures, a long one after ten, and the periodic clean-up.
  The interface the login service relies on is the locale \<open>login_throttle\<close>, interpreted
  here on the code's operations.

  An operation of the code that reads the clock twice takes both readings.
\<close>

section \<open>The code\<close>

definition MaxAttemptsShort :: int where "MaxAttemptsShort = 3"
definition LockoutDurationShort :: duration where "LockoutDurationShort = 5 * minute"
definition MaxAttemptsLong :: int where "MaxAttemptsLong = 10"
definition LockoutDurationLong :: duration where "LockoutDurationLong = hour"

lemmas limit_consts = MaxAttemptsShort_def LockoutDurationShort_def MaxAttemptsLong_def
  LockoutDurationLong_def

record entry =
  attempts :: int
  lockedUntil :: time

type_synonym limiter = "string \<rightharpoonup> entry"

definition limiter_New :: limiter where
  "limiter_New = Map.empty"

definition IsBlocked :: "limiter \<Rightarrow> string \<Rightarrow> time \<Rightarrow> time \<Rightarrow> bool \<times> duration" where
  "IsBlocked l ip now now' =
     (case l ip of
        None \<Rightarrow> (False, 0)
      | Some e \<Rightarrow>
          if now < lockedUntil e then (True, lockedUntil e - now') else (False, 0))"

text \<open>The body of \<open>RecordFailure\<close> on the entry it found or created.\<close>

definition count_failure :: "entry \<Rightarrow> time \<Rightarrow> time \<Rightarrow> entry" where
  "count_failure e now now' =
     (let e1 = (if lockedUntil e < now \<and> lockedUntil e \<noteq> zero_time
                then e\<lparr>attempts := 0, lockedUntil := zero_time\<rparr> else e);
          e2 = e1\<lparr>attempts := attempts e1 + 1\<rparr>
      in if attempts e2 \<ge> MaxAttemptsLong
         then e2\<lparr>lockedUntil := now' + LockoutDurationLong\<rparr>
         else if attempts e2 \<ge> MaxAttemptsShort
         then e2\<lparr>lockedUntil := now' + LockoutDurationShort\<rparr>
         else e2)"

definition RecordFailure :: "limiter \<Rightarrow> string \<Rightarrow> time \<Rightarrow> time \<Rightarrow> limiter" where
  "RecordFailure l ip now now' =
     (let e = (case l ip of None \<Rightarrow> \<lparr>attempts = 0, lockedUntil = zero_time\<rparr> | Some e \<Rightarrow> e)
      in l(ip \<mapsto> count_failure e now now'))"

definition Reset :: "limiter \<Rightarrow> string \<Rightarrow> limiter" where
  "Reset l ip = l(ip := None)"

definition Attempts :: "limiter \<Rightarrow> string \<Rightarrow> int" where
  "Attempts l ip = (case l ip of None \<Rightarrow> 0 | Some e \<Rightarrow> attempts e)"

text \<open>One tick of the \<open>cleanup\<close> goroutine.\<close>

definition cleanup_tick :: "limiter \<Rightarrow> time \<Rightarrow> limiter" where
  "cleanup_tick l now =
     (\<lambda>ip. case l ip of
        None \<Rightarrow> None
      | Some e \<Rightarrow>
          if lockedUntil e < now \<and> attempts e < MaxAttemptsShort then None else Some e)"


section \<open>Entries the operations can make\<close>

text \<open>
  Below the first threshold an entry carries no lock; from it on it carries one. The failure
  counter restarts once the lock is over, so it is the number of failures since the last
  success or expired lock.
\<close>

definition entry_ok :: "entry \<Rightarrow> bool" where
  "entry_ok e = (0 \<le> attempts e \<and> (attempts e < MaxAttemptsShort \<longleftrightarrow> lockedUntil e = zero_time)
     \<and> 0 \<le> lockedUntil e)"

definition limiter_ok :: "limiter \<Rightarrow> bool" where
  "limiter_ok l = (\<forall>e \<in> ran l. entry_ok e)"

lemma limiter_okD: "limiter_ok l \<Longrightarrow> l ip = Some e \<Longrightarrow> entry_ok e"
  by (auto simp: limiter_ok_def intro: ranI)

lemma count_failure_below:
  "entry_ok e \<Longrightarrow> attempts e < MaxAttemptsShort \<Longrightarrow>
   attempts (count_failure e now now') = attempts e + 1 \<and>
   lockedUntil (count_failure e now now') =
     (if attempts e + 1 = MaxAttemptsShort then now' + LockoutDurationShort else zero_time)"
  by (auto simp: count_failure_def entry_ok_def limit_consts Let_def)

lemma entry_ok_count_failure: "entry_ok e \<Longrightarrow> 0 \<le> now' \<Longrightarrow> entry_ok (count_failure e now now')"
  by (auto simp: count_failure_def entry_ok_def limit_consts zero_time_def Let_def)

lemma entry_ok_zero [simp]: "entry_ok \<lparr>attempts = 0, lockedUntil = zero_time\<rparr>"
  by (simp add: entry_ok_def limit_consts zero_time_def)

lemma limiter_ok_New: "limiter_ok limiter_New"
  by (simp add: limiter_ok_def limiter_New_def)

lemma limiter_ok_RecordFailure [preserve]:
  "limiter_ok l \<Longrightarrow> 0 \<le> now' \<Longrightarrow> limiter_ok (RecordFailure l ip now now')"
  by (auto simp: limiter_ok_def RecordFailure_def Let_def ran_def intro: entry_ok_count_failure
      split: option.splits if_splits)

lemma limiter_ok_Reset [preserve]: "limiter_ok l \<Longrightarrow> limiter_ok (Reset l ip)"
  by (auto simp: limiter_ok_def Reset_def ran_def)

lemma limiter_ok_cleanup [preserve]: "limiter_ok l \<Longrightarrow> limiter_ok (cleanup_tick l now)"
  by (auto simp: limiter_ok_def cleanup_tick_def ran_def split: option.splits if_splits)

lemma RecordFailure_other [frame]: "jp \<noteq> ip \<Longrightarrow> RecordFailure l ip now now' jp = l jp"
  by (simp add: RecordFailure_def Let_def)

lemma Reset_other [frame]: "jp \<noteq> ip \<Longrightarrow> Reset l ip jp = l jp"
  by (simp add: Reset_def)

lemma IsBlocked_cong: "l jp = l' jp \<Longrightarrow> IsBlocked l jp t t' = IsBlocked l' jp t t'"
  by (simp add: IsBlocked_def)

lemma cleanup_keeps_block: "now \<le> t \<Longrightarrow> IsBlocked (cleanup_tick l now) ip t t' = IsBlocked l ip t t'"
  by (auto simp: IsBlocked_def cleanup_tick_def split: option.splits)

section \<open>The interface of the login service\<close>

text \<open>
  What a login service relies on: failures of one address never touch another one, a success
  forgets the failures, reaching the threshold blocks the address for the lock's length, and a
  clean-up lifts no lock. What the clean-up does forget is stated with them: every count below the
  threshold.
\<close>

locale login_throttle =
  fixes ok :: "'l \<Rightarrow> bool"
    and blocked :: "'l \<Rightarrow> string \<Rightarrow> time \<Rightarrow> bool"
    and failure :: "'l \<Rightarrow> string \<Rightarrow> time \<Rightarrow> 'l"
    and forget :: "'l \<Rightarrow> string \<Rightarrow> 'l"
    and sweep :: "'l \<Rightarrow> time \<Rightarrow> 'l"
    and tally :: "'l \<Rightarrow> string \<Rightarrow> int"
    and threshold :: int
    and lock :: duration
  assumes ok_failure: "ok l \<Longrightarrow> 0 \<le> t \<Longrightarrow> ok (failure l ip t)"
    and ok_forget: "ok l \<Longrightarrow> ok (forget l ip)"
    and ok_sweep: "ok l \<Longrightarrow> ok (sweep l t)"
    and blocked_sweep: "s \<le> u \<Longrightarrow> blocked (sweep l s) ip u = blocked l ip u"
    and tally_sweep: "ok l \<Longrightarrow> 0 < s \<Longrightarrow> tally l ip < threshold \<Longrightarrow> tally (sweep l s) ip = 0"
    and blocked_failure_other: "jp \<noteq> ip \<Longrightarrow> blocked (failure l ip t) jp u = blocked l jp u"
    and blocked_forget_other: "jp \<noteq> ip \<Longrightarrow> blocked (forget l ip) jp u = blocked l jp u"
    and tally_failure_other: "jp \<noteq> ip \<Longrightarrow> tally (failure l ip t) jp = tally l jp"
    and tally_forget_other: "jp \<noteq> ip \<Longrightarrow> tally (forget l ip) jp = tally l jp"
    and tally_forget: "tally (forget l ip) ip = 0"
    and not_blocked_below: "ok l \<Longrightarrow> 0 \<le> u \<Longrightarrow> tally l ip < threshold \<Longrightarrow> \<not> blocked l ip u"
    and tally_failure: "ok l \<Longrightarrow> tally l ip < threshold \<Longrightarrow> tally (failure l ip t) ip = tally l ip + 1"
    and blocked_at_threshold:
      "ok l \<Longrightarrow> tally l ip + 1 = threshold \<Longrightarrow> blocked (failure l ip t) ip u \<longleftrightarrow> u < t + lock"

text \<open>
  Sequences of calls, of any addresses in any order, with the ticks of the clean-up anywhere in
  between. \<open>streak\<close> counts the failures of an address since its last success and the last clean-up.
\<close>

datatype throttle_call = Failed string time | Succeeded string | Sweep time

fun throttle_run ::
    "('l \<Rightarrow> string \<Rightarrow> time \<Rightarrow> 'l) \<Rightarrow> ('l \<Rightarrow> string \<Rightarrow> 'l) \<Rightarrow> ('l \<Rightarrow> time \<Rightarrow> 'l) \<Rightarrow>
     'l \<Rightarrow> throttle_call list \<Rightarrow> 'l" where
  "throttle_run failure forget sweep l [] = l"
| "throttle_run failure forget sweep l (Failed ip t # cs) = throttle_run failure forget sweep (failure l ip t) cs"
| "throttle_run failure forget sweep l (Succeeded ip # cs) = throttle_run failure forget sweep (forget l ip) cs"
| "throttle_run failure forget sweep l (Sweep t # cs) = throttle_run failure forget sweep (sweep l t) cs"

fun calls_timed :: "throttle_call list \<Rightarrow> bool" where
  "calls_timed [] = True"
| "calls_timed (Failed ip t # cs) = (0 \<le> t \<and> calls_timed cs)"
| "calls_timed (Succeeded ip # cs) = calls_timed cs"
| "calls_timed (Sweep t # cs) = (0 < t \<and> calls_timed cs)"

fun streak :: "string \<Rightarrow> nat \<Rightarrow> throttle_call list \<Rightarrow> nat" where
  "streak ip n [] = n"
| "streak ip n (Failed jp t # cs) = streak ip (if jp = ip then Suc n else n) cs"
| "streak ip n (Succeeded jp # cs) = streak ip (if jp = ip then 0 else n) cs"
| "streak ip n (Sweep t # cs) = streak ip 0 cs"

text \<open>A call that is not about the address: one of another address, or a clean-up not after \<open>u\<close>.\<close>

fun spares :: "string \<Rightarrow> time \<Rightarrow> throttle_call \<Rightarrow> bool" where
  "spares ip u (Failed jp t) = (jp \<noteq> ip)"
| "spares ip u (Succeeded jp) = (jp \<noteq> ip)"
| "spares ip u (Sweep t) = (t \<le> u)"

lemma calls_timed_append [simp]: "calls_timed (cs @ ds) \<longleftrightarrow> calls_timed cs \<and> calls_timed ds"
  by (induction cs rule: calls_timed.induct) auto

context login_throttle
begin

abbreviation run :: "'l \<Rightarrow> throttle_call list \<Rightarrow> 'l" where
  "run \<equiv> throttle_run failure forget sweep"

lemma run_append: "run l (cs @ ds) = run (run l cs) ds"
proof (induction cs arbitrary: l)
  case (Cons c cs)
  then show ?case by (cases c) auto
qed simp

lemma run_ok: "ok l \<Longrightarrow> calls_timed cs \<Longrightarrow> ok (run l cs)"
proof (induction cs arbitrary: l)
  case (Cons c cs)
  then show ?case by (cases c) (auto intro: ok_failure ok_forget ok_sweep)
qed simp

lemma run_spared: "\<forall>c \<in> set cs. spares ip u c \<Longrightarrow> blocked (run l cs) ip u = blocked l ip u"
proof (induction cs arbitrary: l)
  case (Cons c cs)
  then show ?case by (cases c) (auto simp: blocked_failure_other blocked_forget_other blocked_sweep)
qed simp

text \<open>Below the threshold the tally is the streak.\<close>

lemma step_tally:
  assumes "ok l" "calls_timed [c]" "tally l ip = int n" "int n < threshold"
  shows "tally (run l [c]) ip = int (streak ip n [c])"
  using assms tally_failure [of l ip] tally_sweep [of l _ ip]
  by (cases c) (auto simp: tally_failure_other tally_forget_other tally_forget)

lemma run_tally:
  "ok l \<Longrightarrow> calls_timed cs \<Longrightarrow> tally l ip = int n \<Longrightarrow>
   \<forall>k \<le> length cs. int (streak ip n (take k cs)) < threshold \<Longrightarrow> tally (run l cs) ip = int (streak ip n cs)"
proof (induction cs arbitrary: l n)
  case (Cons c cs)
  have one: "streak ip n (c # ds) = streak ip (streak ip n [c]) ds" for ds by (cases c) auto
  have low: "\<forall>k \<le> length cs. int (streak ip (streak ip n [c]) (take k cs)) < threshold"
  proof (intro allI impI)
    fix k assume "k \<le> length cs"
    then show "int (streak ip (streak ip n [c]) (take k cs)) < threshold"
      using Cons.prems(4)[rule_format, of "Suc k"] one [of "take k cs"] by simp
  qed
  have c: "calls_timed [c]" "calls_timed cs" using Cons.prems(2) by (cases c; simp)+
  have "int n < threshold" using Cons.prems(4)[rule_format, of 0] by simp
  then have "tally (run l [c]) ip = int (streak ip n [c])" by (rule step_tally [OF Cons.prems(1) c(1) Cons.prems(3)])
  then have "tally (run (run l [c]) cs) ip = int (streak ip (streak ip n [c]) cs)"
    by (rule Cons.IH [OF run_ok [OF Cons.prems(1) c(1)] c(2) _ low])
  then show ?case using one [of cs] run_append [of l "[c]" cs] by simp
qed simp

lemma run_blocks:
  assumes "ok l" "tally l ip = 0" "calls_timed (cs @ Failed ip t # ds)"
    and "\<forall>k \<le> length cs. int (streak ip 0 (take k cs)) < threshold"
    and "\<forall>c \<in> set ds. spares ip u c" "0 \<le> u"
  shows "blocked (run l (cs @ Failed ip t # ds)) ip u \<longleftrightarrow>
    int (streak ip 0 cs) + 1 = threshold \<and> u < t + lock"
proof -
  let ?l = "run l cs"
  have timed: "calls_timed cs" "0 \<le> t" using assms(3) by auto
  have tally: "tally ?l ip = int (streak ip 0 cs)" and ok: "ok ?l"
    using assms(1,2) timed run_tally [of l cs ip 0] assms(4) by (auto intro: run_ok)
  have low: "int (streak ip 0 cs) < threshold" using assms(4)[rule_format, of "length cs"] by simp
  have "blocked (failure ?l ip t) ip u \<longleftrightarrow> int (streak ip 0 cs) + 1 = threshold \<and> u < t + lock"
  proof (cases "int (streak ip 0 cs) + 1 = threshold")
    case True
    then show ?thesis using blocked_at_threshold [OF ok] tally by simp
  next
    case False
    with low have "int (streak ip 0 cs) + 1 < threshold" by simp
    moreover have "tally (failure ?l ip t) ip = int (streak ip 0 cs) + 1"
      using tally_failure [OF ok, of ip t] tally low by simp
    ultimately show ?thesis using not_blocked_below [OF ok_failure [OF ok timed(2)] assms(6)] False by simp
  qed
  then show ?thesis using run_spared [OF assms(5)] by (simp add: run_append)
qed

end

interpretation limiter: login_throttle
  limiter_ok "\<lambda>l ip t. fst (IsBlocked l ip t t)" "\<lambda>l ip t. RecordFailure l ip t t" Reset cleanup_tick Attempts
  MaxAttemptsShort LockoutDurationShort
proof unfold_locales
  show "0 \<le> t \<Longrightarrow> limiter_ok (RecordFailure l ip t t)" if "limiter_ok l" for l ip t
    using that by (rule limiter_ok_RecordFailure)
  show "limiter_ok (Reset l ip)" if "limiter_ok l" for l ip
    using that by (rule limiter_ok_Reset)
  show "limiter_ok (cleanup_tick l t)" if "limiter_ok l" for l t
    using that by (rule limiter_ok_cleanup)
  show "fst (IsBlocked (cleanup_tick l s) ip u u) = fst (IsBlocked l ip u u)" if "s \<le> u" for s u l ip
    using cleanup_keeps_block [OF that] by simp
  show "Attempts (cleanup_tick l s) ip = 0" if "limiter_ok l" "0 < s" "Attempts l ip < MaxAttemptsShort" for l s ip
    using that limiter_okD [OF that(1), of ip]
    by (auto simp: Attempts_def cleanup_tick_def entry_ok_def zero_time_def split: option.splits)
  show "\<not> fst (IsBlocked l ip u u)" if "limiter_ok l" "0 \<le> u" "Attempts l ip < MaxAttemptsShort" for l u ip
    using that limiter_okD [OF that(1), of ip]
    by (auto simp: Attempts_def IsBlocked_def entry_ok_def zero_time_def split: option.splits)
next
  fix l :: limiter and ip t u
  assume ok: "limiter_ok l"
  then have e: "entry_ok (case l ip of None \<Rightarrow> \<lparr>attempts = 0, lockedUntil = zero_time\<rparr> | Some e \<Rightarrow> e)"
    (is "entry_ok ?e") by (auto split: option.splits dest: limiter_okD)
  have a: "Attempts l ip = attempts ?e" by (simp add: Attempts_def split: option.splits)
  have r: "RecordFailure l ip t t ip = Some (count_failure ?e t t)" by (simp add: RecordFailure_def)
  show "Attempts l ip < MaxAttemptsShort \<Longrightarrow> Attempts (RecordFailure l ip t t) ip = Attempts l ip + 1"
    using count_failure_below [OF e] unfolding a by (simp add: Attempts_def r)
  show "Attempts l ip + 1 = MaxAttemptsShort \<Longrightarrow>
      fst (IsBlocked (RecordFailure l ip t t) ip u u) = (u < t + LockoutDurationShort)"
    using count_failure_below [OF e] unfolding a by (simp add: IsBlocked_def r)
qed (auto simp: Attempts_def Reset_def RecordFailure_def IsBlocked_def Let_def)

section \<open>Logins one after the other\<close>

text \<open>
  The limiter as the login service drives it, one request at a time: a failure is recorded only
  after the address was found not blocked, and some time passes in between (a password hash is
  computed there).
\<close>

inductive login_reach :: "limiter \<Rightarrow> time \<Rightarrow> bool" where
  start: "0 < now \<Longrightarrow> login_reach limiter_New now"
| wait: "login_reach l now \<Longrightarrow> now \<le> now' \<Longrightarrow> login_reach l now'"
| failed: "login_reach l now \<Longrightarrow> \<not> fst (IsBlocked l ip now now) \<Longrightarrow> now < t \<Longrightarrow>
    login_reach (RecordFailure l ip t t) t"
| success: "login_reach l now \<Longrightarrow> \<not> fst (IsBlocked l ip now now) \<Longrightarrow> login_reach (Reset l ip) now"
| sweep: "login_reach l now \<Longrightarrow> login_reach (cleanup_tick l now) now"

definition short_locks :: "limiter \<Rightarrow> time \<Rightarrow> bool" where
  "short_locks l now = (\<forall>ip e. l ip = Some e \<longrightarrow>
     attempts e \<le> MaxAttemptsShort \<and> lockedUntil e \<le> now + LockoutDurationShort)"

lemma login_reach_invariant: "login_reach l now \<Longrightarrow> 0 < now \<and> limiter_ok l \<and> short_locks l now"
proof (induction rule: login_reach.induct)
  case (wait l now now')
  then show ?case by (fastforce simp: short_locks_def)
next
  case (failed l now ip t)
  have "limiter_ok (RecordFailure l ip t t)" using failed by (intro limiter_ok_RecordFailure) auto
  moreover have "attempts e \<le> MaxAttemptsShort \<and> lockedUntil e \<le> t + LockoutDurationShort"
    if "RecordFailure l ip t t jp = Some e" for jp e
  proof (cases "jp = ip")
    case False
    then show ?thesis using that failed by (fastforce simp: RecordFailure_other short_locks_def)
  next
    case True
    have "attempts e0 \<le> MaxAttemptsShort \<and> lockedUntil e0 \<le> now \<and> entry_ok e0" if "l ip = Some e0" for e0
      using failed that limiter_okD [of l ip e0] by (auto simp: short_locks_def IsBlocked_def split: if_splits)
    then show ?thesis
      using True that failed.hyps failed.IH
      by (auto simp: RecordFailure_def count_failure_def Let_def limit_consts entry_ok_def zero_time_def
          split: option.splits if_splits)
  qed
  ultimately show ?case using failed by (simp add: short_locks_def)
next
  case (success l now ip)
  then show ?case by (auto simp: limiter_ok_Reset) (auto simp: short_locks_def Reset_def split: if_splits)
next
  case (sweep l now)
  then show ?case
    by (auto intro: limiter_ok_cleanup) (auto simp: short_locks_def cleanup_tick_def split: option.splits if_splits)
qed (auto simp: short_locks_def limiter_ok_New, simp_all add: limiter_New_def)

section \<open>Properties\<close>



text \<open>Logins one after the other never reach the second threshold: an entry counts at most three
  failures and is locked for at most five minutes, so the lock of one hour after ten failures
  does not occur.\<close>

theorem long_lock_unreachable:
  assumes "login_reach l now" "l ip = Some e"
  shows "attempts e < MaxAttemptsLong \<and> attempts e \<le> MaxAttemptsShort \<and> lockedUntil e \<le> now + LockoutDurationShort"
  using login_reach_invariant [OF assms(1)] assms(2) by (fastforce simp: short_locks_def limit_consts)

theorem long_lock_unreachable_witness:
  "\<exists>e. RecordFailure limiter_New ''a'' 5 5 ''a'' = Some e \<and> attempts e < MaxAttemptsLong"
proof -
  have "login_reach (RecordFailure limiter_New ''a'' 5 5) 5"
    by (rule login_reach.failed [OF login_reach.start [of 1]]) (simp_all add: IsBlocked_def limiter_New_def)
  moreover obtain e where "RecordFailure limiter_New ''a'' 5 5 ''a'' = Some e" by (simp add: RecordFailure_def)
  ultimately show ?thesis using long_lock_unreachable by blast
qed

text \<open>The periodic clean-up never lifts a lock: from its instant on, every address is blocked
  exactly as it would have been without it, and a cleaned-up entry had no failures that count.\<close>

theorem cleanup_keeps_locks:
  assumes "now \<le> t"
  shows "IsBlocked (cleanup_tick l now) ip t t' = IsBlocked l ip t t'"
  using assms by (rule cleanup_keeps_block)

theorem cleanup_keeps_locks_witness:
  "IsBlocked (cleanup_tick [''a'' \<mapsto> \<lparr>attempts = 3, lockedUntil = 9\<rparr>] 5) ''a'' 7 7 =
   IsBlocked [''a'' \<mapsto> \<lparr>attempts = 3, lockedUntil = 9\<rparr>] ''a'' 7 7"
  by (rule cleanup_keeps_locks) simp

end
