(* ===== verification/World.thy ===== *)
theory World
  imports Integrity RateLimit "HOL-Library.State_Monad"
begin

text \<open>
  The state a request runs on, the code outside the repository, and the actions the services are
  written in.

  A \<open>world\<close> holds the database, the login limiter, the clock, counters that number the calls
  for fresh identifiers and random bytes, and the faults still to come: each call of the
  database takes one entry of \<open>faults\<close>, \<open>True\<close> meaning that the driver fails the call
  and nothing happens. A request runs at one instant of the clock. \<open>issued\<close> records what the program
  asked of the machine: the commands it ran, reading ones too, and the processes it signalled.

  Third-party code is the record \<open>ext\<close>, an argument of every definition that reaches it; what
  the code relies on is stated where it is used.
\<close>

section \<open>Code outside the repository\<close>

text \<open>\<open>auth.Claims\<close> (\<open>internal/auth/token.go\<close>) with the registered claims it sets.\<close>

record claims =
  UserID :: string
  Email :: string
  Role :: string
  SessionID :: string
  IssuedAt :: time
  ExpiresAt :: time
  Issuer :: string
  Subject :: string

datatype jwt_error = JwtExpired | JwtOther

text \<open>
  \<open>uuid n\<close> is the n-th identifier, \<open>rand_bytes n k\<close> the n-th read of k random bytes (\<open>None\<close> on
  an error), \<open>argon2_key\<close> is \<open>argon2.IDKey\<close> (password, salt, time, memory, threads, key length).
  \<open>jwt_sign\<close> is \<open>SignedString\<close> under HS256; \<open>jwt_parse\<close> is \<open>ParseWithClaims\<close> with the options
  \<open>WithIssuer\<close> and \<open>WithExpirationRequired\<close>: its second argument is the key function, asked with
  whether the token's method is HMAC; it returns the claims and \<open>token.Valid\<close>.
  \<open>numeric_date\<close> is the rounding of \<open>jwt.NewNumericDate\<close>. \<open>totp_generate\<close> returns the secret and
  the QR code's PNG, \<open>totp_validate\<close> is \<open>ValidateCustom\<close> with the options of the code.
  \<open>datetime_text\<close> is how the SQLite driver renders the text of a \<open>DATETIME\<close> column that a
  \<open>SELECT\<close> returns into a Go string, and \<open>returning_text\<close> how it renders one of a \<open>RETURNING\<close> clause.
\<close>

record ext =
  uuid :: "nat \<Rightarrow> string"
  rand_bytes :: "nat \<Rightarrow> nat \<Rightarrow> string option"
  argon2_key :: "string \<Rightarrow> string \<Rightarrow> nat \<Rightarrow> nat \<Rightarrow> nat \<Rightarrow> nat \<Rightarrow> string"
  jwt_sign :: "claims \<Rightarrow> string \<Rightarrow> string option"
  jwt_parse :: "string \<Rightarrow> (bool \<Rightarrow> string option) \<Rightarrow> string \<Rightarrow> time \<Rightarrow> jwt_error + (claims \<times> bool)"
  numeric_date :: "time \<Rightarrow> time"
  totp_generate :: "nat \<Rightarrow> string \<Rightarrow> (string \<times> string) option"
  totp_validate :: "string \<Rightarrow> string \<Rightarrow> time \<Rightarrow> bool option"
  datetime_text :: "string \<Rightarrow> string"
  returning_text :: "string \<Rightarrow> string"

section \<open>The world and its actions\<close>

datatype os_action = Command "string list" | Sigterm int

record world =
  db :: database
  limiter :: limiter
  clock :: time
  uuid_ctr :: nat
  rand_ctr :: nat
  faults :: "bool list"
  issued :: "os_action list"

type_synonym 'a action = "(world, 'a) state"

abbreviation ret :: "'a \<Rightarrow> 'a action" where "ret \<equiv> State_Monad.return"

definition reads :: "(world \<Rightarrow> 'a) \<Rightarrow> 'a action" where
  "reads f = State (\<lambda>w. (f w, w))"

definition modifies :: "(world \<Rightarrow> world) \<Rightarrow> unit action" where
  "modifies f = State (\<lambda>w. ((), f w))"

definition next_fault :: "world \<Rightarrow> bool \<times> world" where
  "next_fault w = (case faults w of [] \<Rightarrow> (False, w) | f # fs \<Rightarrow> (f, w\<lparr>faults := fs\<rparr>))"

definition db_read :: "'a query \<Rightarrow> (sql_error + 'a) action" where
  "db_read q = State (\<lambda>w. case next_fault w of (f, w1) \<Rightarrow>
     (if f then Inl DriverFault else q (db w1), w1))"

text \<open>A query that names \<open>CURRENT_TIMESTAMP\<close>.\<close>

definition db_read_now :: "(string \<Rightarrow> 'a query) \<Rightarrow> (sql_error + 'a) action" where
  "db_read_now q = State (\<lambda>w. case next_fault w of (f, w1) \<Rightarrow>
     (if f then Inl DriverFault else q (current_timestamp (clock w1)) (db w1), w1))"

definition db_write :: "'a update \<Rightarrow> (sql_error + 'a) action" where
  "db_write u = State (\<lambda>w. case next_fault w of (f, w1) \<Rightarrow>
     (if f then (Inl DriverFault, w1)
      else (case u (current_timestamp (clock w1)) (db w1) of
              Inl e \<Rightarrow> (Inl e, w1)
            | Inr (a, d') \<Rightarrow> (Inr a, w1\<lparr>db := d'\<rparr>))))"

definition new_uuid :: "ext \<Rightarrow> string action" where
  "new_uuid E = State (\<lambda>w. (uuid E (uuid_ctr w), w\<lparr>uuid_ctr := uuid_ctr w + 1\<rparr>))"

definition rand_read :: "ext \<Rightarrow> nat \<Rightarrow> string option action" where
  "rand_read E k = State (\<lambda>w. (rand_bytes E (rand_ctr w) k, w\<lparr>rand_ctr := rand_ctr w + 1\<rparr>))"

definition issue :: "os_action \<Rightarrow> unit action" where
  "issue a = modifies (\<lambda>w. w\<lparr>issued := issued w @ [a]\<rparr>)"

text \<open>\<open>exec.CommandContext\<close> and its run: the command line is recorded; what comes back, the output and the text
  of the error if there is one, is a function of it.\<close>

definition os_exec :: "(string list \<Rightarrow> string \<times> string option) \<Rightarrow> string list \<Rightarrow> (string \<times> string option) action" where
  "os_exec X cmd = do { issue (Command cmd); ret (X cmd) }"

lemma run_issue [simp]: "run_state (issue a) w = ((), w\<lparr>issued := issued w @ [a]\<rparr>)"
  by (simp add: issue_def modifies_def)

lemma run_os_exec [simp]:
  "run_state (os_exec X cmd) w = (X cmd, w\<lparr>issued := issued w @ [Command cmd]\<rparr>)"
  by (simp add: os_exec_def)

lemma run_reads [simp]: "run_state (reads f) w = (f w, w)"
  by (simp add: reads_def)

lemma run_modifies [simp]: "run_state (modifies f) w = ((), f w)"
  by (simp add: modifies_def)

lemma run_new_uuid [simp]:
  "run_state (new_uuid E) w = (uuid E (uuid_ctr w), w\<lparr>uuid_ctr := uuid_ctr w + 1\<rparr>)"
  by (simp add: new_uuid_def)

lemma run_rand_read [simp]:
  "run_state (rand_read E k) w = (rand_bytes E (rand_ctr w) k, w\<lparr>rand_ctr := rand_ctr w + 1\<rparr>)"
  by (simp add: rand_read_def)

text \<open>The \<open>k\<close>-th database call from here on meets a driver fault.\<close>

definition fault_at :: "nat \<Rightarrow> world \<Rightarrow> bool" where
  "fault_at k w = (k < length (faults w) \<and> faults w ! k)"

lemma fault_at_tl [simp]: "fault_at k (w\<lparr>faults := tl (faults w)\<rparr>) = fault_at (Suc k) w"
  by (auto simp: fault_at_def nth_tl)

lemma fault_at_cong: "faults w' = faults w \<Longrightarrow> fault_at k w' = fault_at k w"
  by (simp add: fault_at_def)

lemma fault_at_none [simp]: "faults w = [] \<Longrightarrow> \<not> fault_at k w"
  by (simp add: fault_at_def)

lemma next_fault_at: "next_fault w = (fault_at 0 w, w\<lparr>faults := tl (faults w)\<rparr>)"
  by (auto simp: next_fault_def fault_at_def split: list.splits)

lemma run_db_read_at: "run_state (db_read q) w =
    (if fault_at 0 w then Inl DriverFault else q (db w), w\<lparr>faults := tl (faults w)\<rparr>)"
  by (simp add: db_read_def next_fault_at)

lemma run_db_read_now_at: "run_state (db_read_now q) w =
    (if fault_at 0 w then Inl DriverFault else q (current_timestamp (clock w)) (db w), w\<lparr>faults := tl (faults w)\<rparr>)"
  by (simp add: db_read_now_def next_fault_at)

lemma run_db_write_at: "run_state (db_write u) w =
    (if fault_at 0 w then (Inl DriverFault, w\<lparr>faults := tl (faults w)\<rparr>)
     else (case u (current_timestamp (clock w)) (db w) of
             Inl e \<Rightarrow> (Inl e, w\<lparr>faults := tl (faults w)\<rparr>)
           | Inr (a, d') \<Rightarrow> (Inr a, w\<lparr>faults := tl (faults w), db := d'\<rparr>)))"
  by (simp add: db_write_def next_fault_at)

text \<open>Without faults ahead, a database call is its statement.\<close>

lemma run_db_read [simp]: "faults w = [] \<Longrightarrow> run_state (db_read q) w = (q (db w), w)"
  by (simp add: db_read_def next_fault_def)

lemma run_db_read_now [simp]:
  "faults w = [] \<Longrightarrow> run_state (db_read_now q) w = (q (current_timestamp (clock w)) (db w), w)"
  by (simp add: db_read_now_def next_fault_def)

lemma run_db_write [simp]: "faults w = [] \<Longrightarrow> run_state (db_write u) w =
    (case u (current_timestamp (clock w)) (db w) of
       Inl e \<Rightarrow> (Inl e, w) | Inr (a, d') \<Rightarrow> (Inr a, w\<lparr>db := d'\<rparr>))"
  by (simp add: db_write_def next_fault_def)

section \<open>What every action leaves true\<close>

text \<open>
  An action is \<open>steady\<close> when the clock stands still, nothing is done to the machine and the database
  moves by SQL statements only. It is \<open>silent\<close> when the database does not move at all. Both hold of a
  composition when they hold of its parts, which is all the services' proofs use.
\<close>

definition preserves :: "(world \<Rightarrow> world \<Rightarrow> bool) \<Rightarrow> 'a action \<Rightarrow> bool" where
  "preserves R m = (\<forall>w. R w (snd (run_state m w)))"

locale world_relation =
  fixes R :: "world \<Rightarrow> world \<Rightarrow> bool"
  assumes refl: "R w w" and trans: "R a b \<Longrightarrow> R b c \<Longrightarrow> R a c"
begin

lemma pure: "preserves R (ret a)" "preserves R (reads f)"
  by (simp_all add: preserves_def refl)

lemma bind: "preserves R m \<Longrightarrow> (\<And>a. preserves R (f a)) \<Longrightarrow> preserves R (m \<bind> f)"
  by (auto simp: preserves_def split: prod.splits) (metis trans snd_conv)

lemma cond: "preserves R a \<Longrightarrow> preserves R b \<Longrightarrow> preserves R (if c then a else b)"
  by simp

lemma case_sum:
  "(\<And>x. preserves R (f x)) \<Longrightarrow> (\<And>y. preserves R (g y)) \<Longrightarrow> preserves R (case r of Inl x \<Rightarrow> f x | Inr y \<Rightarrow> g y)"
  by (cases r) auto

lemma case_sql_error:
  "preserves R a \<Longrightarrow> preserves R b \<Longrightarrow> preserves R c \<Longrightarrow>
   preserves R (case e of NoRows \<Rightarrow> a | Constraint \<Rightarrow> b | DriverFault \<Rightarrow> c)"
  by (cases e) auto

lemma case_option:
  "preserves R a \<Longrightarrow> (\<And>y. preserves R (f y)) \<Longrightarrow> preserves R (case r of None \<Rightarrow> a | Some y \<Rightarrow> f y)"
  by (cases r) auto

lemma case_prod: "(\<And>x y. preserves R (f x y)) \<Longrightarrow> preserves R (case r of (x, y) \<Rightarrow> f x y)"
  by (cases r) auto

lemma let_in: "(\<And>x. preserves R (f x)) \<Longrightarrow> preserves R (let x = v in f x)"
  by simp

lemmas composition = pure bind cond case_sum case_sql_error case_option case_prod let_in

lemma after: "preserves R m \<Longrightarrow> run_state m w = (r, w') \<Longrightarrow> R w w'"
  unfolding preserves_def by (metis snd_conv)

end

definition advances :: "world \<Rightarrow> world \<Rightarrow> bool" where
  "advances w w' = (clock w' = clock w \<and> issued w' = issued w \<and> db_steps (current_timestamp (clock w)) (db w) (db w'))"

definition steady :: "'a action \<Rightarrow> bool" where
  "steady m = (\<forall>w. advances w (snd (run_state m w)))"

definition silent :: "'a action \<Rightarrow> bool" where
  "silent m = (\<forall>w. db (snd (run_state m w)) = db w \<and> clock (snd (run_state m w)) = clock w
     \<and> issued (snd (run_state m w)) = issued w)"

named_theorems steady_intros \<open>actions built from SQL statements\<close>
named_theorems silent_intros \<open>actions that leave the database alone\<close>

lemma advances_refl [simp]: "advances w w"
  by (simp add: advances_def)

lemma advances_trans: "advances a b \<Longrightarrow> advances b c \<Longrightarrow> advances a c"
  by (auto simp: advances_def)

interpretation advance: world_relation advances
  by unfold_locales (auto intro: advances_trans)

interpretation silence: world_relation "\<lambda>w w'. db w' = db w \<and> clock w' = clock w \<and> issued w' = issued w"
  by unfold_locales auto

lemma steady_preserves: "preserves advances m = steady m"
  by (simp add: preserves_def steady_def)

lemma silent_preserves:
  "preserves (\<lambda>w w'. db w' = db w \<and> clock w' = clock w \<and> issued w' = issued w) m = silent m"
  by (simp add: preserves_def silent_def)

lemmas silent_composition [silent_intros] = silence.composition [unfolded silent_preserves]
lemmas steady_composition [steady_intros] = advance.composition [unfolded steady_preserves]

lemma silent_steady: "silent m \<Longrightarrow> steady m"
  by (simp add: silent_def steady_def advances_def)

lemma next_fault_frame [simp]:
  "db (snd (next_fault w)) = db w" "clock (snd (next_fault w)) = clock w" "issued (snd (next_fault w)) = issued w"
  by (auto simp: next_fault_def split: list.splits)

lemma next_fault_eq: "next_fault w = (f, w1) \<Longrightarrow> db w1 = db w \<and> clock w1 = clock w \<and> issued w1 = issued w"
  by (metis next_fault_frame snd_conv)

lemma silent_basic [silent_intros]:
  "silent (db_read q)" "silent (db_read_now r)"
  "silent (new_uuid E)" "silent (rand_read E k)"
  by (simp_all add: silent_def db_read_def db_read_now_def split: prod.splits)
     (metis next_fault_frame snd_conv)+

lemma silent_limiter [silent_intros]: "silent (modifies (\<lambda>w. w\<lparr>limiter := f w\<rparr>))"
  by (simp add: silent_def)

lemmas steady_basic [steady_intros] = silent_basic [THEN silent_steady] silent_limiter [THEN silent_steady]

lemma steady_write: "(\<And>now d a d'. u now d = Inr (a, d') \<Longrightarrow> db_steps now d d') \<Longrightarrow> steady (db_write u)"
proof -
  assume u: "\<And>now d a d'. u now d = Inr (a, d') \<Longrightarrow> db_steps now d d'"
  have "advances w (snd (run_state (db_write u) w))" for w
    by (auto simp: db_write_def advances_def split: prod.splits sum.splits dest!: next_fault_eq dest: u)
  then show ?thesis by (simp add: steady_def)
qed

lemma steady_writes [steady_intros]:
  "steady (db_write (q_CreateUser i em h ro bc))" "steady (db_write (q_UpdateLastLogin i))"
  "steady (db_write (q_DeactivateUser i))" "steady (db_write (q_UpdateUserRole ro i))"
  "steady (db_write (q_SetBackupCodes c i))" "steady (db_write (q_CreateSession i u ah rh ip ag ex))"
  "steady (db_write (q_RevokeSession i))" "steady (db_write (q_RevokeAllUserSessions u))"
  "steady (db_write (q_CreateMFACredential i u ty nm da))" "steady (db_write (q_UpdateMFASignCount n i))"
  "steady (db_write (q_DeactivateMFACredential i u))"
  "steady (db_write (q_CreatePIMSession i u se re mi ex gl))" "steady (db_write (q_EndPIMSession i))"
  "steady (db_write (q_IncrementPIMActionCount i))" "steady (db_write q_ExpirePIMSessions)"
  "steady (db_write (q_CreateAuditEntry i us ses pm ac res rs ipo me sv))"
  "steady (db_write (q_SetConfig k v us))" "steady (db_write (q_CreateAlert i ty th cu sv res))"
  "steady (db_write (q_ResolveAlert i))"
  by (rule steady_write, erule step_intros)+

text \<open>
  A relation between the databases before and after, such as a part that stays the same. \<open>db_frame\<close> is proved
  of an action part by part, down to the statements it writes.
\<close>

locale db_frame =
  fixes Q :: "database \<Rightarrow> database \<Rightarrow> bool"
  assumes refl_db: "Q d d" and trans_db: "Q a b \<Longrightarrow> Q b c \<Longrightarrow> Q a c"
begin

sublocale world_relation "\<lambda>w w'. Q (db w) (db w')"
  by unfold_locales (blast intro: refl_db trans_db)+

lemma silent_in: "silent m \<Longrightarrow> preserves (\<lambda>w w'. Q (db w) (db w')) m"
  by (simp add: silent_def preserves_def refl_db)

lemma statement:
  assumes "\<And>now d a d'. u now d = Inr (a, d') \<Longrightarrow> Q d d'"
  shows "preserves (\<lambda>w w'. Q (db w) (db w')) (db_write u)"
  using assms by (auto simp: preserves_def db_write_def refl_db split: prod.splits sum.splits dest!: next_fault_eq)

lemma machine: "preserves (\<lambda>w w'. Q (db w) (db w')) (issue a)"
  by (simp add: preserves_def issue_def refl_db)

end

text \<open>What a steady action does to the world, for any relation or invariant of the database.\<close>

lemma steadyD:
  assumes "steady m" "run_state m w = (r, w')"
  shows "clock w' = clock w" "db_steps (current_timestamp (clock w)) (db w) (db w')" "issued w' = issued w"
  using assms unfolding steady_def advances_def by (metis snd_conv)+

lemma steady_appends: "steady m \<Longrightarrow> run_state m w = (r, w') \<Longrightarrow> prefix (audits (db w)) (audits (db w'))"
  by (drule (1) steadyD(2)) (auto dest: append_only.steps simp: appends_def)

lemma steady_db_ok: "steady m \<Longrightarrow> run_state m w = (r, w') \<Longrightarrow> db_ok (db w) \<Longrightarrow> db_ok (db w')"
  by (drule (1) steadyD(2)) (rule schema.steps)

text \<open>A database call leaves everything but the database and the fault list alone.\<close>

lemma db_read_frame:
  "run_state (db_read q) w = (r, w') \<Longrightarrow>
   (\<exists>fs. w' = w\<lparr>faults := fs\<rparr>) \<and> (r = Inl DriverFault \<or> r = q (db w)) \<and> (faults w = [] \<longrightarrow> w' = w \<and> r = q (db w))"
  by (auto simp: db_read_def next_fault_def split: prod.splits list.splits if_splits)
     (metis world.surjective world.update_convs(6))+

lemma db_read_now_frame:
  "run_state (db_read_now q) w = (r, w') \<Longrightarrow>
   (\<exists>fs. w' = w\<lparr>faults := fs\<rparr>) \<and> (r = Inl DriverFault \<or> r = q (current_timestamp (clock w)) (db w))
   \<and> (faults w = [] \<longrightarrow> w' = w \<and> r = q (current_timestamp (clock w)) (db w))"
  by (auto simp: db_read_now_def next_fault_def split: prod.splits list.splits if_splits)
     (metis world.surjective world.update_convs(6))+

lemma db_write_frame:
  assumes "run_state (db_write u) w = (r, w')"
  shows "\<exists>fs d'. w' = w\<lparr>faults := fs, db := d'\<rparr> \<and> (faults w = [] \<longrightarrow> fs = []) \<and>
    (case r of Inl e \<Rightarrow> d' = db w \<and> (e = DriverFault \<or> u (current_timestamp (clock w)) (db w) = Inl e)
             | Inr a \<Rightarrow> u (current_timestamp (clock w)) (db w) = Inr (a, d'))"
  using assms
  by (cases "faults w")
     (auto simp: db_write_def next_fault_def split: prod.splits sum.splits if_splits
       intro!: exI [of _ "faults w'"] exI [of _ "db w'"])

section \<open>Audit entries\<close>

text \<open>
  Every service writes its audit entries the same way: a fresh identifier, one \<open>INSERT\<close>, and an
  error that is only logged. Whatever else is in the entry, the rest of the state stays as it was.
\<close>

definition audit_only :: "world \<Rightarrow> world \<Rightarrow> bool" where
  "audit_only w w' =
     (users (db w') = users (db w) \<and> creds (db w') = creds (db w) \<and> sessions (db w') = sessions (db w)
      \<and> pims (db w') = pims (db w) \<and> configs (db w') = configs (db w) \<and> alerts (db w') = alerts (db w)
      \<and> limiter w' = limiter w \<and> clock w' = clock w \<and> issued w' = issued w \<and> rand_ctr w' = rand_ctr w
      \<and> (faults w = [] \<longrightarrow> faults w' = []))"

lemma audit_onlyD:
  assumes "audit_only w w'"
  shows "users (db w') = users (db w)" "creds (db w') = creds (db w)" "sessions (db w') = sessions (db w)"
    "pims (db w') = pims (db w)" "configs (db w') = configs (db w)" "alerts (db w') = alerts (db w)"
    "limiter w' = limiter w" "clock w' = clock w" "rand_ctr w' = rand_ctr w" "faults w = [] \<Longrightarrow> faults w' = []"
  using assms by (auto simp: audit_only_def)

lemma audit_only_refl [simp]: "audit_only w w"
  by (simp add: audit_only_def)

definition logs_audit :: "unit action \<Rightarrow> bool" where
  "logs_audit m = (steady m \<and> (\<forall>w. audit_only w (snd (run_state m w))))"

lemma CreateAuditEntry_frame:
  "q_CreateAuditEntry i u se pm ac re rs ip me sv now d = Inr (a, d') \<Longrightarrow> d' = d\<lparr>audits := audits d @ [a]\<rparr>"
  by (auto simp: q_CreateAuditEntry_def insert_row_def split: if_splits)

lemma audit_only_entry:
  "audit_only w (snd (run_state (do {
     i \<leftarrow> new_uuid E;
     _ \<leftarrow> db_write (q_CreateAuditEntry i u se pm ac re rs ip me sv);
     ret ()
   }) w))"
  by (auto simp: db_write_def next_fault_def audit_only_def dest: CreateAuditEntry_frame
      split: prod.splits sum.splits list.splits)

text \<open>An audit sink of a service: whatever it is called with, it only adds to the log.\<close>

locale audit_sink =
  fixes log :: "'p \<Rightarrow> unit action"
  assumes entry: "logs_audit (log p)"
begin

lemma log_steady: "steady (log p)"
  using entry by (simp add: logs_audit_def)

lemma log_frame: "run_state (log p) w = (u, w') \<Longrightarrow> audit_only w w'"
  using entry [of p] unfolding logs_audit_def by (metis snd_conv)

lemma log_then:
  "run_state (log p \<bind> f) w = (r, w') \<Longrightarrow> \<exists>w1. audit_only w w1 \<and> run_state (f ()) w1 = (r, w')"
  using log_frame [of p w] by (auto split: prod.splits)

lemma log_appends: "run_state (log p) w = (u, w') \<Longrightarrow> prefix (audits (db w)) (audits (db w'))"
  using log_steady by (rule steady_appends)

end

end
