(* ===== verification/Http.thy ===== *)
theory Http
  imports World
begin

text \<open>
  What the handlers see of an HTTP request, and what they answer. A request's headers, query
  parameters and route parameters are functions from names to values, the empty string for an
  absent one, as \<open>Header.Get\<close>, \<open>Query().Get\<close> and \<open>chi.URLParam\<close> return them. An answer is the status
  with the payload, or the status with the error code; the German messages and the response
  headers are left out.
\<close>

record request =
  r_method :: string
  r_path :: string
  r_header :: "string \<Rightarrow> string"
  r_remote_addr :: string
  r_query :: "string \<Rightarrow> string"
  r_param :: "string \<Rightarrow> string"
  r_body :: string

datatype 'a response = Reply nat 'a | Failure nat string

type_synonym 'a handler = "claims option \<Rightarrow> request \<Rightarrow> 'a response action"

fun status :: "'a response \<Rightarrow> nat" where
  "status (Reply n a) = n"
| "status (Failure n c) = n"

end
