(* ===== verification/Encoding.thy ===== *)
theory Encoding
  imports Clock
begin

text \<open>
  The encodings of Go's standard library that the sources use: decimal numbers as \<open>fmt\<close> and
  \<open>strconv\<close> print and read them, \<open>encoding/hex\<close>, and
  \<open>encoding/base64\<close> with and without padding. Decoding skips line breaks, refuses any other byte
  outside the alphabet, and ignores the unused bits of the last character, as Go's non-strict
  decoders do.
\<close>

section \<open>Decimal numbers\<close>

fun dec_text :: "nat \<Rightarrow> string" where
  "dec_text n = (if n < 10 then [digit n] else dec_text (n div 10) @ [digit (n mod 10)])"

declare dec_text.simps [simp del]

definition int_text :: "int \<Rightarrow> string" where
  "int_text i = (if i < 0 then CHR ''-'' # dec_text (nat (- i)) else dec_text (nat i))"

definition is_digit :: "char \<Rightarrow> bool" where
  "is_digit c = (undigit c \<noteq> None)"

definition digits_value :: "string \<Rightarrow> nat" where
  "digits_value s = foldl (\<lambda>n c. n * 10 + (case undigit c of None \<Rightarrow> 0 | Some d \<Rightarrow> d)) 0 s"

text \<open>\<open>strconv.ParseUint(s, 10, 64)\<close> and \<open>strconv.ParseInt(s, 10, 64)\<close>: \<open>None\<close> on an error.\<close>

definition parse_uint64 :: "string \<Rightarrow> nat option" where
  "parse_uint64 s =
     (if s \<noteq> [] \<and> list_all is_digit s \<and> digits_value s < 2 ^ 64 then Some (digits_value s) else None)"

definition parse_int64 :: "string \<Rightarrow> int option" where
  "parse_int64 s =
     (let neg = has_prefix s ''-''; ds = (if neg \<or> has_prefix s ''+'' then tl s else s);
          v = (if neg then - int (digits_value ds) else int (digits_value ds))
      in if ds \<noteq> [] \<and> list_all is_digit ds \<and> - (2 ^ 63) \<le> v \<and> v < 2 ^ 63 then Some v else None)"

text \<open>
  The verb \<open>%d\<close> of \<open>fmt.Sscanf\<close> into an unsigned number below \<open>bound\<close> or a signed 64-bit one:
  blanks are skipped, then the longest run of digits is read; the value and the rest.
\<close>

definition skip_blanks :: "string \<Rightarrow> string" where
  "skip_blanks s = dropWhile (\<lambda>c. is_space c \<and> of_char c \<noteq> (10::nat)) s"

definition scan_uint :: "nat \<Rightarrow> string \<Rightarrow> (nat \<times> string) option" where
  "scan_uint bound s =
     (let t = skip_blanks s; ds = takeWhile is_digit t in
      if ds = [] \<or> digits_value ds \<ge> bound then None
      else Some (digits_value ds, dropWhile is_digit t))"

definition scan_int :: "string \<Rightarrow> (int \<times> string) option" where
  "scan_int s =
     (let t = skip_blanks s; neg = has_prefix t ''-'';
          u = (if neg \<or> has_prefix t ''+'' then tl t else t); ds = takeWhile is_digit u;
          v = (if neg then - int (digits_value ds) else int (digits_value ds))
      in if ds = [] \<or> v < - (2 ^ 63) \<or> v \<ge> 2 ^ 63 then None else Some (v, dropWhile is_digit u))"

definition scan_lit :: "string \<Rightarrow> string \<Rightarrow> string option" where
  "scan_lit l s = (if has_prefix s l then Some (drop (length l) s) else None)"

lemma is_digit_digit [simp]: "n < 10 \<Longrightarrow> is_digit (digit n)"
  by (simp add: is_digit_def undigit_digit)

lemma dec_text_digits: "list_all is_digit (dec_text n)"
  by (induction n rule: dec_text.induct) (subst dec_text.simps, simp)

lemma dec_text_nonempty [simp]: "dec_text n \<noteq> []"
  by (subst dec_text.simps) simp

lemma digits_value_snoc [simp]:
  "digits_value (s @ [c]) = digits_value s * 10 + (case undigit c of None \<Rightarrow> 0 | Some d \<Rightarrow> d)"
  by (simp add: digits_value_def)

lemma digits_value_dec_text [simp]: "digits_value (dec_text n) = n"
proof (induction n rule: dec_text.induct)
  case (1 n)
  show ?case
  proof (cases "n < 10")
    case True
    then show ?thesis by (subst dec_text.simps) (simp add: digits_value_def undigit_digit)
  next
    case False
    then have "digits_value (dec_text (n div 10)) = n div 10" by (rule 1)
    with False show ?thesis by (subst dec_text.simps) (simp add: undigit_digit)
  qed
qed

lemma parse_uint64_dec_text: "n < 2 ^ 64 \<Longrightarrow> parse_uint64 (dec_text n) = Some n"
  by (simp add: parse_uint64_def dec_text_digits)

text \<open>A number is read back whatever follows it, if that is no digit.\<close>

lemma digit_prefix_scan:
  assumes "list_all is_digit ds" "s = [] \<or> \<not> is_digit (hd s)"
  shows "takeWhile is_digit (ds @ s) = ds" "dropWhile is_digit (ds @ s) = s"
  using assms by (induction ds) (cases s; simp)+

lemma digit_not_special: "is_digit c \<Longrightarrow> \<not> is_space c \<and> c \<noteq> CHR ''-'' \<and> c \<noteq> CHR ''+'' \<and> c \<noteq> CHR ''$''"
  by (auto simp: is_digit_def undigit_def is_space_def split: if_splits)

lemma skip_blanks_digits: "list_all is_digit ds \<Longrightarrow> ds \<noteq> [] \<Longrightarrow> skip_blanks (ds @ s) = ds @ s"
  by (cases ds) (auto simp: skip_blanks_def dest: digit_not_special)

lemma scan_uint_dec_text:
  assumes "n < bound" "s = [] \<or> \<not> is_digit (hd s)"
  shows "scan_uint bound (dec_text n @ s) = Some (n, s)"
  using assms digit_prefix_scan [OF dec_text_digits assms(2)] skip_blanks_digits [OF dec_text_digits dec_text_nonempty]
  by (simp add: scan_uint_def Let_def)

section \<open>Hexadecimal\<close>

definition hex_digit :: "nat \<Rightarrow> char" where
  "hex_digit n = (if n < 10 then char_of (48 + n) else char_of (87 + n))"

definition hex_encode :: "string \<Rightarrow> string" where
  "hex_encode s = concat (map (\<lambda>c. [hex_digit (of_char c div 16), hex_digit (of_char c mod 16)]) s)"

lemma length_hex_encode [simp]: "length (hex_encode s) = 2 * length s"
  by (induction s) (simp_all add: hex_encode_def)

section \<open>Base64\<close>

definition b64_char :: "nat \<Rightarrow> char" where
  "b64_char n =
     (if n < 26 then char_of (65 + n) else if n < 52 then char_of (71 + n)
      else if n < 62 then char_of (n - 4) else if n = 62 then CHR ''+'' else CHR ''/'')"

definition b64_value :: "char \<Rightarrow> nat option" where
  "b64_value c =
     (let n = of_char c in
      if 65 \<le> n \<and> n \<le> 90 then Some (n - 65) else if 97 \<le> n \<and> n \<le> 122 then Some (n - 71)
      else if 48 \<le> n \<and> n \<le> 57 then Some (n + 4)
      else if c = CHR ''+'' then Some 62 else if c = CHR ''/'' then Some 63 else None)"

text \<open>\<open>fill\<close> is the padding of one missing byte: empty for \<open>RawStdEncoding\<close>, \<open>=\<close> for \<open>StdEncoding\<close>.\<close>

fun b64_encode_bytes :: "string \<Rightarrow> nat list \<Rightarrow> string" where
  "b64_encode_bytes fill [] = []"
| "b64_encode_bytes fill [a] = [b64_char (a div 4), b64_char (a mod 4 * 16)] @ fill @ fill"
| "b64_encode_bytes fill [a, b] =
     [b64_char (a div 4), b64_char (a mod 4 * 16 + b div 16), b64_char (b mod 16 * 4)] @ fill"
| "b64_encode_bytes fill (a # b # c # xs) =
     [b64_char (a div 4), b64_char (a mod 4 * 16 + b div 16), b64_char (b mod 16 * 4 + c div 64),
      b64_char (c mod 64)] @ b64_encode_bytes fill xs"

definition b64_raw_encode :: "string \<Rightarrow> string" where
  "b64_raw_encode s = b64_encode_bytes [] (map of_char s)"

definition b64_std_encode :: "string \<Rightarrow> string" where
  "b64_std_encode s = b64_encode_bytes ''='' (map of_char s)"

text \<open>The bytes of two, three or four characters of one quantum.\<close>

definition b64_join2 :: "char \<Rightarrow> char \<Rightarrow> nat list option" where
  "b64_join2 c d = (case (b64_value c, b64_value d) of
     (Some x, Some y) \<Rightarrow> Some [x * 4 + y div 16] | _ \<Rightarrow> None)"

definition b64_join3 :: "char \<Rightarrow> char \<Rightarrow> char \<Rightarrow> nat list option" where
  "b64_join3 c d e = (case (b64_value c, b64_value d, b64_value e) of
     (Some x, Some y, Some z) \<Rightarrow> Some [x * 4 + y div 16, y mod 16 * 16 + z div 4] | _ \<Rightarrow> None)"

definition b64_join4 :: "char \<Rightarrow> char \<Rightarrow> char \<Rightarrow> char \<Rightarrow> nat list option" where
  "b64_join4 c d e f = (case (b64_value c, b64_value d, b64_value e, b64_value f) of
     (Some x, Some y, Some z, Some u) \<Rightarrow>
       Some [x * 4 + y div 16, y mod 16 * 16 + z div 4, z mod 4 * 64 + u] | _ \<Rightarrow> None)"

definition b64_cons :: "nat list option \<Rightarrow> nat list option \<Rightarrow> nat list option" where
  "b64_cons q r = (case q of None \<Rightarrow> None | Some xs \<Rightarrow> map_option ((@) xs) r)"

fun b64_raw_quanta :: "string \<Rightarrow> nat list option" where
  "b64_raw_quanta [] = Some []"
| "b64_raw_quanta [c] = None"
| "b64_raw_quanta [c, d] = b64_join2 c d"
| "b64_raw_quanta [c, d, e] = b64_join3 c d e"
| "b64_raw_quanta (c # d # e # f # s) = b64_cons (b64_join4 c d e f) (b64_raw_quanta s)"

fun b64_std_quanta :: "string \<Rightarrow> nat list option" where
  "b64_std_quanta [] = Some []"
| "b64_std_quanta (c # d # e # f # s) =
     (if e = CHR ''='' then (if f = CHR ''='' \<and> s = [] then b64_join2 c d else None)
      else if f = CHR ''='' then (if s = [] then b64_join3 c d e else None)
      else b64_cons (b64_join4 c d e f) (b64_std_quanta s))"
| "b64_std_quanta _ = None"

definition skip_newlines :: "string \<Rightarrow> string" where
  "skip_newlines s = filter (\<lambda>c. of_char c \<notin> {10::nat, 13}) s"

definition b64_raw_decode :: "string \<Rightarrow> string option" where
  "b64_raw_decode s = map_option (map char_of) (b64_raw_quanta (skip_newlines s))"

definition b64_std_decode :: "string \<Rightarrow> string option" where
  "b64_std_decode s = map_option (map char_of) (b64_std_quanta (skip_newlines s))"

section \<open>Decoding what was encoded\<close>

lemma b64_char_code:
  "n < 64 \<Longrightarrow> (of_char (b64_char n) :: nat) =
     (if n < 26 then 65 + n else if n < 52 then 71 + n else if n < 62 then n - 4
      else if n = 62 then 43 else 47)"
  by (simp add: b64_char_def)

lemma b64_char_facts:
  assumes "n < 64"
  shows "b64_value (b64_char n) = Some n" "b64_char n \<noteq> CHR ''=''" "b64_char n \<noteq> CHR ''$''"
    "(of_char (b64_char n) :: nat) \<notin> {10, 13}"
proof -
  note code = b64_char_code [OF assms]
  have "b64_char 62 = CHR ''+''" "b64_char 63 = CHR ''/''" by (simp_all add: b64_char_def)
  then show "b64_value (b64_char n) = Some n"
    using assms code by (cases "n = 62 \<or> n = 63") (auto simp: b64_value_def Let_def)
  have "(of_char (b64_char n) :: nat) \<noteq> of_char CHR ''=''" "(of_char (b64_char n) :: nat) \<noteq> of_char CHR ''$''"
    unfolding code using assms by (simp_all, arith+)
  then show "b64_char n \<noteq> CHR ''=''" "b64_char n \<noteq> CHR ''$''" by auto
  show "(of_char (b64_char n) :: nat) \<notin> {10, 13}" unfolding code using assms by (simp, arith?)
qed

lemma two_digits:
  fixes x y k :: nat
  shows "y < k \<Longrightarrow> (x * k + y) div k = x" "y < k \<Longrightarrow> (x * k + y) mod k = y"
  by simp_all

lemma b64_parts:
  fixes a b c :: nat
  assumes "a < 256" "b < 256" "c < 256"
  shows "a div 4 < 64" "a mod 4 * 16 < 64" "a mod 4 * 16 + b div 16 < 64" "b mod 16 * 4 < 64"
    "b mod 16 * 4 + c div 64 < 64" "c mod 64 < 64"
    "a div 4 * 4 + (a mod 4 * 16 + b div 16) div 16 = a" "a div 4 * 4 + a mod 4 * 16 div 16 = a"
    "(a mod 4 * 16 + b div 16) mod 16 * 16 + (b mod 16 * 4 + c div 64) div 4 = b"
    "(a mod 4 * 16 + b div 16) mod 16 * 16 + b mod 16 * 4 div 4 = b"
    "(b mod 16 * 4 + c div 64) mod 4 * 64 + c mod 64 = c"
proof -
  have q: "b div 16 < 16" "c div 64 < 4" using assms by auto
  show "a div 4 < 64" using assms by simp
  show "a mod 4 * 16 < 64" "b mod 16 * 4 < 64" "c mod 64 < 64" by simp_all
  have m: "a mod 4 < 4" "b mod 16 < 16" by simp_all
  show "a mod 4 * 16 + b div 16 < 64" using q m by linarith
  show "b mod 16 * 4 + c div 64 < 64" using q m by linarith
  have 1: "(a mod 4 * 16 + b div 16) div 16 = a mod 4" "(a mod 4 * 16 + b div 16) mod 16 = b div 16"
    using q(1) by (rule two_digits)+
  have 2: "(b mod 16 * 4 + c div 64) div 4 = b mod 16" "(b mod 16 * 4 + c div 64) mod 4 = c div 64"
    using q(2) by (rule two_digits)+
  have 3: "a mod 4 * 16 div 16 = a mod 4" "b mod 16 * 4 div 4 = b mod 16" by simp_all
  show "a div 4 * 4 + (a mod 4 * 16 + b div 16) div 16 = a" "a div 4 * 4 + a mod 4 * 16 div 16 = a"
    "(a mod 4 * 16 + b div 16) mod 16 * 16 + (b mod 16 * 4 + c div 64) div 4 = b"
    "(a mod 4 * 16 + b div 16) mod 16 * 16 + b mod 16 * 4 div 4 = b"
    "(b mod 16 * 4 + c div 64) mod 4 * 64 + c mod 64 = c"
    unfolding 1 2 3 by (rule div_mult_mod_eq)+
qed

lemma b64_joins:
  assumes "a < 256" "b < 256" "c < 256"
  shows "b64_join2 (b64_char (a div 4)) (b64_char (a mod 4 * 16)) = Some [a]"
    "b64_join3 (b64_char (a div 4)) (b64_char (a mod 4 * 16 + b div 16)) (b64_char (b mod 16 * 4)) = Some [a, b]"
    "b64_join4 (b64_char (a div 4)) (b64_char (a mod 4 * 16 + b div 16))
       (b64_char (b mod 16 * 4 + c div 64)) (b64_char (c mod 64)) = Some [a, b, c]"
  using b64_parts [OF assms]
  by (simp_all add: b64_join2_def b64_join3_def b64_join4_def b64_char_facts)

lemma b64_raw_quanta_encode:
  "\<forall>x \<in> set xs. x < 256 \<Longrightarrow> b64_raw_quanta (b64_encode_bytes [] xs) = Some xs"
proof (induction "[] :: string" xs rule: b64_encode_bytes.induct)
  case (3 a b)
  then have "a < 256" "b < 256" "(0::nat) < 256" by auto
  then show ?case by (simp add: b64_joins(2))
next
  case (4 a b c xs)
  then have bounds: "a < 256" "b < 256" "c < 256" by auto
  have "b64_raw_quanta (b64_encode_bytes [] xs) = Some xs" using 4 by simp
  then show ?case by (simp add: b64_joins(3) [OF bounds] b64_cons_def)
qed (simp_all add: b64_joins(1) [where b = 0 and c = 0, simplified])

lemma b64_std_quanta_encode:
  "\<forall>x \<in> set xs. x < 256 \<Longrightarrow> b64_std_quanta (b64_encode_bytes ''='' xs) = Some xs"
proof (induction "''='' :: string" xs rule: b64_encode_bytes.induct)
  case (3 a b)
  then have bounds: "a < 256" "b < 256" "(0::nat) < 256" by auto
  have "b64_char (b mod 16 * 4) \<noteq> CHR ''=''" by (rule b64_char_facts(2) [OF b64_parts(4) [OF bounds]])
  then show ?case by (simp add: b64_joins(2) [OF bounds])
next
  case (4 a b c xs)
  then have bounds: "a < 256" "b < 256" "c < 256" by auto
  note parts = b64_parts [OF bounds]
  have "b64_char (b mod 16 * 4 + c div 64) \<noteq> CHR ''=''" "b64_char (c mod 64) \<noteq> CHR ''=''"
    by (rule b64_char_facts(2) [OF parts(5)], rule b64_char_facts(2) [OF parts(6)])
  moreover have "b64_std_quanta (b64_encode_bytes ''='' xs) = Some xs" using 4 by simp
  ultimately show ?case by (simp add: b64_joins(3) [OF bounds] b64_cons_def)
qed (simp_all add: b64_joins(1) [where b = 0 and c = 0, simplified])

definition b64_alphabet :: "char \<Rightarrow> bool" where
  "b64_alphabet c = (\<exists>n<64. c = b64_char n)"

lemma b64_alphabetI: "n < 64 \<Longrightarrow> b64_alphabet (b64_char n)"
  by (auto simp: b64_alphabet_def)

lemma b64_encode_chars:
  "\<forall>x \<in> set xs. x < 256 \<Longrightarrow> c \<in> set (b64_encode_bytes fill xs) \<Longrightarrow> c \<in> set fill \<or> b64_alphabet c"
proof (induction fill xs rule: b64_encode_bytes.induct)
  case (2 fill a)
  then show ?case using b64_alphabetI [OF b64_parts(1)] b64_alphabetI [OF b64_parts(2) [of a 0 0]] by auto
next
  case (3 fill a b)
  then show ?case using b64_alphabetI [OF b64_parts(1)] b64_alphabetI [OF b64_parts(3) [of a b 0]]
      b64_alphabetI [OF b64_parts(4) [of 0 b 0]] by auto
next
  case (4 fill a b c' xs)
  then have bounds: "a < 256" "b < 256" "c' < 256" by auto
  note parts = b64_parts [OF bounds]
  have chars: "c = b64_char (a div 4) \<or> c = b64_char (a mod 4 * 16 + b div 16)
      \<or> c = b64_char (b mod 16 * 4 + c' div 64) \<or> c = b64_char (c' mod 64)
      \<or> c \<in> set (b64_encode_bytes fill xs)"
    using 4(3) unfolding b64_encode_bytes.simps list.set set_append
    by blast
  have rest: "\<forall>x \<in> set xs. x < 256"
    using 4(2) by auto
  show ?case
    using chars 4(1) [OF rest] b64_alphabetI [OF parts(1)] b64_alphabetI [OF parts(3)]
      b64_alphabetI [OF parts(5)] b64_alphabetI [OF parts(6)] by metis
qed simp

lemma bytes_of_string: "\<forall>x \<in> set (map of_char (s :: string)). (x :: nat) < 256"
  by (simp add: nat_of_char_less_256)

lemma skip_newlines_encode:
  assumes "\<forall>c \<in> set fill. of_char c \<notin> {10::nat, 13}" "\<forall>x \<in> set xs. x < 256"
  shows "skip_newlines (b64_encode_bytes fill xs) = b64_encode_bytes fill xs"
  unfolding skip_newlines_def
proof (rule filter_True, rule ballI)
  fix c assume "c \<in> set (b64_encode_bytes fill xs)"
  from b64_encode_chars [OF assms(2) this] show "of_char c \<notin> {10::nat, 13}"
    using assms(1) b64_char_facts(4) unfolding b64_alphabet_def by blast
qed

lemma b64_raw_round_trip [simp]: "b64_raw_decode (b64_raw_encode s) = Some s"
  unfolding b64_raw_decode_def b64_raw_encode_def
  by (subst skip_newlines_encode)
    (simp_all add: nat_of_char_less_256 b64_raw_quanta_encode comp_def)

lemma b64_std_round_trip [simp]: "b64_std_decode (b64_std_encode s) = Some s"
  unfolding b64_std_decode_def b64_std_encode_def
  by (subst skip_newlines_encode)
    (simp_all add: nat_of_char_less_256 b64_std_quanta_encode comp_def)

lemma b64_raw_encode_no_dollar: "CHR ''$'' \<notin> set (b64_raw_encode s)"
proof
  assume "CHR ''$'' \<in> set (b64_raw_encode s)"
  then obtain n where "n < 64" "CHR ''$'' = b64_char n"
    using b64_encode_chars [OF bytes_of_string] unfolding b64_raw_encode_def b64_alphabet_def by fastforce
  then show False using b64_char_facts(3) by metis
qed

end
