(* ===== verification/Sha256.thy ===== *)
theory Sha256
  imports Encoding "HOL-Library.Word"
begin

text \<open>
  \<open>crypto/sha256\<close> and the token hash built on it (\<open>hashToken\<close> of \<open>internal/auth/token.go\<close>):
  SHA-256 of FIPS 180-4 on bytes, over 32-bit words.
\<close>

type_synonym w32 = "32 word"

unbundle bit_operations_syntax

definition rotr :: "nat \<Rightarrow> w32 \<Rightarrow> w32" where
  "rotr n x = drop_bit n x OR push_bit (32 - n) x"

definition sha_ch :: "w32 \<Rightarrow> w32 \<Rightarrow> w32 \<Rightarrow> w32" where
  "sha_ch x y z = (x AND y) XOR (NOT x AND z)"

definition sha_maj :: "w32 \<Rightarrow> w32 \<Rightarrow> w32 \<Rightarrow> w32" where
  "sha_maj x y z = (x AND y) XOR (x AND z) XOR (y AND z)"

definition sha_Sigma0 :: "w32 \<Rightarrow> w32" where
  "sha_Sigma0 x = rotr 2 x XOR rotr 13 x XOR rotr 22 x"

definition sha_Sigma1 :: "w32 \<Rightarrow> w32" where
  "sha_Sigma1 x = rotr 6 x XOR rotr 11 x XOR rotr 25 x"

definition sha_sigma0 :: "w32 \<Rightarrow> w32" where
  "sha_sigma0 x = rotr 7 x XOR rotr 18 x XOR drop_bit 3 x"

definition sha_sigma1 :: "w32 \<Rightarrow> w32" where
  "sha_sigma1 x = rotr 17 x XOR rotr 19 x XOR drop_bit 10 x"

definition sha_K :: "w32 list" where
  "sha_K =
  [1116352408, 1899447441, 3049323471, 3921009573, 961987163, 1508970993, 2453635748, 2870763221,
   3624381080, 310598401, 607225278, 1426881987, 1925078388, 2162078206, 2614888103, 3248222580,
   3835390401, 4022224774, 264347078, 604807628, 770255983, 1249150122, 1555081692, 1996064986,
   2554220882, 2821834349, 2952996808, 3210313671, 3336571891, 3584528711, 113926993, 338241895,
   666307205, 773529912, 1294757372, 1396182291, 1695183700, 1986661051, 2177026350, 2456956037,
   2730485921, 2820302411, 3259730800, 3345764771, 3516065817, 3600352804, 4094571909, 275423344,
   430227734, 506948616, 659060556, 883997877, 958139571, 1322822218, 1537002063, 1747873779,
   1955562222, 2024104815, 2227730452, 2361852424, 2428436474, 2756734187, 3204031479, 3329325298]"

definition sha_H0 :: "w32 list" where
  "sha_H0 =
  [1779033703, 3144134277, 1013904242, 2773480762, 1359893119, 2600822924, 528734635, 1541459225]"

text \<open>The padded message: a one bit, zeros, and the length in bits as 64-bit big-endian.\<close>

definition be_bytes :: "nat \<Rightarrow> nat \<Rightarrow> nat list" where
  "be_bytes k n = map (\<lambda>i. n div 256 ^ (k - 1 - i) mod 256) [0..<k]"

definition sha_pad :: "nat list \<Rightarrow> nat list" where
  "sha_pad bs = bs @ [128] @ replicate ((119 - length bs mod 64) mod 64) 0 @ be_bytes 8 (8 * length bs)"

fun be_words :: "nat list \<Rightarrow> w32 list" where
  "be_words (a # b # c # d # bs) = word_of_nat (((a * 256 + b) * 256 + c) * 256 + d) # be_words bs"
| "be_words _ = []"

fun sha_blocks :: "nat \<Rightarrow> w32 list \<Rightarrow> w32 list list" where
  "sha_blocks 0 ws = []"
| "sha_blocks (Suc n) ws = take 16 ws # sha_blocks n (drop 16 ws)"

fun sha_extend :: "nat \<Rightarrow> w32 list \<Rightarrow> w32 list" where
  "sha_extend 0 ws = ws"
| "sha_extend (Suc n) ws =
     (let k = length ws in
      sha_extend n (ws @ [sha_sigma1 (ws ! (k - 2)) + ws ! (k - 7) + sha_sigma0 (ws ! (k - 15)) + ws ! (k - 16)]))"

fun sha_round :: "w32 list \<Rightarrow> w32 \<times> w32 \<Rightarrow> w32 list" where
  "sha_round [a, b, c, d, e, f, g, h] (k, w) =
     (let t1 = h + sha_Sigma1 e + sha_ch e f g + k + w;
          t2 = sha_Sigma0 a + sha_maj a b c
      in [t1 + t2, a, b, c, d + t1, e, f, g])"
| "sha_round hs _ = hs"

definition sha_compress :: "w32 list \<Rightarrow> w32 list \<Rightarrow> w32 list" where
  "sha_compress hs block = map2 (+) hs (foldl sha_round hs (zip sha_K (sha_extend 48 block)))"

definition sha256 :: "string \<Rightarrow> string" where
  "sha256 s =
     (let ws = be_words (sha_pad (map of_char s)) in
      concat (map (\<lambda>w. map char_of (be_bytes 4 (unat w)))
        (foldl sha_compress sha_H0 (sha_blocks (length ws div 16) ws))))"

definition hashToken :: "string \<Rightarrow> string" where
  "hashToken token = hex_encode (sha256 token)"

text \<open>The padding fills whole blocks, and a digest is 32 bytes.\<close>

lemma length_be_bytes [simp]: "length (be_bytes k n) = k"
  by (simp add: be_bytes_def)

lemma sha_pad_blocks: "64 dvd length (sha_pad bs)"
proof -
  define r where "r = length bs mod 64"
  have r: "r < 64" by (simp add: r_def)
  have "(r + 1 + (119 - r) mod 64 + 8) mod 64 = 0"
  proof (cases "r \<le> 55")
    case True
    then have "(119 - r) mod 64 = 55 - r" by (simp add: mod_if)
    then show ?thesis using True by simp
  next
    case False
    then have "(119 - r) mod 64 = 119 - r" using r by simp
    then show ?thesis using False r by simp
  qed
  then have "(r + (1 + (119 - r) mod 64 + 8)) mod 64 = 0" by (simp only: add.assoc)
  moreover have "length (sha_pad bs) = length bs + (1 + (119 - r) mod 64 + 8)"
    by (simp add: sha_pad_def r_def)
  moreover have "(length bs + k) mod 64 = (r + k) mod 64" for k
    unfolding r_def by (rule mod_add_left_eq [symmetric])
  ultimately show ?thesis unfolding dvd_eq_mod_eq_0 by metis
qed

lemma length_sha_round [simp]: "length (sha_round hs kw) = length hs"
  by (cases "(hs, kw)" rule: sha_round.cases) (simp_all add: Let_def)

lemma length_sha_rounds [simp]: "length (foldl sha_round hs kws) = length hs"
  by (induction kws arbitrary: hs) auto

lemma length_sha_chain [simp]: "length (foldl sha_compress hs bl) = length hs"
  by (induction bl arbitrary: hs) (auto simp: sha_compress_def)

lemma length_sha256 [simp]: "length (sha256 s) = 32"
  by (simp add: sha256_def Let_def length_concat comp_def sum_list_triv sha_H0_def)

lemma length_hashToken: "length (hashToken t) = 64"
  by (simp add: hashToken_def)

end
