(* ===== verification/Token.thy ===== *)
theory Token
  imports Http Sha256
begin

text \<open>
  Access and refresh tokens (\<open>internal/auth/token.go\<close>) and the authentication middleware
  (\<open>internal/middleware/auth.go\<close>). The JWT library is \<open>jwt_sign\<close>, \<open>jwt_parse\<close> and
  \<open>numeric_date\<close> of \<open>ext\<close>; \<open>jwt_lawful\<close> states what it documents.
\<close>

section \<open>Tokens\<close>

datatype token_error = ErrTokenExpired | ErrTokenInvalid | ErrTokenMissing

datatype issue_error = SigningFailed | RandomFailed

record TokenPair =
  AccessToken :: string
  RefreshToken :: string
  AccessTokenHash :: string
  RefreshTokenHash :: string
  AccessExpiresAt :: time
  RefreshExpiresAt :: time

record TokenConfig =
  Secret :: string
  AccessTTLMin :: int
  RefreshTTLDays :: int

definition IssueTokenPair ::
    "ext \<Rightarrow> TokenConfig \<Rightarrow> string \<Rightarrow> string \<Rightarrow> string \<Rightarrow> string \<Rightarrow> (issue_error + TokenPair) action" where
  "IssueTokenPair E cfg userID email role sessionID = do {
     let ttl = (if AccessTTLMin cfg = 0 then 15 else AccessTTLMin cfg);
     let days = (if RefreshTTLDays cfg = 0 then 7 else RefreshTTLDays cfg);
     now \<leftarrow> reads clock;
     let accessExp = now + sw64 (ttl * minute);
     let refreshExp = now + sw64 (sw64 (days * 24) * hour);
     let accessClaims = \<lparr>UserID = userID, Email = email, Role = role, SessionID = sessionID,
           IssuedAt = numeric_date E now, ExpiresAt = numeric_date E accessExp,
           Issuer = ''ctrld'', Subject = userID\<rparr>;
     (case jwt_sign E accessClaims (Secret cfg) of
        None \<Rightarrow> ret (Inl SigningFailed)
      | Some accessToken \<Rightarrow> do {
          bytes \<leftarrow> rand_read E 32;
          (case bytes of
             None \<Rightarrow> ret (Inl RandomFailed)
           | Some refreshBytes \<Rightarrow>
               let refreshToken = hex_encode refreshBytes in
               ret (Inr \<lparr>AccessToken = accessToken, RefreshToken = refreshToken,
                     AccessTokenHash = hashToken accessToken, RefreshTokenHash = hashToken refreshToken,
                     AccessExpiresAt = accessExp, RefreshExpiresAt = refreshExp\<rparr>))
        })
   }"

definition ValidateAccessToken :: "ext \<Rightarrow> string \<Rightarrow> string \<Rightarrow> time \<Rightarrow> token_error + claims" where
  "ValidateAccessToken E token secret now =
     (if token = '''' then Inl ErrTokenMissing
      else (case jwt_parse E token (\<lambda>hmac. if hmac then Some secret else None) ''ctrld'' now of
         Inl JwtExpired \<Rightarrow> Inl ErrTokenExpired
       | Inl JwtOther \<Rightarrow> Inl ErrTokenInvalid
       | Inr (cl, valid) \<Rightarrow> if \<not> valid then Inl ErrTokenInvalid else Inr cl))"

text \<open>
  The documented behaviour of the JWT library for tokens it signed itself: with the same HMAC key
  and the same issuer, parsing gives the claims back until they expire, and the expiry error from
  then on. A signed token is never empty, and times are rounded down to seconds.
\<close>

definition jwt_lawful :: "ext \<Rightarrow> string \<Rightarrow> bool" where
  "jwt_lawful E secret = (\<forall>cl t kf now. jwt_sign E cl secret = Some t \<longrightarrow>
     t \<noteq> '''' \<and> (kf True = Some secret \<longrightarrow>
       jwt_parse E t kf (Issuer cl) now = (if now < ExpiresAt cl then Inr (cl, True) else Inl JwtExpired)))"

lemma validate_own_token:
  assumes "jwt_lawful E secret" "jwt_sign E cl secret = Some t" "Issuer cl = ''ctrld''" "now < ExpiresAt cl"
  shows "ValidateAccessToken E t secret now = Inr cl"
proof -
  have "jwt_parse E t kf (Issuer cl) now = (if now < ExpiresAt cl then Inr (cl, True) else Inl JwtExpired)"
    if "kf True = Some secret" for kf
    using assms(1,2) that unfolding jwt_lawful_def by blast
  moreover have "t \<noteq> ''''" using assms(1,2) unfolding jwt_lawful_def by blast
  ultimately show ?thesis using assms(3,4) by (simp add: ValidateAccessToken_def)
qed

lemma IssueTokenPair_silent [silent_intros]: "silent (IssueTokenPair E cfg u em r s)"
  unfolding IssueTokenPair_def silent_def by (auto simp: Let_def split: option.split)

lemmas IssueTokenPair_steady [steady_intros] = IssueTokenPair_silent [THEN silent_steady]

lemma IssueTokenPair_frame:
  "run_state (IssueTokenPair E cfg u em r s) w = (x, w') \<Longrightarrow> \<exists>n. w' = w\<lparr>rand_ctr := n\<rparr>"
  by (auto simp: IssueTokenPair_def Let_def split: option.splits) (metis world.surjective world.update_convs(5))+

text \<open>What a token pair holds.\<close>

lemma IssueTokenPair_Inr:
  assumes "run_state (IssueTokenPair E cfg u em r s) w = (Inr p, w')"
  shows "AccessTokenHash p = hashToken (AccessToken p)" "RefreshTokenHash p = hashToken (RefreshToken p)"
    "jwt_sign E \<lparr>UserID = u, Email = em, Role = r, SessionID = s, IssuedAt = numeric_date E (clock w),
       ExpiresAt = numeric_date E (AccessExpiresAt p), Issuer = ''ctrld'', Subject = u\<rparr> (Secret cfg)
     = Some (AccessToken p)"
    "AccessExpiresAt p = clock w + sw64 ((if AccessTTLMin cfg = 0 then 15 else AccessTTLMin cfg) * minute)"
  using assms by (auto simp: IssueTokenPair_def Let_def split: option.splits)

section \<open>The middleware\<close>

definition extractBearerToken :: "request \<Rightarrow> token_error + string" where
  "extractBearerToken r =
     (let header = r_header r ''Authorization'' in
      if header = '''' then Inl ErrTokenMissing
      else (let parts = split_n2 (CHR '' '') header in
        if length parts \<noteq> 2 \<or> \<not> equal_fold (parts ! 0) ''bearer'' then Inl ErrTokenInvalid
        else (let token = trim_space (parts ! 1) in
          if token = '''' then Inl ErrTokenMissing else Inr token)))"

definition writeUnauthorized :: "'a response action" where
  "writeUnauthorized = ret (Failure 401 ''UNAUTHORIZED'')"

definition writeForbidden :: "'a response action" where
  "writeForbidden = ret (Failure 403 ''FORBIDDEN'')"

definition Require :: "ext \<Rightarrow> string \<Rightarrow> 'a handler \<Rightarrow> request \<Rightarrow> 'a response action" where
  "Require E secret next r =
     (case extractBearerToken r of
        Inl e \<Rightarrow> writeUnauthorized
      | Inr token \<Rightarrow> do {
          now \<leftarrow> reads clock;
          (case ValidateAccessToken E token secret now of
             Inl e \<Rightarrow> writeUnauthorized
           | Inr claims \<Rightarrow> next (Some claims) r)
        })"

text \<open>\<open>ClaimsFromContext\<close> is the first argument of a handler.\<close>

definition RequireAdmin :: "ext \<Rightarrow> string \<Rightarrow> 'a handler \<Rightarrow> request \<Rightarrow> 'a response action" where
  "RequireAdmin E secret next r =
     Require E secret (\<lambda>claims r.
       case claims of
         None \<Rightarrow> writeForbidden
       | Some cl \<Rightarrow> if Role cl \<noteq> ''admin'' then writeForbidden else next claims r) r"

lemma Require_steady [steady_intros]:
  "(\<And>cl r. steady (next cl r)) \<Longrightarrow> steady (Require E secret next r)"
  by (auto simp: Require_def writeUnauthorized_def intro!: steady_intros split: sum.split)

text \<open>A well-formed header is taken apart as the client put it together.\<close>

lemma bearer_header:
  assumes "equal_fold scheme ''bearer''" "CHR '' '' \<notin> set scheme"
    and "r_header r ''Authorization'' = scheme @ CHR '' '' # tok" "trim_space tok = token" "token \<noteq> ''''"
  shows "extractBearerToken r = Inr token"
  using assms by (simp add: extractBearerToken_def Let_def split_n2_app)

lemma run_Require:
  "extractBearerToken r = Inr token \<Longrightarrow> run_state (Require E secret next r) w =
     (case ValidateAccessToken E token secret (clock w) of
        Inl e \<Rightarrow> (Failure 401 ''UNAUTHORIZED'', w) | Inr cl \<Rightarrow> run_state (next (Some cl) r) w)"
  by (simp add: Require_def writeUnauthorized_def split: sum.split)

end
