(* ===== verification/Password.thy ===== *)
theory Password
  imports World Encoding
begin

text \<open>
  Password hashes (\<open>internal/auth/password.go\<close>): the encoded form of an Argon2id hash, how it is
  parsed back, and password verification. \<open>argon2.IDKey\<close> is \<open>argon2_key\<close> of \<open>ext\<close>; the constant
  \<open>argon2.Version\<close> is \<open>0x13\<close>.
\<close>

section \<open>The code\<close>

definition argonTime :: nat where "argonTime = 3"
definition argonMemory :: nat where "argonMemory = 64 * 1024"
definition argonThreads :: nat where "argonThreads = 2"
definition argonKeyLen :: nat where "argonKeyLen = 32"
definition argonSaltLen :: nat where "argonSaltLen = 16"
definition argon2_Version :: nat where "argon2_Version = 19"

lemmas argon_consts = argonTime_def argonMemory_def argonThreads_def argonKeyLen_def argonSaltLen_def
  argon2_Version_def

datatype hash_error = ErrInvalidHash | ErrIncompatibleVersion

record argon2Params =
  memory_param :: nat
  time_param :: nat
  threads_param :: nat
  keyLen_param :: nat

definition encode_hash :: "string \<Rightarrow> string \<Rightarrow> string" where
  "encode_hash salt hash =
     ''$argon2id$v='' @ dec_text argon2_Version @ ''$m='' @ dec_text argonMemory @ '',t='' @
     dec_text argonTime @ '',p='' @ dec_text argonThreads @ ''$'' @ b64_raw_encode salt @ ''$'' @
     b64_raw_encode hash"

definition HashPassword :: "ext \<Rightarrow> string \<Rightarrow> string option action" where
  "HashPassword E password = do {
     salt \<leftarrow> rand_read E argonSaltLen;
     (case salt of
        None \<Rightarrow> ret None
      | Some salt \<Rightarrow>
          ret (Some (encode_hash salt
            (argon2_key E password salt argonTime argonMemory argonThreads argonKeyLen))))
   }"

text \<open>\<open>fmt.Sscanf(parts[3], "m=%d,t=%d,p=%d", ...)\<close> into a \<open>uint32\<close>, a \<open>uint32\<close> and a \<open>uint8\<close>.\<close>

definition scan_params :: "string \<Rightarrow> (nat \<times> nat \<times> nat) option" where
  "scan_params s = do {
     s1 \<leftarrow> scan_lit ''m='' s;
     (m, s2) \<leftarrow> scan_uint (2 ^ 32) s1;
     s3 \<leftarrow> scan_lit '',t='' s2;
     (t, s4) \<leftarrow> scan_uint (2 ^ 32) s3;
     s5 \<leftarrow> scan_lit '',p='' s4;
     (p, s6) \<leftarrow> scan_uint (2 ^ 8) s5;
     Some (m, t, p)
   }"

definition decodeHash :: "string \<Rightarrow> hash_error + (argon2Params \<times> string \<times> string)" where
  "decodeHash encodedHash =
     (let parts = split_on (CHR ''$'') encodedHash in
      if length parts \<noteq> 6 then Inl ErrInvalidHash
      else if parts ! 1 \<noteq> ''argon2id'' then Inl ErrInvalidHash
      else (case Option.bind (scan_lit ''v='' (parts ! 2)) scan_int of
         None \<Rightarrow> Inl ErrInvalidHash
       | Some (version, rest) \<Rightarrow>
           if version \<noteq> int argon2_Version then Inl ErrIncompatibleVersion
           else (case scan_params (parts ! 3) of
              None \<Rightarrow> Inl ErrInvalidHash
            | Some (m, t, p) \<Rightarrow>
                (case b64_raw_decode (parts ! 4) of
                   None \<Rightarrow> Inl ErrInvalidHash
                 | Some salt \<Rightarrow>
                     (case b64_raw_decode (parts ! 5) of
                        None \<Rightarrow> Inl ErrInvalidHash
                      | Some hash \<Rightarrow>
                          Inr (\<lparr>memory_param = m, time_param = t, threads_param = p,
                                keyLen_param = length hash mod 2 ^ 32\<rparr>, salt, hash))))))"

definition VerifyPassword :: "ext \<Rightarrow> string \<Rightarrow> string \<Rightarrow> hash_error + bool" where
  "VerifyPassword E password encodedHash =
     (case decodeHash encodedHash of
        Inl e \<Rightarrow> Inl e
      | Inr (params, salt, hash) \<Rightarrow>
          Inr (hash = argon2_key E password salt (time_param params) (memory_param params)
                        (threads_param params) (keyLen_param params)))"

text \<open>The constant the login compares with when the account does not exist.\<close>

definition dummy_hash :: string where
  "dummy_hash = ''$argon2id$v=19$m=65536,t=3,p=2$dummysalt123456$dummyhash123456789012345678901234''"

section \<open>Lemmas\<close>

lemma HashPassword_silent [silent_intros]: "silent (HashPassword E pw)"
  unfolding HashPassword_def
  by (intro silent_intros)

lemmas HashPassword_steady [steady_intros] = HashPassword_silent [THEN silent_steady]

lemma run_HashPassword:
  "run_state (HashPassword E pw) w =
     (map_option (\<lambda>salt. encode_hash salt (argon2_key E pw salt argonTime argonMemory argonThreads argonKeyLen))
        (rand_bytes E (rand_ctr w) argonSaltLen), w\<lparr>rand_ctr := rand_ctr w + 1\<rparr>)"
  by (simp add: HashPassword_def split: option.split)

lemma digits_no_dollar: "CHR ''$'' \<notin> set (dec_text n)"
  using dec_text_digits [of n] digit_not_special by (auto simp: list_all_iff)

lemma split_encode_hash:
  "split_on (CHR ''$'') (encode_hash salt hash) =
     ['''', ''argon2id'', ''v='' @ dec_text argon2_Version,
      ''m='' @ dec_text argonMemory @ '',t='' @ dec_text argonTime @ '',p='' @ dec_text argonThreads,
      b64_raw_encode salt, b64_raw_encode hash]"
proof -
  have e: "encode_hash salt hash =
      [] @ CHR ''$'' # ''argon2id'' @ CHR ''$'' # (''v='' @ dec_text argon2_Version) @ CHR ''$'' #
      (''m='' @ dec_text argonMemory @ '',t='' @ dec_text argonTime @ '',p='' @ dec_text argonThreads) @
      CHR ''$'' # b64_raw_encode salt @ CHR ''$'' # b64_raw_encode hash"
    by (simp add: encode_hash_def)
  show ?thesis unfolding e
    by (subst split_on_append, simp add: digits_no_dollar)+
      (simp add: split_on_append split_on_last b64_raw_encode_no_dollar)
qed

lemma scan_params_encoded:
  "scan_params (''m='' @ dec_text argonMemory @ '',t='' @ dec_text argonTime @ '',p='' @ dec_text argonThreads) =
     Some (argonMemory, argonTime, argonThreads)"
proof -
  have nd: "\<not> is_digit (CHR '','')" by (simp add: is_digit_def undigit_def)
  have p: "scan_uint 256 (dec_text argonThreads) = Some (argonThreads, [])"
    using scan_uint_dec_text [of argonThreads 256 "[]"] by (simp add: argon_consts)
  have t: "scan_uint 4294967296 (dec_text argonTime @ CHR '','' # s) = Some (argonTime, CHR '','' # s)" for s
    by (rule scan_uint_dec_text) (simp_all add: argon_consts nd)
  have m: "scan_uint 4294967296 (dec_text argonMemory @ CHR '','' # s) = Some (argonMemory, CHR '','' # s)" for s
    by (rule scan_uint_dec_text) (simp_all add: argon_consts nd)
  show ?thesis by (simp add: scan_params_def scan_lit_def has_prefix_def m t p)
qed

lemma scan_version_encoded:
  "Option.bind (scan_lit ''v='' (''v='' @ dec_text argon2_Version)) scan_int = Some (int argon2_Version, [])"
  by code_simp

lemma decodeHash_encode_hash:
  "decodeHash (encode_hash salt hash) =
     Inr (\<lparr>memory_param = argonMemory, time_param = argonTime, threads_param = argonThreads,
           keyLen_param = length hash mod 2 ^ 32\<rparr>, salt, hash)"
  by (simp add: decodeHash_def split_encode_hash Let_def
      scan_version_encoded [unfolded append_Cons append_Nil] scan_params_encoded [unfolded append_Cons append_Nil])

lemma verify_encode_hash:
  assumes "\<forall>p s. length (argon2_key E p s argonTime argonMemory argonThreads argonKeyLen) = argonKeyLen"
  shows "VerifyPassword E pw' (encode_hash salt (argon2_key E pw salt argonTime argonMemory argonThreads argonKeyLen)) =
    Inr (argon2_key E pw salt argonTime argonMemory argonThreads argonKeyLen
         = argon2_key E pw' salt argonTime argonMemory argonThreads argonKeyLen)"
proof -
  have "argonKeyLen mod 2 ^ 32 = argonKeyLen" by (simp add: argon_consts)
  then show ?thesis using assms by (simp add: VerifyPassword_def decodeHash_encode_hash)
qed

section \<open>Properties\<close>

text \<open>C21: Hashing and verifying fit together: a hash made by \<open>HashPassword\<close> parses back, and
  \<open>VerifyPassword\<close> accepts exactly the passwords with the same Argon2id key under the stored salt
  and parameters, provided Argon2id returns keys of the length asked for.\<close>

theorem hash_verify_round_trip:
  assumes "run_state (HashPassword E pw) w = (Some h, w')"
    and "\<forall>p s. length (argon2_key E p s argonTime argonMemory argonThreads argonKeyLen) = argonKeyLen"
  shows "\<exists>salt. rand_bytes E (rand_ctr w) argonSaltLen = Some salt
    \<and> VerifyPassword E pw' h = Inr (argon2_key E pw salt argonTime argonMemory argonThreads argonKeyLen
         = argon2_key E pw' salt argonTime argonMemory argonThreads argonKeyLen)"
proof -
  from assms(1) obtain salt where salt: "rand_bytes E (rand_ctr w) argonSaltLen = Some salt"
    and h: "h = encode_hash salt (argon2_key E pw salt argonTime argonMemory argonThreads argonKeyLen)"
    by (auto simp: run_HashPassword)
  then show ?thesis using verify_encode_hash [OF assms(2)] by simp
qed

text \<open>The constant hash the login compares with for an unknown account is not a valid hash: its
  last part has one base64 character too many, so verification fails before any key is derived.\<close>

theorem dummy_hash_invalid: "VerifyPassword E pw dummy_hash = Inl ErrInvalidHash"
proof -
  have parts: "split_on (CHR ''$'') dummy_hash = ['''', ''argon2id'', ''v=19'', ''m=65536,t=3,p=2'',
      ''dummysalt123456'', ''dummyhash123456789012345678901234'']" by code_simp
  have version: "Option.bind (scan_lit ''v='' ''v=19'') scan_int = Some (19, '''')" by code_simp
  have "b64_raw_decode ''dummyhash123456789012345678901234'' = None" by code_simp
  then have "decodeHash dummy_hash = Inl ErrInvalidHash"
    by (simp add: decodeHash_def parts version argon2_Version_def Let_def split: option.split)
  then show ?thesis by (simp add: VerifyPassword_def)
qed

end
