(* ===== verification/Demo.thy ===== *)
theory Demo
  imports Token Password
begin

text \<open>
  One concrete, executable instance of the code outside the repository and of the state, on which
  the properties with hypotheses are applied. Identifiers are unary counters, random bytes are
  constant, the password hash is the password, and a JWT is an injective encoding of its claims
  and key. \<open>demo_jwt_lawful\<close> shows that the law the development assumes of the JWT library has a
  model.
\<close>

section \<open>An encoding of claims\<close>

definition enc_str :: "string \<Rightarrow> string" where
  "enc_str s = concat (map (\<lambda>c. [CHR ''1'', c]) s) @ ''0''"

fun dec_str :: "string \<Rightarrow> (string \<times> string) option" where
  "dec_str (b # c # s) =
     (if b = CHR ''0'' then Some ([], c # s)
      else (case dec_str s of None \<Rightarrow> None | Some (x, r) \<Rightarrow> Some (c # x, r)))"
| "dec_str [b] = (if b = CHR ''0'' then Some ([], []) else None)"
| "dec_str [] = None"

definition enc_int :: "int \<Rightarrow> string" where
  "enc_int i = (if i < 0 then ''-'' else ''+'') @ dec_text (nat \<bar>i\<bar>) @ '';''"

definition dec_int :: "string \<Rightarrow> (int \<times> string) option" where
  "dec_int s =
     (let n = int (digits_value (takeWhile is_digit (tl s))) in
      Some (if hd s = CHR ''-'' then - n else n, tl (dropWhile is_digit (tl s))))"

lemma dec_enc_str [simp]: "dec_str (enc_str s @ r) = Some (s, r)"
proof (induction s)
  case Nil
  then show ?case by (cases r) (simp_all add: enc_str_def)
qed (simp add: enc_str_def)

lemma dec_enc_str_last [simp]: "dec_str (enc_str s) = Some (s, [])"
  using dec_enc_str [of s "[]"] by simp

lemma dec_enc_int [simp]: "dec_int (enc_int i @ r) = Some (i, r)"
proof -
  have "\<not> is_digit (CHR '';'')" by (simp add: is_digit_def undigit_def)
  then have "takeWhile is_digit (dec_text n @ CHR '';'' # r) = dec_text n"
    "dropWhile is_digit (dec_text n @ CHR '';'' # r) = CHR '';'' # r" for n
    using digit_prefix_scan [OF dec_text_digits, of "CHR '';'' # r"] by simp_all
  then show ?thesis by (simp add: enc_int_def dec_int_def Let_def)
qed

definition demo_sign :: "claims \<Rightarrow> string \<Rightarrow> string option" where
  "demo_sign cl key = Some (enc_str key @ enc_str (UserID cl) @ enc_str (Email cl) @ enc_str (Role cl) @
     enc_str (SessionID cl) @ enc_int (IssuedAt cl) @ enc_int (ExpiresAt cl) @ enc_str (Issuer cl) @
     enc_str (Subject cl))"

definition demo_parse ::
    "string \<Rightarrow> (bool \<Rightarrow> string option) \<Rightarrow> string \<Rightarrow> time \<Rightarrow> jwt_error + (claims \<times> bool)" where
  "demo_parse t kf iss now =
     (case do { (key, t) \<leftarrow> dec_str t; (u, t) \<leftarrow> dec_str t; (e, t) \<leftarrow> dec_str t; (r, t) \<leftarrow> dec_str t;
                (sid, t) \<leftarrow> dec_str t; (ia, t) \<leftarrow> dec_int t; (ea, t) \<leftarrow> dec_int t;
                (is, t) \<leftarrow> dec_str t; (sub, t) \<leftarrow> dec_str t;
                Some (key, \<lparr>UserID = u, Email = e, Role = r, SessionID = sid, IssuedAt = ia,
                  ExpiresAt = ea, Issuer = is, Subject = sub\<rparr>) } of
        None \<Rightarrow> Inl JwtOther
      | Some (key, cl) \<Rightarrow>
          if kf True \<noteq> Some key \<or> Issuer cl \<noteq> iss then Inl JwtOther
          else if now < ExpiresAt cl then Inr (cl, True) else Inl JwtExpired)"

definition demo_ext :: ext where
  "demo_ext = \<lparr>uuid = (\<lambda>n. CHR ''#'' # replicate n (CHR ''1'')), rand_bytes = (\<lambda>n k. Some (replicate k (CHR ''r''))),
     argon2_key = (\<lambda>pw salt t m p k. pw), jwt_sign = demo_sign, jwt_parse = demo_parse,
     numeric_date = (\<lambda>t. t - t mod second), totp_generate = (\<lambda>n em. Some (''JBSWY3DP'', ''png'')),
     totp_validate = (\<lambda>code secret t. Some (code = ''123456'')), datetime_text = (\<lambda>s. s),
     returning_text = (\<lambda>s. s)\<rparr>"

lemmas demo_ext_simps [simp] =
  arg_cong [where f = uuid, OF demo_ext_def, simplified]
  arg_cong [where f = rand_bytes, OF demo_ext_def, simplified]
  arg_cong [where f = argon2_key, OF demo_ext_def, simplified]
  arg_cong [where f = jwt_sign, OF demo_ext_def, simplified]
  arg_cong [where f = jwt_parse, OF demo_ext_def, simplified]
  arg_cong [where f = numeric_date, OF demo_ext_def, simplified]
  arg_cong [where f = totp_generate, OF demo_ext_def, simplified]
  arg_cong [where f = totp_validate, OF demo_ext_def, simplified]
  arg_cong [where f = datetime_text, OF demo_ext_def, simplified]
  arg_cong [where f = returning_text, OF demo_ext_def, simplified]

lemma demo_jwt_lawful: "jwt_lawful demo_ext secret"
proof -
  have "enc_str s @ r \<noteq> []" for s r by (simp add: enc_str_def)
  then show ?thesis
    by (auto simp: jwt_lawful_def demo_sign_def demo_parse_def)
qed

section \<open>A state\<close>

definition demo_user :: user_row where
  "demo_user = \<lparr>u_id = ''u1'', u_email = ''a@b.co'', u_password_hash = encode_hash ''salt'' ''correct horse'',
     u_role = ''admin'', u_backup_codes = None, u_created_at = ''0001-01-01 00:00:00'',
     u_last_login_at = None, u_is_active = 1\<rparr>"

definition demo_session :: session_row where
  "demo_session = \<lparr>s_id = ''s1'', s_user_id = ''u1'', s_access_token_hash = hashToken ''acc'',
     s_refresh_token_hash = hashToken ''ref'', s_ip_address = ''10.0.0.1'', s_user_agent = None,
     s_created_at = ''0001-01-01 00:00:00'', s_expires_at = rfc3339 (7 * 24 * hour), s_revoked_at = None\<rparr>"

definition demo_db :: database where
  "demo_db = \<lparr>users = [demo_user], creds = [], sessions = [demo_session], pims = [], audits = [],
     configs = [], alerts = []\<rparr>"

definition demo_world :: world where
  "demo_world = \<lparr>db = demo_db, limiter = limiter_New, clock = second, uuid_ctr = 0, rand_ctr = 0, faults = [],
     issued = []\<rparr>"

lemma demo_fields [simp]:
  "u_id demo_user = ''u1''" "u_email demo_user = ''a@b.co''" "u_role demo_user = ''admin''"
  "u_is_active demo_user = 1" "u_password_hash demo_user = encode_hash ''salt'' ''correct horse''"
  "u_backup_codes demo_user = None"
  "s_id demo_session = ''s1''" "s_user_id demo_session = ''u1''" "s_revoked_at demo_session = None"
  "s_access_token_hash demo_session = hashToken ''acc''" "s_refresh_token_hash demo_session = hashToken ''ref''"
  "s_expires_at demo_session = rfc3339 (7 * 24 * hour)" "s_user_agent demo_session = None"
  "users demo_db = [demo_user]" "creds demo_db = []" "sessions demo_db = [demo_session]" "pims demo_db = []"
  "audits demo_db = []" "configs demo_db = []" "alerts demo_db = []"
  "db demo_world = demo_db" "limiter demo_world = limiter_New" "clock demo_world = second"
  "uuid_ctr demo_world = 0" "rand_ctr demo_world = 0" "faults demo_world = []"
  "issued demo_world = []"
  by (simp_all add: demo_user_def demo_session_def demo_db_def demo_world_def)

lemma demo_db_ok: "db_ok demo_db"
  by (simp add: db_ok_def users_ok_def unique_keys_def row_ok_defs user_ref_def)

lemma demo_parse_expiry [simp]: "parse_rfc3339 (rfc3339 604800000000000) = Some 604800000000000"
  by (subst parse_rfc3339_format) (simp_all add: calendar_range_def day_of_def secs_of_def)

lemma demo_verify [simp]:
  "VerifyPassword demo_ext pw (encode_hash ''salt'' ''correct horse'') = Inr (pw = ''correct horse'')"
  by (auto simp: VerifyPassword_def decodeHash_encode_hash)

theorem hash_verify_round_trip_witness:
  "\<exists>h w'. run_state (HashPassword (demo_ext\<lparr>argon2_key := \<lambda>pw s t m p k. take k (pw @ replicate k (CHR ''.''))\<rparr>)
        ''pw'') demo_world = (Some h, w')
    \<and> VerifyPassword (demo_ext\<lparr>argon2_key := \<lambda>pw s t m p k. take k (pw @ replicate k (CHR ''.''))\<rparr>) ''pw'' h = Inr True"
proof -
  let ?E = "demo_ext\<lparr>argon2_key := \<lambda>pw s t m p k. take k (pw @ replicate k (CHR ''.''))\<rparr>"
  obtain h w' where run: "run_state (HashPassword ?E ''pw'') demo_world = (Some h, w')"
    by (simp add: run_HashPassword)
  from hash_verify_round_trip [OF run, of "''pw''"] have "VerifyPassword ?E ''pw'' h = Inr True"
    by (auto simp: min_def)
  with run show ?thesis by blast
qed

end
