(* ===== verification/AuthService.thy ===== *)
theory AuthService
  imports Token Password Demo
begin

text \<open>
  The authentication service (\<open>internal/auth/service/service.go\<close>): login with the limiter and
  the second factor, sessions with refresh-token rotation, logout and revocation, and the audit
  entries each of them writes. The limiter of the world is its \<open>rateLimiter\<close>; log output is left
  out. The comparison with the constant hash for an unknown account has no effect on the state and
  appears in \<open>Password\<close> (\<open>dummy_hash\<close>).
\<close>

section \<open>The code\<close>

datatype auth_error = ErrInvalidCredentials | ErrAccountInactive | ErrSessionNotFound | ErrRateLimited
  | AuthInternal

record LoginRequest =
  lq_Email :: string
  lq_Password :: string
  lq_IPAddress :: string
  lq_UserAgent :: string

record LoginResult =
  lr_AccessToken :: string
  lr_RefreshToken :: string
  lr_AccessExpiresAt :: time
  lr_RefreshExpiresAt :: time
  lr_UserID :: string
  lr_Role :: string
  lr_MFARequired :: bool
  lr_MFASessionToken :: string

definition auth_logAudit ::
    "ext \<Rightarrow> string \<Rightarrow> string \<Rightarrow> string \<Rightarrow> string \<Rightarrow> string \<Rightarrow> string \<Rightarrow> unit action" where
  "auth_logAudit E userID ip actionType resource res severity = do {
     i \<leftarrow> new_uuid E;
     _ \<leftarrow> db_write (q_CreateAuditEntry i (nullstr userID) None None actionType (nullstr resource) res
            (nullstr ip) None severity);
     ret ()
   }"

definition createSession ::
    "ext \<Rightarrow> TokenConfig \<Rightarrow> string \<Rightarrow> string \<Rightarrow> string \<Rightarrow> string \<Rightarrow> string \<Rightarrow> (auth_error + LoginResult) action" where
  "createSession E cfg userID email role ip userAgent = do {
     sessionID \<leftarrow> new_uuid E;
     pair \<leftarrow> IssueTokenPair E cfg userID email role sessionID;
     (case pair of
        Inl _ \<Rightarrow> ret (Inl AuthInternal)
      | Inr pair \<Rightarrow> do {
          r \<leftarrow> db_write (q_CreateSession sessionID userID (AccessTokenHash pair) (RefreshTokenHash pair) ip
                 (nullstr userAgent) (rfc3339 (RefreshExpiresAt pair)));
          (case r of
             Inl _ \<Rightarrow> ret (Inl AuthInternal)
           | Inr _ \<Rightarrow> do {
               auth_logAudit E userID ip ''auth.login.success'' '''' ''success'' ''info'';
               ret (Inr \<lparr>lr_AccessToken = AccessToken pair, lr_RefreshToken = RefreshToken pair,
                     lr_AccessExpiresAt = AccessExpiresAt pair, lr_RefreshExpiresAt = RefreshExpiresAt pair,
                     lr_UserID = userID, lr_Role = role, lr_MFARequired = False, lr_MFASessionToken = ''''\<rparr>)
             })
        })
   }"

definition CreateSessionAfterMFA ::
    "ext \<Rightarrow> TokenConfig \<Rightarrow> string \<Rightarrow> string \<Rightarrow> string \<Rightarrow> string \<Rightarrow> string \<Rightarrow> (auth_error + LoginResult) action" where
  "CreateSessionAfterMFA E cfg userID email role ip userAgent = createSession E cfg userID email role ip userAgent"

definition issueMFASessionToken :: "ext \<Rightarrow> TokenConfig \<Rightarrow> string \<Rightarrow> (auth_error + string) action" where
  "issueMFASessionToken E cfg userID = do {
     pair \<leftarrow> IssueTokenPair E \<lparr>Secret = Secret cfg, AccessTTLMin = 5, RefreshTTLDays = 0\<rparr> userID ''''
               ''mfa_pending'' ''mfa'';
     (case pair of
        Inl _ \<Rightarrow> ret (Inl AuthInternal)
      | Inr pair \<Rightarrow> ret (Inr (AccessToken pair)))
   }"

definition record_failure :: "string \<Rightarrow> unit action" where
  "record_failure ip = do {
     now \<leftarrow> reads clock;
     modifies (\<lambda>w. w\<lparr>limiter := RecordFailure (limiter w) ip now now\<rparr>)
   }"

text \<open>The part of \<open>Login\<close> after the password was found right.\<close>

definition login_verified ::
    "ext \<Rightarrow> TokenConfig \<Rightarrow> LoginRequest \<Rightarrow> user_row \<Rightarrow> (auth_error + LoginResult) action" where
  "login_verified E cfg req user = do {
     modifies (\<lambda>w. w\<lparr>limiter := Reset (limiter w) (lq_IPAddress req)\<rparr>);
     _ \<leftarrow> db_write (q_UpdateLastLogin (u_id user));
     mfaCreds \<leftarrow> db_read (q_ListMFACredentialsByUserID (u_id user));
     (case mfaCreds of
        Inl _ \<Rightarrow> ret (Inl AuthInternal)
      | Inr mfaCreds \<Rightarrow>
          if length mfaCreds > 0 then do {
            mfaToken \<leftarrow> issueMFASessionToken E cfg (u_id user);
            (case mfaToken of
               Inl e \<Rightarrow> ret (Inl e)
             | Inr mfaToken \<Rightarrow> do {
                 auth_logAudit E (u_id user) (lq_IPAddress req) ''auth.login.mfa_required'' '''' ''success'' ''info'';
                 ret (Inr \<lparr>lr_AccessToken = '''', lr_RefreshToken = '''', lr_AccessExpiresAt = zero_time,
                       lr_RefreshExpiresAt = zero_time, lr_UserID = u_id user, lr_Role = u_role user,
                       lr_MFARequired = True, lr_MFASessionToken = mfaToken\<rparr>)
               })
          }
          else createSession E cfg (u_id user) (u_email user) (u_role user) (lq_IPAddress req) (lq_UserAgent req))
   }"

definition Login :: "ext \<Rightarrow> TokenConfig \<Rightarrow> LoginRequest \<Rightarrow> (auth_error + LoginResult) action" where
  "Login E cfg req = do {
     now \<leftarrow> reads clock;
     l \<leftarrow> reads limiter;
     (if fst (IsBlocked l (lq_IPAddress req) now now) then ret (Inl ErrRateLimited)
      else do {
        user \<leftarrow> db_read (q_GetUserByEmail (lq_Email req));
        (case user of
           Inl NoRows \<Rightarrow> do {
             record_failure (lq_IPAddress req);
             auth_logAudit E '''' (lq_IPAddress req) ''auth.login.failure'' (''email:'' @ lq_Email req)
               ''failure'' ''info'';
             ret (Inl ErrInvalidCredentials)
           }
         | Inl _ \<Rightarrow> ret (Inl AuthInternal)
         | Inr user \<Rightarrow>
             if u_is_active user = 0 then do {
               record_failure (lq_IPAddress req);
               ret (Inl ErrAccountInactive)
             }
             else if VerifyPassword E (lq_Password req) (u_password_hash user) \<noteq> Inr True then do {
               record_failure (lq_IPAddress req);
               auth_logAudit E (u_id user) (lq_IPAddress req) ''auth.login.failure'' '''' ''failure'' ''warning'';
               ret (Inl ErrInvalidCredentials)
             }
             else login_verified E cfg req user)
      })
   }"

text \<open>The row of a \<open>SELECT\<close>: its \<open>DATETIME\<close> columns as the driver renders them.\<close>

definition read_session :: "ext \<Rightarrow> session_row \<Rightarrow> session_row" where
  "read_session E s = s\<lparr>s_created_at := datetime_text E (s_created_at s),
     s_expires_at := datetime_text E (s_expires_at s),
     s_revoked_at := map_option (datetime_text E) (s_revoked_at s)\<rparr>"

definition Refresh :: "ext \<Rightarrow> TokenConfig \<Rightarrow> string \<Rightarrow> string \<Rightarrow> string \<Rightarrow> (auth_error + LoginResult) action" where
  "Refresh E cfg refreshToken ip userAgent = do {
     session \<leftarrow> db_read (q_GetSessionByRefreshTokenHash (hashToken refreshToken));
     (case session of
        Inl NoRows \<Rightarrow> ret (Inl ErrSessionNotFound)
      | Inl _ \<Rightarrow> ret (Inl AuthInternal)
      | Inr row \<Rightarrow> do {
          let session = read_session E row;
          now \<leftarrow> reads clock;
          (case parse_rfc3339 (s_expires_at session) of
             None \<Rightarrow> ret (Inl ErrSessionNotFound)
           | Some expiresAt \<Rightarrow>
               if expiresAt < now then ret (Inl ErrSessionNotFound)
               else do {
                 user \<leftarrow> db_read (q_GetUserByID (s_user_id session));
                 (case user of
                    Inl _ \<Rightarrow> ret (Inl AuthInternal)
                  | Inr user \<Rightarrow> do {
                      _ \<leftarrow> db_write (q_RevokeSession (s_id session));
                      let agent = (case s_user_agent session of None \<Rightarrow> userAgent | Some a \<Rightarrow> a);
                      createSession E cfg (u_id user) (u_email user) (u_role user) ip agent
                    })
               })
        })
   }"

definition Logout :: "ext \<Rightarrow> string \<Rightarrow> string \<Rightarrow> (auth_error + unit) action" where
  "Logout E accessToken ip = do {
     session \<leftarrow> db_read (q_GetSessionByAccessTokenHash (hashToken accessToken));
     (case session of
        Inl NoRows \<Rightarrow> ret (Inr ())
      | Inl _ \<Rightarrow> ret (Inl AuthInternal)
      | Inr session \<Rightarrow> do {
          r \<leftarrow> db_write (q_RevokeSession (s_id session));
          (case r of
             Inl _ \<Rightarrow> ret (Inl AuthInternal)
           | Inr _ \<Rightarrow> do {
               auth_logAudit E (s_user_id session) ip ''auth.logout'' '''' ''success'' ''info'';
               ret (Inr ())
             })
        })
   }"

definition ListSessions :: "ext \<Rightarrow> string \<Rightarrow> (sql_error + session_row list) action" where
  "ListSessions E userID = do {
     r \<leftarrow> db_read_now (\<lambda>now. q_ListActiveSessionsByUserID userID now);
     (case r of Inl e \<Rightarrow> ret (Inl e) | Inr ss \<Rightarrow> ret (Inr (map (read_session E) ss)))
   }"

definition RevokeSession :: "ext \<Rightarrow> string \<Rightarrow> string \<Rightarrow> string \<Rightarrow> (auth_error + unit) action" where
  "RevokeSession E sessionID requestingUserID ip = do {
     own \<leftarrow> db_read_now (\<lambda>now. q_ListActiveSessionsByUserID requestingUserID now);
     (case own of
        Inl _ \<Rightarrow> ret (Inl AuthInternal)
      | Inr own \<Rightarrow>
          if \<not> list_ex (\<lambda>sess. s_id sess = sessionID) own then ret (Inl ErrSessionNotFound)
          else do {
            r \<leftarrow> db_write (q_RevokeSession sessionID);
            (case r of
               Inl _ \<Rightarrow> ret (Inl AuthInternal)
             | Inr _ \<Rightarrow> do {
                 auth_logAudit E requestingUserID ip ''auth.session.revoked'' sessionID ''success'' ''info'';
                 ret (Inr ())
               })
          })
   }"

section \<open>Every operation moves the database by its statements only\<close>

lemma auth_logAudit_steady [steady_intros]: "steady (auth_logAudit E u ip ac re rs sv)"
  unfolding auth_logAudit_def by (intro steady_intros)

lemma createSession_steady [steady_intros]: "steady (createSession E cfg u em ro ip ua)"
  unfolding createSession_def by (intro steady_intros)

lemma issueMFASessionToken_silent [silent_intros]: "silent (issueMFASessionToken E cfg u)"
  unfolding issueMFASessionToken_def
  by (intro silent_intros)

lemmas issueMFASessionToken_steady [steady_intros] = issueMFASessionToken_silent [THEN silent_steady]

lemma record_failure_silent [silent_intros]: "silent (record_failure ip)"
  unfolding record_failure_def by (intro silent_intros)

lemmas record_failure_steady [steady_intros] = record_failure_silent [THEN silent_steady]

lemma login_verified_steady [steady_intros]: "steady (login_verified E cfg req user)"
  unfolding login_verified_def by (intro steady_intros)


lemma Login_steady [steady_intros]: "steady (Login E cfg req)"
  unfolding Login_def by (intro steady_intros)

lemma Refresh_steady [steady_intros]: "steady (Refresh E cfg t ip ua)"
  unfolding Refresh_def by (intro steady_intros)

lemma Logout_steady [steady_intros]: "steady (Logout E t ip)"
  unfolding Logout_def by (intro steady_intros)

lemma ListSessions_steady [steady_intros]: "steady (ListSessions E u)"
  unfolding ListSessions_def by (intro steady_intros)

lemma RevokeSession_steady [steady_intros]: "steady (RevokeSession E s u ip)"
  unfolding RevokeSession_def by (intro steady_intros)

lemma CreateSessionAfterMFA_steady [steady_intros]: "steady (CreateSessionAfterMFA E cfg u em ro ip ua)"
  unfolding CreateSessionAfterMFA_def by (intro steady_intros)

interpretation auth_audit: audit_sink "\<lambda>(u, ip, ac, re, rs, sv). auth_logAudit E u ip ac re rs sv" for E
proof unfold_locales
  fix p :: "string \<times> string \<times> string \<times> string \<times> string \<times> string"
  show "logs_audit (case p of (u, ip, ac, re, rs, sv) \<Rightarrow> auth_logAudit E u ip ac re rs sv)"
    by (cases p) (simp add: logs_audit_def auth_logAudit_steady, simp only: auth_logAudit_def audit_only_entry, simp)
qed

lemma auth_logAudit_frame: "run_state (auth_logAudit E u ip ac re rs sv) w = (x, w') \<Longrightarrow> audit_only w w'"
  using auth_audit.log_frame [of E "(u, ip, ac, re, rs, sv)"] by simp

section \<open>What the operations change\<close>

lemma createSession_effect:
  assumes "run_state (createSession E cfg u em ro ip ua) w = (x, w')"
  shows "users (db w') = users (db w)" "creds (db w') = creds (db w)" "limiter w' = limiter w" "clock w' = clock w"
    "case x of
       Inl e \<Rightarrow> e = AuthInternal \<and> sessions (db w') = sessions (db w)
     | Inr r \<Rightarrow> \<not> lr_MFARequired r \<and> lr_UserID r = u \<and> lr_Role r = ro
         \<and> (\<exists>s. sessions (db w') = sessions (db w) @ [s] \<and> s_user_id s = u \<and> s_revoked_at s = None
              \<and> s_access_token_hash s = hashToken (lr_AccessToken r)
              \<and> s_refresh_token_hash s = hashToken (lr_RefreshToken r)
              \<and> s_expires_at s = rfc3339 (lr_RefreshExpiresAt r))"
  using assms unfolding createSession_def
  by (auto split: prod.splits sum.splits if_splits dest!: auth_logAudit_frame IssueTokenPair_frame db_write_frame
      simp: q_CreateSession_def insert_row_def audit_onlyD IssueTokenPair_Inr)

lemma run_record_failure:
  "run_state (record_failure ip) w =
     ((), w\<lparr>limiter := RecordFailure (limiter w) ip (clock w) (clock w)\<rparr>)"
  by (simp add: record_failure_def)

lemma issueMFASessionToken_effect:
  assumes "run_state (issueMFASessionToken E cfg u) w = (x, w')"
  shows "\<exists>n. w' = w\<lparr>rand_ctr := n\<rparr>"
    "x = Inr t \<Longrightarrow> \<exists>cl. jwt_sign E cl (Secret cfg) = Some t \<and> UserID cl = u \<and> Role cl = ''mfa_pending''
       \<and> Issuer cl = ''ctrld'' \<and> ExpiresAt cl = numeric_date E (clock w + 5 * minute)"
proof -
  obtain p w1 where p: "run_state (IssueTokenPair E \<lparr>Secret = Secret cfg, AccessTTLMin = 5, RefreshTTLDays = 0\<rparr>
      u '''' ''mfa_pending'' ''mfa'') w = (p, w1)" by fastforce
  then show "\<exists>n. w' = w\<lparr>rand_ctr := n\<rparr>"
    using assms IssueTokenPair_frame [OF p] by (auto simp: issueMFASessionToken_def split: sum.splits)
  show "\<exists>cl. jwt_sign E cl (Secret cfg) = Some t \<and> UserID cl = u \<and> Role cl = ''mfa_pending''
       \<and> Issuer cl = ''ctrld'' \<and> ExpiresAt cl = numeric_date E (clock w + 5 * minute)" if t: "x = Inr t"
  proof (cases p)
    case (Inr pair)
    with assms p t have "t = AccessToken pair" by (simp add: issueMFASessionToken_def)
    then show ?thesis
      using IssueTokenPair_Inr(3,4) [OF p [unfolded Inr]]
      by (auto simp: sw64_id intro!: exI [of _ "\<lparr>UserID = u, Email = [], Role = ''mfa_pending'',
            SessionID = ''mfa'', IssuedAt = numeric_date E (clock w),
            ExpiresAt = numeric_date E (clock w + 300000000000), Issuer = ''ctrld'', Subject = u\<rparr>"])
  qed (use assms p t in \<open>simp add: issueMFASessionToken_def\<close>)
qed

definition active_creds :: "database \<Rightarrow> string \<Rightarrow> bool" where
  "active_creds d u = (\<exists>m \<in> set (creds d). m_user_id m = u \<and> m_is_active m = 1)"

lemma list_creds_empty:
  "q_ListMFACredentialsByUserID u d = Inr ms \<Longrightarrow> (0 < length ms) = active_creds d u"
proof -
  assume "q_ListMFACredentialsByUserID u d = Inr ms"
  then have "length ms = length (filter (\<lambda>m. m_user_id m = u \<and> m_is_active m = 1) (creds d))"
    by (auto simp: q_ListMFACredentialsByUserID_def)
  then show ?thesis by (auto simp: active_creds_def filter_empty_conv)
qed

text \<open>What is true of the state after the password was right.\<close>

lemma login_verified_effect:
  assumes "run_state (login_verified E cfg req user) w = (Inr r, w')"
  shows "limiter w' = Reset (limiter w) (lq_IPAddress req)" "lr_UserID r = u_id user"
    "lr_MFARequired r = active_creds (db w) (u_id user)"
    "lr_MFARequired r \<Longrightarrow> sessions (db w') = sessions (db w)"
    "\<not> lr_MFARequired r \<Longrightarrow> \<exists>s. sessions (db w') = sessions (db w) @ [s] \<and> s_user_id s = u_id user
        \<and> s_access_token_hash s = hashToken (lr_AccessToken r)
        \<and> s_refresh_token_hash s = hashToken (lr_RefreshToken r)"
proof -
  obtain x w1 where w1: "run_state (db_write (q_UpdateLastLogin (u_id user)))
      (w\<lparr>limiter := Reset (limiter w) (lq_IPAddress req)\<rparr>) = (x, w1)" by fastforce
  from db_write_frame [OF this] have frame1:
    "limiter w1 = Reset (limiter w) (lq_IPAddress req)" "creds (db w1) = creds (db w)"
    "sessions (db w1) = sessions (db w)" "clock w1 = clock w"
    by (cases x; auto simp: q_UpdateLastLogin_def update_rows_def)+
  obtain ms w2 where ms: "run_state (db_read (q_ListMFACredentialsByUserID (u_id user))) w1 = (ms, w2)"
    by fastforce
  from db_read_frame [OF this] have frame2: "limiter w2 = limiter w1" "db w2 = db w1" "clock w2 = clock w1"
    "ms = Inl DriverFault \<or> ms = q_ListMFACredentialsByUserID (u_id user) (db w1)" by auto
  from assms w1 ms obtain rows where rows: "ms = Inr rows"
    by (cases ms) (auto simp: login_verified_def)
  with frame1 frame2 have mfa: "(0 < length rows) = active_creds (db w) (u_id user)"
    using list_creds_empty [of "u_id user" "db w1" rows] by (auto simp: active_creds_def)
  have "limiter w' = Reset (limiter w) (lq_IPAddress req) \<and> lr_UserID r = u_id user
      \<and> lr_MFARequired r = active_creds (db w) (u_id user)
      \<and> (lr_MFARequired r \<longrightarrow> sessions (db w') = sessions (db w))
      \<and> (\<not> lr_MFARequired r \<longrightarrow> (\<exists>s. sessions (db w') = sessions (db w) @ [s] \<and> s_user_id s = u_id user
        \<and> s_access_token_hash s = hashToken (lr_AccessToken r)
        \<and> s_refresh_token_hash s = hashToken (lr_RefreshToken r)))"
  proof (cases "0 < length rows")
    case True
    with assms w1 ms rows mfa show ?thesis
      by (auto simp: login_verified_def frame1 frame2 audit_onlyD split: prod.splits sum.splits
          dest!: issueMFASessionToken_effect(1) auth_logAudit_frame)
  next
    case False
    then have "run_state (createSession E cfg (u_id user) (u_email user) (u_role user) (lq_IPAddress req)
        (lq_UserAgent req)) w2 = (Inr r, w')"
      using assms w1 ms rows by (simp add: login_verified_def)
    from createSession_effect [OF this] False mfa show ?thesis by (auto simp: frame1 frame2)
  qed
  then show "limiter w' = Reset (limiter w) (lq_IPAddress req)" "lr_UserID r = u_id user"
    "lr_MFARequired r = active_creds (db w) (u_id user)"
    "lr_MFARequired r \<Longrightarrow> sessions (db w') = sessions (db w)"
    "\<not> lr_MFARequired r \<Longrightarrow> \<exists>s. sessions (db w') = sessions (db w) @ [s] \<and> s_user_id s = u_id user
        \<and> s_access_token_hash s = hashToken (lr_AccessToken r)
        \<and> s_refresh_token_hash s = hashToken (lr_RefreshToken r)"
    by blast+
qed

lemma mfa_token_claims:
  assumes "run_state (login_verified E cfg req user) w = (Inr r, w')" "lr_MFARequired r"
  shows "\<exists>cl. jwt_sign E cl (Secret cfg) = Some (lr_MFASessionToken r) \<and> UserID cl = lr_UserID r
      \<and> Role cl = ''mfa_pending'' \<and> Issuer cl = ''ctrld'' \<and> ExpiresAt cl = numeric_date E (clock w + 5 * minute)"
proof -
  obtain x w1 where w1: "run_state (db_write (q_UpdateLastLogin (u_id user)))
      (w\<lparr>limiter := Reset (limiter w) (lq_IPAddress req)\<rparr>) = (x, w1)" by fastforce
  have c1: "clock w1 = clock w" using steadyD(1) [OF steady_writes(2) w1] by simp
  obtain ms w2 where ms: "run_state (db_read (q_ListMFACredentialsByUserID (u_id user))) w1 = (ms, w2)" by fastforce
  have c2: "clock w2 = clock w" using db_read_frame [OF ms] c1 by auto
  have "run_state (createSession E cfg u em ro ip ua) v \<noteq> (Inr r, w')" for u em ro ip ua v
    using createSession_effect(5) [of E cfg u em ro ip ua v "Inr r" w'] assms(2) by auto
  with assms w1 ms obtain t w3 where "run_state (issueMFASessionToken E cfg (u_id user)) w2 = (Inr t, w3)"
    and "lr_MFASessionToken r = t" "lr_UserID r = u_id user"
    by (auto simp: login_verified_def split: sum.splits prod.splits if_splits)
  with issueMFASessionToken_effect(2) c2 show ?thesis by metis
qed

section \<open>Properties\<close>

text \<open>A blocked address is refused before anything is read or written: the login returns the
  rate-limit error and the whole state is as before.\<close>

theorem login_blocked_no_effect:
  assumes "fst (IsBlocked (limiter w) (lq_IPAddress req) (clock w) (clock w))"
  shows "run_state (Login E cfg req) w = (Inl ErrRateLimited, w)"
  using assms by (simp add: Login_def)

definition demo_login :: LoginRequest where
  "demo_login = \<lparr>lq_Email = ''a@b.co'', lq_Password = ''correct horse'', lq_IPAddress = ''10.0.0.1'',
     lq_UserAgent = ''''\<rparr>"

definition demo_cfg :: TokenConfig where
  "demo_cfg = \<lparr>Secret = ''key'', AccessTTLMin = 0, RefreshTTLDays = 0\<rparr>"

lemma demo_login_fields [simp]:
  "lq_Email demo_login = ''a@b.co''" "lq_Password demo_login = ''correct horse''"
  "lq_IPAddress demo_login = ''10.0.0.1''" "lq_UserAgent demo_login = ''''"
  "Secret demo_cfg = ''key''" "AccessTTLMin demo_cfg = 0" "RefreshTTLDays demo_cfg = 0"
  by (simp_all add: demo_login_def demo_cfg_def)

theorem login_blocked_no_effect_witness:
  "run_state (Login demo_ext demo_cfg demo_login)
     (demo_world\<lparr>limiter := [''10.0.0.1'' \<mapsto> \<lparr>attempts = 3, lockedUntil = hour\<rparr>]\<rparr>)
   = (Inl ErrRateLimited, demo_world\<lparr>limiter := [''10.0.0.1'' \<mapsto> \<lparr>attempts = 3, lockedUntil = hour\<rparr>]\<rparr>)"
  by (rule login_blocked_no_effect) (simp add: IsBlocked_def)

lemma Login_Inr:
  assumes "run_state (Login E cfg req) w = (Inr r, w')"
  obtains user w1 where "\<not> fst (IsBlocked (limiter w) (lq_IPAddress req) (clock w) (clock w))"
    "user \<in> set (users (db w))" "u_email user = lq_Email req" "u_is_active user = 1"
    "VerifyPassword E (lq_Password req) (u_password_hash user) = Inr True"
    "db w1 = db w" "limiter w1 = limiter w" "clock w1 = clock w"
    "run_state (login_verified E cfg req user) w1 = (Inr r, w')"
proof -
  obtain u w1 where u: "run_state (db_read (q_GetUserByEmail (lq_Email req))) w = (u, w1)" by fastforce
  from db_read_frame [OF this] have f: "db w1 = db w" "limiter w1 = limiter w" "clock w1 = clock w"
    "u = Inl DriverFault \<or> u = q_GetUserByEmail (lq_Email req) (db w)" by auto
  from assms u obtain user where "u = Inr user"
    and "\<not> fst (IsBlocked (limiter w) (lq_IPAddress req) (clock w) (clock w))"
    and "VerifyPassword E (lq_Password req) (u_password_hash user) = Inr True"
    and "run_state (login_verified E cfg req user) w1 = (Inr r, w')"
    by (auto simp: Login_def run_record_failure split: if_splits sum.splits sql_error.splits prod.splits)
  moreover from this f have "user \<in> set (users (db w)) \<and> u_email user = lq_Email req \<and> u_is_active user = 1"
    by (auto simp: q_GetUserByEmail_def dest: first_row_Inr first_row_Inr [OF sym])
  ultimately show ?thesis using that f by blast
qed

text \<open>C9: A login succeeds only for an address that is not blocked and with the password of an
  active account of that e-mail address; it clears the address's failures. With an active second
  factor it returns the MFA token and creates no session; without one it adds exactly one session,
  which holds the hashes of the two tokens it returns.\<close>

theorem login_success:
  assumes "run_state (Login E cfg req) w = (Inr r, w')"
  shows "\<not> fst (IsBlocked (limiter w) (lq_IPAddress req) (clock w) (clock w))
    \<and> limiter w' = Reset (limiter w) (lq_IPAddress req)
    \<and> (\<exists>u \<in> set (users (db w)). u_email u = lq_Email req \<and> u_is_active u = 1
         \<and> VerifyPassword E (lq_Password req) (u_password_hash u) = Inr True \<and> lr_UserID r = u_id u
         \<and> lr_MFARequired r = active_creds (db w) (u_id u)
         \<and> (if active_creds (db w) (u_id u) then sessions (db w') = sessions (db w)
            else \<exists>s. sessions (db w') = sessions (db w) @ [s] \<and> s_user_id s = u_id u
              \<and> s_access_token_hash s = hashToken (lr_AccessToken r)
              \<and> s_refresh_token_hash s = hashToken (lr_RefreshToken r)))"
proof -
  from assms obtain user w1 where "\<not> fst (IsBlocked (limiter w) (lq_IPAddress req) (clock w) (clock w))"
    "user \<in> set (users (db w))" "u_email user = lq_Email req" "u_is_active user = 1"
    "VerifyPassword E (lq_Password req) (u_password_hash user) = Inr True"
    "db w1 = db w" "limiter w1 = limiter w"
    "run_state (login_verified E cfg req user) w1 = (Inr r, w')" by (rule Login_Inr)
  moreover note login_verified_effect [OF this(8)]
  ultimately show ?thesis by auto
qed

theorem login_success_witness:
  "\<exists>r w'. run_state (Login demo_ext demo_cfg demo_login) demo_world = (Inr r, w')
     \<and> limiter w' = Reset limiter_New ''10.0.0.1''"
proof -
  obtain x w' where run: "run_state (Login demo_ext demo_cfg demo_login) demo_world = (x, w')" by fastforce
  have "\<exists>r. x = Inr r"
    using run by (auto simp: Login_def IsBlocked_def limiter_New_def q_GetUserByEmail_def first_row_def
      login_verified_def q_UpdateLastLogin_def update_rows_def q_ListMFACredentialsByUserID_def
      createSession_def IssueTokenPair_def demo_sign_def q_CreateSession_def user_ref_def insert_row_def
      Let_def auth_logAudit_def split: prod.splits)
  with run login_success [of demo_ext demo_cfg demo_login demo_world _ w'] show ?thesis by fastforce
qed

text \<open>C24: A login with an unknown address and one with a wrong password cannot be told apart by
  their result: both return the same error, both count one failure of the address, and neither
  touches accounts or sessions.\<close>

theorem login_failure_uniform:
  assumes "faults w = []" "\<not> fst (IsBlocked (limiter w) (lq_IPAddress req) (clock w) (clock w))"
    and "\<forall>u \<in> set (users (db w)). u_email u = lq_Email req \<and> u_is_active u = 1 \<longrightarrow>
      VerifyPassword E (lq_Password req) (u_password_hash u) \<noteq> Inr True"
  shows "\<exists>w'. run_state (Login E cfg req) w = (Inl ErrInvalidCredentials, w')
    \<and> limiter w' = RecordFailure (limiter w) (lq_IPAddress req) (clock w) (clock w)
    \<and> users (db w') = users (db w) \<and> sessions (db w') = sessions (db w)"
proof (cases "q_GetUserByEmail (lq_Email req) (db w)")
  case (Inl e)
  then have "e = NoRows" by (simp add: q_GetUserByEmail_def first_row_Inl)
  with Inl assms(1,2) show ?thesis
    by (auto simp: Login_def run_record_failure audit_onlyD dest!: auth_logAudit_frame split: prod.splits)
next
  case (Inr u)
  then have "u \<in> set (users (db w)) \<and> u_email u = lq_Email req \<and> u_is_active u = 1"
    by (auto simp: q_GetUserByEmail_def dest: first_row_Inr)
  with Inr assms show ?thesis
    by (auto simp: Login_def run_record_failure audit_onlyD dest!: auth_logAudit_frame split: prod.splits)
qed

theorem login_failure_uniform_witness:
  "\<exists>w'. run_state (Login demo_ext demo_cfg (demo_login\<lparr>lq_Password := ''wrong''\<rparr>)) demo_world =
          (Inl ErrInvalidCredentials, w')
     \<and> limiter w' = RecordFailure limiter_New ''10.0.0.1'' second second"
  using login_failure_uniform [of demo_world "demo_login\<lparr>lq_Password := ''wrong''\<rparr>" demo_ext demo_cfg]
  by (auto simp: IsBlocked_def limiter_New_def demo_login_def)

text \<open>The state a login never reports: an inactive account is filtered out by the query, so
  the error for a deactivated account cannot occur.\<close>

theorem login_never_inactive: "fst (run_state (Login E cfg req) w) \<noteq> Inl ErrAccountInactive"
proof
  assume "fst (run_state (Login E cfg req) w) = Inl ErrAccountInactive"
  moreover obtain u w1 where u: "run_state (db_read (q_GetUserByEmail (lq_Email req))) w = (u, w1)" by fastforce
  moreover have "fst (run_state (login_verified E cfg req user) v) \<noteq> Inl ErrAccountInactive" for user v
    by (auto simp: login_verified_def issueMFASessionToken_def createSession_def split: prod.splits sum.splits)
  ultimately obtain user where "u = Inr user" "u_is_active user = 0"
    by (auto simp: Login_def split: if_splits sum.splits sql_error.splits prod.splits)
  with db_read_frame [OF u] show False
    by (auto simp: q_GetUserByEmail_def dest: first_row_Inr first_row_Inr [OF sym])
qed

section \<open>Refresh, logout, revocation\<close>

lemma q_RevokeSession_sessions:
  "q_RevokeSession i now d = Inr (x, d') \<Longrightarrow>
   sessions d' = map (\<lambda>s. if s_id s = i then s\<lparr>s_revoked_at := Some now\<rparr> else s) (sessions d)
   \<and> users d' = users d"
  by (auto simp: q_RevokeSession_def update_rows_def)

lemma Refresh_Inr:
  assumes "run_state (Refresh E cfg t ip ua) w = (Inr r, w')"
  obtains s user w1 agent where
    "q_GetSessionByRefreshTokenHash (hashToken t) (db w) = Inr s"
    "q_GetUserByID (s_user_id s) (db w) = Inr user"
    "clock w1 = clock w" "limiter w1 = limiter w"
    "sessions (db w1) = (if fault_at 2 w then sessions (db w)
       else map (\<lambda>x. if s_id x = s_id s then x\<lparr>s_revoked_at := Some (current_timestamp (clock w))\<rparr> else x)
              (sessions (db w)))"
    "run_state (createSession E cfg (u_id user) (u_email user) (u_role user) ip agent) w1 = (Inr r, w')"
    "\<exists>e. parse_rfc3339 (datetime_text E (s_expires_at s)) = Some e \<and> clock w \<le> e"
proof -
  let ?rest = "\<lambda>s user. do {
      _ \<leftarrow> db_write (q_RevokeSession (s_id s));
      createSession E cfg (u_id user) (u_email user) (u_role user) ip
        (case s_user_agent s of None \<Rightarrow> ua | Some a \<Rightarrow> a)
    }"
  let ?w2 = "w\<lparr>faults := tl (tl (faults w))\<rparr>"
  from assms obtain s user e where q: "q_GetSessionByRefreshTokenHash (hashToken t) (db w) = Inr s"
    "q_GetUserByID (s_user_id s) (db w) = Inr user"
    and e: "parse_rfc3339 (datetime_text E (s_expires_at s)) = Some e" "clock w \<le> e"
    and run: "run_state (?rest s user) ?w2 = (Inr r, w')"
    by (auto simp: Refresh_def read_session_def Let_def run_db_read_at
        split: sum.splits sql_error.splits if_splits option.splits)
  have at: "fault_at 0 ?w2 = fault_at 2 w"
    by (auto simp: fault_at_def nth_tl numeral_2_eq_2)
  obtain x w1 where x: "run_state (db_write (q_RevokeSession (s_id s))) ?w2 = (x, w1)" by fastforce
  then have "clock w1 = clock w" "limiter w1 = limiter w" "sessions (db w1) = (if fault_at 2 w then sessions (db w)
      else map (\<lambda>x. if s_id x = s_id s then x\<lparr>s_revoked_at := Some (current_timestamp (clock w))\<rparr> else x)
             (sessions (db w)))"
    by (auto simp: run_db_write_at at q_RevokeSession_def update_rows_def split: if_splits)
  moreover from run x have "run_state (createSession E cfg (u_id user) (u_email user) (u_role user) ip
      (case s_user_agent s of None \<Rightarrow> ua | Some a \<Rightarrow> a)) w1 = (Inr r, w')" by simp
  ultimately show ?thesis using that [OF q] e by blast
qed

text \<open>At most one live session carries a given refresh-token hash.\<close>

definition refresh_unique :: "database \<Rightarrow> string \<Rightarrow> bool" where
  "refresh_unique d h = (length (filter (\<lambda>s. s_refresh_token_hash s = h \<and> s_revoked_at s = None) (sessions d)) \<le> 1)"

lemma refresh_unique_eq:
  assumes "refresh_unique d h" "s \<in> set (sessions d)" "s' \<in> set (sessions d)"
    and "s_refresh_token_hash s = h" "s_revoked_at s = None" "s_refresh_token_hash s' = h" "s_revoked_at s' = None"
  shows "s = s'"
  using filter_at_most_one [OF assms(1) [unfolded refresh_unique_def] assms(2) _ assms(3)] assms(4-7) by simp

text \<open>What may have happened to the sessions since: any sessions were revoked, added or removed, but no other live
  one got the refresh-token hash \<open>h\<close>.\<close>

definition no_new_holder :: "string \<Rightarrow> database \<Rightarrow> database \<Rightarrow> bool" where
  "no_new_holder h d d' =
     (\<forall>s \<in> set (sessions d'). s_refresh_token_hash s = h \<and> s_revoked_at s = None \<longrightarrow> s \<in> set (sessions d))"


lemma read_session_demo [simp]: "read_session demo_ext s = s"
  by (cases s) (simp add: read_session_def option.map_ident)

lemma demo_refresh: "\<exists>r w'. run_state (Refresh demo_ext demo_cfg ''ref'' ''10.0.0.1'' '''') demo_world = (Inr r, w')"
  by (auto simp: Refresh_def q_GetSessionByRefreshTokenHash_def first_row_def Let_def
      q_GetUserByID_def q_RevokeSession_def update_rows_def createSession_def IssueTokenPair_def demo_sign_def
      q_CreateSession_def user_ref_def insert_row_def auth_logAudit_def split: prod.splits)


lemma Logout_found:
  assumes "run_state (Logout E t ip) w = (x, w')" "faults w = []"
    and "q_GetSessionByAccessTokenHash (hashToken t) (db w) = Inr s"
  shows "x = Inr () \<and> sessions (db w') =
    map (\<lambda>y. if s_id y = s_id s then y\<lparr>s_revoked_at := Some (current_timestamp (clock w))\<rparr> else y) (sessions (db w))"
  using assms
  by (auto simp: Logout_def q_RevokeSession_def update_rows_def audit_onlyD dest!: auth_logAudit_frame
      split: prod.splits)

text \<open>Logging out revokes the session of the presented access token: if session identifiers
  are unique and no other live session has the token's hash, then afterwards none is live, and
  every session with another identifier is as it was. A token without a live session is accepted
  silently and changes nothing.\<close>

theorem logout_revokes:
  assumes "faults w = []"
  shows "case q_GetSessionByAccessTokenHash (hashToken t) (db w) of
      Inl e \<Rightarrow> run_state (Logout E t ip) w = (Inr (), w)
    | Inr s \<Rightarrow> \<exists>w'. run_state (Logout E t ip) w = (Inr (), w') \<and> length (sessions (db w')) = length (sessions (db w))
        \<and> (\<forall>i < length (sessions (db w)). s_id (sessions (db w) ! i) \<noteq> s_id s \<longrightarrow>
             sessions (db w') ! i = sessions (db w) ! i)
        \<and> (\<forall>y \<in> set (sessions (db w')). s_id y = s_id s \<longrightarrow> s_revoked_at y \<noteq> None)"
proof (cases "q_GetSessionByAccessTokenHash (hashToken t) (db w)")
  case (Inl e)
  then have "e = NoRows" by (simp add: q_GetSessionByAccessTokenHash_def first_row_Inl)
  with Inl assms show ?thesis by (simp add: Logout_def)
next
  case (Inr s)
  obtain x w' where run: "run_state (Logout E t ip) w = (x, w')" by fastforce
  with Logout_found [OF run assms Inr] Inr show ?thesis by auto
qed

theorem logout_revokes_witness:
  "\<exists>w'. run_state (Logout demo_ext ''acc'' ''10.0.0.1'') demo_world = (Inr (), w')
     \<and> (\<forall>y \<in> set (sessions (db w')). s_id y = ''s1'' \<longrightarrow> s_revoked_at y \<noteq> None)"
  using logout_revokes [where w = demo_world and t = "''acc''" and E = demo_ext and ip = "''10.0.0.1''"]
  by (auto simp: q_GetSessionByAccessTokenHash_def first_row_def)

text \<open>What logging out does not do: the access token is checked by its signature and expiry
  alone, so a route behind \<open>Require\<close> serves the logged-out token exactly as before, until it
  expires.\<close>

theorem logout_keeps_access_token:
  assumes law: "jwt_lawful E secret" and sign: "jwt_sign E cl secret = Some t"
    and iss: "Issuer cl = ''ctrld''" and live: "clock w < ExpiresAt cl"
    and hdr: "extractBearerToken r = Inr t"
  shows "run_state (Require E secret next r) (snd (run_state (Logout E t ip) w)) =
    run_state (next (Some cl) r) (snd (run_state (Logout E t ip) w))"
proof -
  obtain x w' where run: "run_state (Logout E t ip) w = (x, w')" by fastforce
  have "clock w' = clock w" by (rule steadyD(1) [OF Logout_steady run])
  with live have "ValidateAccessToken E t secret (clock w') = Inr cl"
    by (intro validate_own_token [OF law sign iss]) simp
  with run hdr show ?thesis by (simp add: run_Require)
qed

definition demo_claims :: claims where
  "demo_claims = \<lparr>UserID = ''u1'', Email = ''a@b.co'', Role = ''admin'', SessionID = ''s1'', IssuedAt = 0,
     ExpiresAt = hour, Issuer = ''ctrld'', Subject = ''u1''\<rparr>"

definition demo_token :: string where
  "demo_token = the (demo_sign demo_claims ''key'')"

lemma demo_token_sign: "demo_sign demo_claims ''key'' = Some demo_token"
  by (simp add: demo_token_def demo_sign_def)

lemma trim_space_id:
  assumes "s \<noteq> []" "\<not> is_space (hd s)" "\<not> is_space (last s)"
  shows "trim_space s = s"
proof -
  have "trim_left s = s" "trim_left (rev s) = rev s"
    using assms by (simp_all add: trim_left_def dropWhile_eq_self_iff hd_rev)
  then show ?thesis by (simp add: trim_space_def)
qed

lemma enc_str_ends [simp]: "enc_str s \<noteq> []" "\<not> is_space (hd (enc_str s))" "\<not> is_space (last (enc_str s))"
  by (cases s; simp add: enc_str_def is_space_def)+

definition demo_request :: "string \<Rightarrow> request" where
  "demo_request token = \<lparr>r_method = ''GET'', r_path = ''/api/v1/metrics'',
     r_header = (\<lambda>k. if k = ''Authorization'' then ''Bearer '' @ token else ''''),
     r_remote_addr = ''10.0.0.1:4711'', r_query = (\<lambda>k. ''''), r_param = (\<lambda>k. ''''), r_body = ''''\<rparr>"

lemma demo_bearer: "demo_sign cl key = Some token \<Longrightarrow> extractBearerToken (demo_request token) = Inr token"
proof -
  assume t: "demo_sign cl key = Some token"
  then obtain r where r: "token = enc_str key @ r @ enc_str (Subject cl)" by (auto simp: demo_sign_def)
  then have "last token = last (enc_str (Subject cl))" by simp
  with r have "trim_space token = token" "token \<noteq> []"
    by (simp_all add: trim_space_id)
  moreover have "equal_fold ''Bearer'' ''bearer''" by code_simp
  ultimately show ?thesis
    by (intro bearer_header [where scheme = "''Bearer''"]) (simp_all add: demo_request_def)
qed

theorem logout_keeps_access_token_witness:
  "run_state (Require demo_ext ''key'' (\<lambda>cl r. ret (Reply 200 cl)) (demo_request demo_token))
     (snd (run_state (Logout demo_ext demo_token ''10.0.0.1'') demo_world)) =
   (Reply 200 (Some demo_claims), snd (run_state (Logout demo_ext demo_token ''10.0.0.1'') demo_world))"
  by (subst logout_keeps_access_token [where cl = demo_claims])
    (simp_all add: demo_jwt_lawful demo_token_sign demo_bearer [OF demo_token_sign], simp_all add: demo_claims_def)

text \<open>C23: Revoking a session by its identifier reaches only the caller's own sessions: success
  means the session was a live one of the caller and is now revoked, and sessions of other users
  are untouched whatever the identifier.\<close>

theorem revoke_own_only:
  assumes "run_state (RevokeSession E sid uid ip) w = (x, w')" "faults w = []" "db_ok (db w)"
  shows "(x = Inr () \<longrightarrow> (\<exists>s \<in> set (sessions (db w)). s_id s = sid \<and> s_user_id s = uid \<and> s_revoked_at s = None)
            \<and> (\<forall>s \<in> set (sessions (db w')). s_id s = sid \<longrightarrow> s_revoked_at s \<noteq> None))
    \<and> filter (\<lambda>s. s_user_id s \<noteq> uid) (sessions (db w')) = filter (\<lambda>s. s_user_id s \<noteq> uid) (sessions (db w))"
proof (cases "\<exists>s \<in> set (sessions (db w)). s_id s = sid \<and> s_user_id s = uid \<and> s_revoked_at s = None
    \<and> current_timestamp (clock w) < s_expires_at s")
  case True
  then obtain s where s: "s \<in> set (sessions (db w))" "s_id s = sid" "s_user_id s = uid" "s_revoked_at s = None" by blast
  from True assms(1,2) have w': "sessions (db w') =
      map (\<lambda>y. if s_id y = sid then y\<lparr>s_revoked_at := Some (current_timestamp (clock w))\<rparr> else y) (sessions (db w))"
    by (auto simp: RevokeSession_def q_ListActiveSessionsByUserID_def list_ex_iff q_RevokeSession_def update_rows_def
        audit_onlyD dest!: auth_logAudit_frame split: prod.splits if_splits)
  have "unique_keys s_id (sessions (db w))" using assms(3) by (simp add: db_ok_def)
  then have own: "s_user_id y = uid" if "y \<in> set (sessions (db w))" "s_id y = sid" for y
    using unique_keysD [where key = s_id, OF _ that(1) s(1)] that(2) s(2,3) by auto
  have "filter (\<lambda>s. s_user_id s \<noteq> uid) (map (\<lambda>y. if s_id y = sid then y\<lparr>s_revoked_at := v\<rparr> else y) ss)
      = filter (\<lambda>s. s_user_id s \<noteq> uid) ss" if "set ss \<subseteq> set (sessions (db w))" for v ss
    using that own by (induction ss) auto
  with s w' show ?thesis by auto
next
  case False
  with assms(1,2) have "x = Inl ErrSessionNotFound \<and> w' = w"
    by (auto simp: RevokeSession_def q_ListActiveSessionsByUserID_def list_ex_iff split: if_splits)
  then show ?thesis by simp
qed

theorem revoke_own_only_witness:
  "\<exists>w'. run_state (RevokeSession demo_ext ''s1'' ''u2'' ''10.0.0.1'') demo_world = (Inl ErrSessionNotFound, w')
     \<and> sessions (db w') = [demo_session]"
proof -
  obtain x w' where run: "run_state (RevokeSession demo_ext ''s1'' ''u2'' ''10.0.0.1'') demo_world = (x, w')"
    by fastforce
  have "x = Inl ErrSessionNotFound"
    using run by (simp add: RevokeSession_def q_ListActiveSessionsByUserID_def newest_first_def)
  moreover from revoke_own_only [OF run _ ] demo_db_ok
  have "filter (\<lambda>s. s_user_id s \<noteq> ''u2'') (sessions (db w')) = [demo_session]" by simp
  moreover have "w' = demo_world"
    using run by (simp add: RevokeSession_def q_ListActiveSessionsByUserID_def newest_first_def)
  ultimately show ?thesis using run by auto
qed

text \<open>The token of a login that still needs its second factor is a full access token for every
  route behind \<open>Require\<close>: the handler runs with the user's identity and the role
  \<open>mfa_pending\<close>, although no second factor was presented.\<close>

theorem mfa_token_passes_Require:
  assumes login: "run_state (Login E cfg req) w = (Inr res, w')" and mfa: "lr_MFARequired res"
    and law: "jwt_lawful E (Secret cfg)" and live: "clock w < numeric_date E (clock w + 5 * minute)"
    and hdr: "extractBearerToken r = Inr (lr_MFASessionToken res)"
  shows "\<exists>cl. UserID cl = lr_UserID res \<and> Role cl = ''mfa_pending''
    \<and> run_state (Require E (Secret cfg) next r) w' = run_state (next (Some cl) r) w'"
proof -
  have ck: "clock w' = clock w" by (rule steadyD(1) [OF Login_steady login])
  obtain user w1 where c1: "clock w1 = clock w"
    and v: "run_state (login_verified E cfg req user) w1 = (Inr res, w')" using Login_Inr [OF login] by blast
  from mfa_token_claims [OF v mfa, unfolded c1] obtain cl where cl: "jwt_sign E cl (Secret cfg) = Some (lr_MFASessionToken res)" "UserID cl = lr_UserID res"
    "Role cl = ''mfa_pending''" "Issuer cl = ''ctrld''" "ExpiresAt cl = numeric_date E (clock w + 5 * minute)" by blast
  have "ValidateAccessToken E (lr_MFASessionToken res) (Secret cfg) (clock w') = Inr cl"
    by (rule validate_own_token [OF law cl(1,4)]) (use live in \<open>simp add: ck cl(5)\<close>)
  with hdr have "run_state (Require E (Secret cfg) next r) w' = run_state (next (Some cl) r) w'"
    by (simp add: run_Require)
  with cl(2,3) show ?thesis by blast
qed

definition demo_cred :: cred_row where
  "demo_cred = \<lparr>m_id = ''m1'', m_user_id = ''u1'', m_type = ''totp'', m_name = ''phone'',
     m_credential_data = b64_std_encode ''JBSWY3DP'', m_sign_count = 0, m_last_used_at = None,
     m_created_at = ''0001-01-01 00:00:00'', m_is_active = 1\<rparr>"

lemma demo_cred_fields [simp]:
  "m_id demo_cred = ''m1''" "m_user_id demo_cred = ''u1''" "m_type demo_cred = ''totp''"
  "m_is_active demo_cred = 1" "m_credential_data demo_cred = b64_std_encode ''JBSWY3DP''"
  by (simp_all add: demo_cred_def)

definition demo_mfa_world :: world where
  "demo_mfa_world = demo_world\<lparr>db := demo_db\<lparr>creds := [demo_cred]\<rparr>\<rparr>"

lemma demo_mfa_fields [simp]:
  "db demo_mfa_world = demo_db\<lparr>creds := [demo_cred]\<rparr>" "limiter demo_mfa_world = limiter_New"
  "clock demo_mfa_world = second" "faults demo_mfa_world = []" "rand_ctr demo_mfa_world = 0"
  "uuid_ctr demo_mfa_world = 0"
  by (simp_all add: demo_mfa_world_def)

lemma demo_mfa_login:
  "\<exists>r w'. run_state (Login demo_ext demo_cfg demo_login) demo_mfa_world = (Inr r, w') \<and> lr_MFARequired r"
  by (auto simp: Login_def IsBlocked_def limiter_New_def q_GetUserByEmail_def first_row_def
      login_verified_def q_UpdateLastLogin_def update_rows_def q_ListMFACredentialsByUserID_def
      issueMFASessionToken_def IssueTokenPair_def demo_sign_def Let_def auth_logAudit_def split: prod.splits)

theorem mfa_token_passes_Require_witness:
  "\<exists>res w' cl. run_state (Login demo_ext demo_cfg demo_login) demo_mfa_world = (Inr res, w')
     \<and> Role cl = ''mfa_pending''
     \<and> run_state (Require demo_ext ''key'' (\<lambda>cl r. ret (Reply 200 cl)) (demo_request (lr_MFASessionToken res))) w'
       = (Reply 200 (Some cl), w')"
proof -
  obtain res w' where run: "run_state (Login demo_ext demo_cfg demo_login) demo_mfa_world = (Inr res, w')"
    and mfa: "lr_MFARequired res" using demo_mfa_login by blast
  obtain user w1 where v: "run_state (login_verified demo_ext demo_cfg demo_login user) w1 = (Inr res, w')"
    using Login_Inr [OF run] by blast
  from mfa_token_claims [OF v mfa] obtain cl where "demo_sign cl ''key'' = Some (lr_MFASessionToken res)" by auto
  from demo_bearer [OF this] mfa_token_passes_Require [OF run mfa, of "demo_request (lr_MFASessionToken res)"
      "\<lambda>cl r. ret (Reply 200 cl)"] run
  show ?thesis by (fastforce simp: demo_jwt_lawful)
qed

end
