(* ===== verification/Pim.thy ===== *)
theory Pim
  imports Demo
begin

text \<open>
  Privileged sessions (\<open>internal/pim/service.go\<close>): requesting, looking up, using, ending and
  expiring them. The expiry is stored as an RFC 3339 text and compared by SQLite with
  \<open>CURRENT_TIMESTAMP\<close>; the lemmas on \<open>pim_active\<close> say what that comparison means.
\<close>

section \<open>The code\<close>

datatype pim_error = ErrPIMAlreadyActive | ErrPIMNotActive | ErrPIMNotFound | ErrReasonTooShort
  | ErrInvalidDuration | PimInternal

definition minReason :: nat where "minReason = 10"
definition maxDurationMin :: int where "maxDurationMin = 480"
definition allowedDurations :: "int \<Rightarrow> bool" where "allowedDurations m = (m \<in> {15, 30, 60})"

record RequestParams =
  pq_UserID :: string
  pq_SessionID :: string
  pq_Reason :: string
  pq_DurationMin :: int
  pq_IsBreakGlass :: bool

record ActivePIMSession =
  ap_ID :: string
  ap_Reason :: string
  ap_RequestedDurationMin :: int
  ap_StartedAt :: time
  ap_ExpiresAt :: time
  ap_IsBreakGlass :: bool
  ap_ActionCount :: int
  ap_RemainingSeconds :: int

definition isValidDuration :: "int \<Rightarrow> bool" where
  "isValidDuration m = (if allowedDurations m then True else m \<ge> 1 \<and> m \<le> maxDurationMin)"

text \<open>\<open>t, _ := time.Parse(time.RFC3339, s)\<close>: the zero time when parsing fails.\<close>

definition parse_or_zero :: "string \<Rightarrow> time" where
  "parse_or_zero s = (case parse_rfc3339 s of None \<Rightarrow> zero_time | Some t \<Rightarrow> t)"

definition toActivePIMSession :: "time \<Rightarrow> pim_row \<Rightarrow> ActivePIMSession" where
  "toActivePIMSession now p =
     (let startedAt = parse_or_zero (p_started_at p);
          expiresAt = parse_or_zero (p_expires_at p);
          remaining = (if expiresAt < now then 0 else (expiresAt - now) div second)
      in \<lparr>ap_ID = p_id p, ap_Reason = p_reason p, ap_RequestedDurationMin = p_requested_duration_min p,
          ap_StartedAt = startedAt, ap_ExpiresAt = expiresAt, ap_IsBreakGlass = (p_is_break_glass p = 1),
          ap_ActionCount = p_action_count p, ap_RemainingSeconds = remaining\<rparr>)"

text \<open>The \<open>DATETIME\<close> columns of a row as the driver hands them to the code.\<close>

definition scan_pim :: "(string \<Rightarrow> string) \<Rightarrow> pim_row \<Rightarrow> pim_row" where
  "scan_pim f p = p\<lparr>p_started_at := f (p_started_at p), p_expires_at := f (p_expires_at p),
     p_ended_at := map_option f (p_ended_at p)\<rparr>"

definition pim_logAudit ::
    "ext \<Rightarrow> string \<Rightarrow> string \<Rightarrow> string \<Rightarrow> string \<Rightarrow> string \<Rightarrow> string \<Rightarrow> unit action" where
  "pim_logAudit E userID sessionID pimID actionType resource res = do {
     i \<leftarrow> new_uuid E;
     _ \<leftarrow> db_write (q_CreateAuditEntry i (nullstr userID) (nullstr sessionID) (nullstr pimID) actionType
            (nullstr resource) res None None (if pimID \<noteq> '''' then ''warning'' else ''info''));
     ret ()
   }"

definition pim_Request :: "ext \<Rightarrow> RequestParams \<Rightarrow> (pim_error + ActivePIMSession) action" where
  "pim_Request E params =
     (if length (pq_Reason params) < minReason then ret (Inl ErrReasonTooShort)
      else if \<not> isValidDuration (pq_DurationMin params) then ret (Inl ErrInvalidDuration)
      else do {
        existing \<leftarrow> db_read_now (q_GetActivePIMSessionByUserID (pq_UserID params));
        (if (case existing of Inl _ \<Rightarrow> False | Inr p \<Rightarrow> p_id p \<noteq> '''') then ret (Inl ErrPIMAlreadyActive)
         else do {
           now \<leftarrow> reads clock;
           let expiresAt = now + pq_DurationMin params * minute;
           let breakGlass = (if pq_IsBreakGlass params then 1 else 0);
           i \<leftarrow> new_uuid E;
           session \<leftarrow> db_write (q_CreatePIMSession i (pq_UserID params) (pq_SessionID params)
             (pq_Reason params) (pq_DurationMin params) (rfc3339 expiresAt) breakGlass);
           (case session of
              Inl _ \<Rightarrow> ret (Inl PimInternal)
            | Inr session \<Rightarrow> do {
                pim_logAudit E (pq_UserID params) (pq_SessionID params) (p_id session)
                  ''pim.session.started'' (pq_Reason params) ''success'';
                ret (Inr (toActivePIMSession now (scan_pim (returning_text E) session)))
              })
         })
      })"

definition pim_GetActive :: "ext \<Rightarrow> string \<Rightarrow> (pim_error + ActivePIMSession) action" where
  "pim_GetActive E userID = do {
     session \<leftarrow> db_read_now (q_GetActivePIMSessionByUserID userID);
     now \<leftarrow> reads clock;
     (case session of
        Inl NoRows \<Rightarrow> ret (Inl ErrPIMNotActive)
      | Inl _ \<Rightarrow> ret (Inl PimInternal)
      | Inr session \<Rightarrow> ret (Inr (toActivePIMSession now (scan_pim (datetime_text E) session))))
   }"

definition pim_End :: "ext \<Rightarrow> string \<Rightarrow> string \<Rightarrow> string \<Rightarrow> (pim_error + unit) action" where
  "pim_End E userID sessionID pimID = do {
     active \<leftarrow> pim_GetActive E userID;
     (case active of
        Inl _ \<Rightarrow> ret (Inl ErrPIMNotActive)
      | Inr active \<Rightarrow>
          if ap_ID active \<noteq> pimID then ret (Inl ErrPIMNotFound)
          else do {
            r \<leftarrow> db_write (q_EndPIMSession pimID);
            (case r of
               Inl _ \<Rightarrow> ret (Inl PimInternal)
             | Inr _ \<Rightarrow> do {
                 pim_logAudit E userID sessionID pimID ''pim.session.ended'' ''manuell beendet'' ''success'';
                 ret (Inr ())
               })
          })
   }"

definition pim_RecordAction :: "string \<Rightarrow> (sql_error + unit) action" where
  "pim_RecordAction pimID = db_write (q_IncrementPIMActionCount pimID)"

definition pim_ExpireOverdue :: "(sql_error + unit) action" where
  "pim_ExpireOverdue = db_write q_ExpirePIMSessions"

definition pim_CheckAndRecord :: "ext \<Rightarrow> string \<Rightarrow> (pim_error + string) action" where
  "pim_CheckAndRecord E userID = do {
     active \<leftarrow> pim_GetActive E userID;
     (case active of
        Inl _ \<Rightarrow> ret (Inl ErrPIMNotActive)
      | Inr active \<Rightarrow> do {
          _ \<leftarrow> pim_RecordAction (ap_ID active);
          ret (Inr (ap_ID active))
        })
   }"

section \<open>Statements only\<close>

lemma pim_logAudit_steady [steady_intros]: "steady (pim_logAudit E u s p ac re rs)"
  unfolding pim_logAudit_def by (intro steady_intros)


lemma pim_Request_steady [steady_intros]: "steady (pim_Request E ps)"
  unfolding pim_Request_def by (intro steady_intros)

lemma pim_GetActive_silent [silent_intros]: "silent (pim_GetActive E u)"
  unfolding pim_GetActive_def
  by (intro silent_intros)

lemmas pim_GetActive_steady [steady_intros] = pim_GetActive_silent [THEN silent_steady]

lemma pim_End_steady [steady_intros]: "steady (pim_End E u s p)"
  unfolding pim_End_def by (intro steady_intros)

lemma pim_RecordAction_steady [steady_intros]: "steady (pim_RecordAction p)"
  unfolding pim_RecordAction_def by (intro steady_intros)

lemma pim_ExpireOverdue_steady [steady_intros]: "steady pim_ExpireOverdue"
  unfolding pim_ExpireOverdue_def by (intro steady_intros)

lemma pim_CheckAndRecord_steady [steady_intros]: "steady (pim_CheckAndRecord E u)"
  unfolding pim_CheckAndRecord_def by (intro steady_intros)

interpretation pim_audit: audit_sink "\<lambda>(u, s, p, ac, re, rs). pim_logAudit E u s p ac re rs" for E
proof unfold_locales
  fix x :: "string \<times> string \<times> string \<times> string \<times> string \<times> string"
  show "logs_audit (case x of (u, s, p, ac, re, rs) \<Rightarrow> pim_logAudit E u s p ac re rs)"
    by (cases x) (simp add: logs_audit_def pim_logAudit_steady, simp only: pim_logAudit_def audit_only_entry, simp)
qed

lemma pim_logAudit_frame: "run_state (pim_logAudit E u s p ac re rs) w = (x, w') \<Longrightarrow> audit_only w w'"
  using pim_audit.log_frame [of E "(u, s, p, ac, re, rs)"] by simp

section \<open>What the comparison of the texts means\<close>

text \<open>
  \<open>CURRENT_TIMESTAMP\<close> separates date and time by a blank, RFC 3339 by \<open>T\<close>: the date decides the
  comparison, the time of day never does. A session is found until the end of the UTC day on which
  it expires.
\<close>

lemma pim_active_day:
  assumes "calendar_range now" "calendar_range e" "p_expires_at p = rfc3339 e"
  shows "pim_active (current_timestamp now) user p \<longleftrightarrow>
    p_user_id p = user \<and> p_ended_at p = None \<and> day_of now \<le> day_of e"
  using current_timestamp_less_rfc3339 [OF assms(1,2)] assms(3) by (auto simp: pim_active_def)

lemma pim_active_later: "pim_active ts' user p \<Longrightarrow> ts \<le> ts' \<Longrightarrow> pim_active ts user p"
  by (auto simp: pim_active_def)

lemma current_timestamp_mono:
  "calendar_range t \<Longrightarrow> calendar_range t' \<Longrightarrow> t \<le> t' \<Longrightarrow> current_timestamp t \<le> current_timestamp t'"
  using current_timestamp_less [of t' t] by (auto simp: not_less [symmetric] secs_of_def dest: zdiv_mono1)

section \<open>Effects\<close>

text \<open>What \<open>GetActive\<close> returns, with no driver fault ahead.\<close>

lemma run_GetActive:
  assumes "faults w = []"
  shows "run_state (pim_GetActive E u) w =
    (case find (pim_active (current_timestamp (clock w)) u) (pims (db w)) of
       None \<Rightarrow> (Inl ErrPIMNotActive, w)
     | Some p \<Rightarrow> (Inr (toActivePIMSession (clock w) (scan_pim (datetime_text E) p)), w))"
  using assms
  by (simp add: pim_GetActive_def q_GetActivePIMSessionByUserID_def first_row_def split: option.split)

lemma ap_ID_scan [simp]: "ap_ID (toActivePIMSession t (scan_pim f p)) = p_id p"
  by (simp add: toActivePIMSession_def scan_pim_def Let_def)

lemma pim_Request_effect:
  assumes "run_state (pim_Request E ps) w = (r, w')"
  shows "users (db w') = users (db w)" "sessions (db w') = sessions (db w)"
    "case r of
       Inl e \<Rightarrow> pims (db w') = pims (db w)
     | Inr a \<Rightarrow> minReason \<le> length (pq_Reason ps) \<and> isValidDuration (pq_DurationMin ps)
         \<and> (\<exists>p n. pims (db w') = pims (db w) @ [p] \<and> p_id p = uuid E n \<and> p_id p = ap_ID a
              \<and> p_user_id p = pq_UserID ps \<and> p_session_id p = pq_SessionID ps
              \<and> p_expires_at p = rfc3339 (clock w + pq_DurationMin ps * minute) \<and> p_ended_at p = None
              \<and> p_action_count p = 0 \<and> p_reason p = pq_Reason ps)"
proof -
  obtain ex w1 where ex: "run_state (db_read_now (q_GetActivePIMSessionByUserID (pq_UserID ps))) w = (ex, w1)"
    by fastforce
  from db_read_now_frame [OF ex] have w1: "db w1 = db w" "clock w1 = clock w" by auto
  let ?i = "uuid E (uuid_ctr w1)"
  let ?ins = "db_write (q_CreatePIMSession ?i (pq_UserID ps) (pq_SessionID ps) (pq_Reason ps) (pq_DurationMin ps)
    (rfc3339 (clock w + pq_DurationMin ps * minute)) (if pq_IsBreakGlass ps then 1 else 0))"
  obtain s w2 where s: "run_state ?ins (w1\<lparr>uuid_ctr := uuid_ctr w1 + 1\<rparr>) = (s, w2)" by fastforce
  from db_write_frame [OF s] have w2: "users (db w2) = users (db w)" "sessions (db w2) = sessions (db w)"
    "case s of Inl _ \<Rightarrow> pims (db w2) = pims (db w)
     | Inr p \<Rightarrow> pims (db w2) = pims (db w) @ [p] \<and> p_id p = ?i \<and> p_user_id p = pq_UserID ps
         \<and> p_session_id p = pq_SessionID ps \<and> p_expires_at p = rfc3339 (clock w + pq_DurationMin ps * minute)
         \<and> p_ended_at p = None \<and> p_action_count p = 0 \<and> p_reason p = pq_Reason ps"
    by (cases s; auto simp: q_CreatePIMSession_def insert_row_def w1 split: if_splits)+
  have run: "(r, w') = (if length (pq_Reason ps) < minReason then (Inl ErrReasonTooShort, w)
      else if \<not> isValidDuration (pq_DurationMin ps) then (Inl ErrInvalidDuration, w)
      else if (case ex of Inl _ \<Rightarrow> False | Inr p \<Rightarrow> p_id p \<noteq> '''') then (Inl ErrPIMAlreadyActive, w1)
      else (case s of
         Inl _ \<Rightarrow> (Inl PimInternal, w2)
       | Inr p \<Rightarrow> (Inr (toActivePIMSession (clock w) (scan_pim (returning_text E) p)),
           snd (run_state (pim_logAudit E (pq_UserID ps) (pq_SessionID ps) (p_id p)
             ''pim.session.started'' (pq_Reason ps) ''success'') w2))))"
    using assms ex s w1(2) unfolding pim_Request_def
    by (cases "length (pq_Reason ps) < minReason"; cases "isValidDuration (pq_DurationMin ps)"; cases ex; cases s)
      (simp_all add: Let_def split: if_splits prod.splits)
  have log: "audit_only w2 (snd (run_state (pim_logAudit E u se p ac re rs) w2))" for u se p ac re rs
    using pim_logAudit_frame [of E u se p ac re rs w2] by (metis prod.collapse)
  show "users (db w') = users (db w)" "sessions (db w') = sessions (db w)"
    using run w1 w2 audit_onlyD [OF log] by (auto split: if_splits sum.splits)
  show "case r of
       Inl e \<Rightarrow> pims (db w') = pims (db w)
     | Inr a \<Rightarrow> minReason \<le> length (pq_Reason ps) \<and> isValidDuration (pq_DurationMin ps)
         \<and> (\<exists>p n. pims (db w') = pims (db w) @ [p] \<and> p_id p = uuid E n \<and> p_id p = ap_ID a
              \<and> p_user_id p = pq_UserID ps \<and> p_session_id p = pq_SessionID ps
              \<and> p_expires_at p = rfc3339 (clock w + pq_DurationMin ps * minute) \<and> p_ended_at p = None
              \<and> p_action_count p = 0 \<and> p_reason p = pq_Reason ps)"
    using run w1 w2 audit_onlyD [OF log] by (auto split: if_splits sum.splits)
qed

text \<open>
  The lookup of a request reaches the database or meets a driver fault; the code ignores its error
  and goes on as if there were no active session.
\<close>

definition lookup_fails :: "world \<Rightarrow> bool" where
  "lookup_fails w = fault_at 0 w"

lemma run_lookup:
  "\<not> lookup_fails w \<Longrightarrow> run_state (db_read_now q) w =
    (q (current_timestamp (clock w)) (db w), w\<lparr>faults := tl (faults w)\<rparr>)"
  by (simp add: lookup_fails_def run_db_read_now_at)

lemma pim_Request_none_active:
  assumes "run_state (pim_Request E ps) w = (Inr a, w')" "\<not> lookup_fails w" "\<forall>p \<in> set (pims (db w)). p_id p \<noteq> ''''"
  shows "\<forall>p \<in> set (pims (db w)). \<not> pim_active (current_timestamp (clock w)) (pq_UserID ps) p"
proof (cases "q_GetActivePIMSessionByUserID (pq_UserID ps) (current_timestamp (clock w)) (db w)")
  case (Inl e)
  then show ?thesis by (simp add: q_GetActivePIMSessionByUserID_def first_row_Inl)
next
  case (Inr p)
  then have "p \<in> set (pims (db w))" by (simp add: q_GetActivePIMSessionByUserID_def first_row_Inr)
  with assms Inr show ?thesis by (auto simp: pim_Request_def run_lookup split: if_splits)
qed

lemma pim_End_pims:
  assumes "run_state (pim_End E u s i) w = (r, w')"
  shows "pims (db w') = pims (db w) \<or> pims (db w') =
    map (\<lambda>p. if p_id p = i \<and> p_ended_at p = None then p\<lparr>p_ended_at := Some (current_timestamp (clock w))\<rparr> else p)
      (pims (db w))"
proof -
  obtain x w1 where x: "run_state (pim_GetActive E u) w = (x, w1)" by fastforce
  then have "db w1 = db w \<and> clock w1 = clock w"
    using pim_GetActive_silent [of E u] unfolding silent_def by (metis snd_conv)
  with assms x show ?thesis
    by (auto simp: pim_End_def q_EndPIMSession_def update_rows_def audit_onlyD
        dest!: pim_logAudit_frame db_write_frame split: prod.splits sum.splits if_splits)
qed

definition bump_action :: "string \<Rightarrow> pim_row \<Rightarrow> pim_row" where
  "bump_action i p =
     (if p_id p = i \<and> p_ended_at p = None then p\<lparr>p_action_count := p_action_count p + 1\<rparr> else p)"

lemma bump_fold:
  "(\<lambda>p. if p_id p = i \<and> p_ended_at p = None then p\<lparr>p_action_count := p_action_count p + 1\<rparr> else p) = bump_action i"
  by (simp add: bump_action_def fun_eq_iff)

lemma bump_action_simps [simp]:
  "p_id (bump_action i p) = p_id p" "p_user_id (bump_action i p) = p_user_id p"
  "p_ended_at (bump_action i p) = p_ended_at p" "p_expires_at (bump_action i p) = p_expires_at p"
  "pim_active ts u (bump_action i p) = pim_active ts u p"
  by (simp_all add: bump_action_def pim_active_def)

lemma pim_CheckAndRecord_pims:
  assumes "run_state (pim_CheckAndRecord E u) w = (r, w')"
  shows "pims (db w') = pims (db w) \<or> (\<exists>i. pims (db w') = map (bump_action i) (pims (db w)))"
proof -
  obtain x w1 where x: "run_state (pim_GetActive E u) w = (x, w1)" by fastforce
  then have "db w1 = db w \<and> clock w1 = clock w"
    using pim_GetActive_silent [of E u] unfolding silent_def by (metis snd_conv)
  note w1 = this
  show ?thesis
  proof (cases x)
    case (Inl e)
    with assms x w1 show ?thesis by (simp add: pim_CheckAndRecord_def)
  next
    case (Inr a)
    with assms x w1 have "pims (db w') = pims (db w) \<or> pims (db w') = map (bump_action (ap_ID a)) (pims (db w))"
      by (auto simp: pim_CheckAndRecord_def pim_RecordAction_def q_IncrementPIMActionCount_def update_rows_def
          bump_fold dest!: db_write_frame split: prod.splits sum.splits)
    then show ?thesis by blast
  qed
qed

lemma pim_ExpireOverdue_pims:
  assumes "run_state pim_ExpireOverdue w = (r, w')"
  shows "pims (db w') = pims (db w) \<or> pims (db w') =
    map (\<lambda>p. if p_ended_at p = None \<and> p_expires_at p \<le> current_timestamp (clock w)
             then p\<lparr>p_ended_at := Some (current_timestamp (clock w))\<rparr> else p) (pims (db w))"
  using assms
  by (auto simp: pim_ExpireOverdue_def q_ExpirePIMSessions_def update_rows_def
      dest!: db_write_frame split: sum.splits)

section \<open>Active sessions per user\<close>

text \<open>
  The states the PIM service runs through: it starts without sessions, its operations run, any
  database call of theirs failing or not, and in between anything may happen that leaves the table
  alone and does not turn the clock back. \<open>n u\<close> counts the requests for the user \<open>u\<close> so far whose
  lookup failed.
\<close>

definition count_lookup :: "string \<Rightarrow> world \<Rightarrow> (string \<Rightarrow> nat) \<Rightarrow> string \<Rightarrow> nat" where
  "count_lookup u w n = (if lookup_fails w then n(u := Suc (n u)) else n)"

inductive pim_reach :: "ext \<Rightarrow> (string \<Rightarrow> nat) \<Rightarrow> world \<Rightarrow> bool" for E where
  start: "pims (db w) = [] \<Longrightarrow> calendar_range (clock w) \<Longrightarrow> pim_reach E (\<lambda>_. 0) w"
| request: "pim_reach E n w \<Longrightarrow> run_state (pim_Request E ps) w = (r, w') \<Longrightarrow>
    pim_reach E (count_lookup (pq_UserID ps) w n) w'"
| ending: "pim_reach E n w \<Longrightarrow> run_state (pim_End E u s i) w = (r', w') \<Longrightarrow> pim_reach E n w'"
| recorded: "pim_reach E n w \<Longrightarrow> run_state (pim_CheckAndRecord E u) w = (r'', w') \<Longrightarrow> pim_reach E n w'"
| expire: "pim_reach E n w \<Longrightarrow> run_state pim_ExpireOverdue w = (r''', w') \<Longrightarrow> pim_reach E n w'"
| elsewhere: "pim_reach E n w \<Longrightarrow> pims (db w') = pims (db w) \<Longrightarrow> clock w \<le> clock w' \<Longrightarrow>
    calendar_range (clock w') \<Longrightarrow> pim_reach E n w'"

definition pim_inv :: "(string \<Rightarrow> nat) \<Rightarrow> world \<Rightarrow> bool" where
  "pim_inv n w = (calendar_range (clock w)
     \<and> (\<forall>u. length (filter (pim_active (current_timestamp (clock w)) u) (pims (db w))) \<le> Suc (n u))
     \<and> (\<forall>p \<in> set (pims (db w)). p_id p \<noteq> ''''))"

lemma pim_inv_bound:
  "pim_inv n w \<Longrightarrow> length (filter (pim_active (current_timestamp (clock w)) u) (pims (db w))) \<le> Suc (n u)"
  by (simp add: pim_inv_def)

lemma pim_inv_update:
  assumes "pim_inv n w" "clock w' = clock w" "pims (db w') = map f (pims (db w))"
    and "\<And>p. p_id (f p) = p_id p" "\<And>ts u p. pim_active ts u (f p) \<Longrightarrow> pim_active ts u p"
  shows "pim_inv n w'"
proof -
  have "length (filter (pim_active (current_timestamp (clock w)) u) (pims (db w'))) \<le> Suc (n u)" for u
    unfolding assms(3)
    by (rule order_trans [OF filter_map_shrinks pim_inv_bound [OF assms(1)]]) (rule assms(5))
  with assms(1-4) show ?thesis by (auto simp: pim_inv_def)
qed

lemma pim_inv_kept: "pim_inv n w \<Longrightarrow> clock w' = clock w \<Longrightarrow> pims (db w') = pims (db w) \<Longrightarrow> pim_inv n w'"
  by (simp add: pim_inv_def)

lemma pim_inv_more: "pim_inv n w \<Longrightarrow> pim_inv (count_lookup u v n) w"
  by (auto simp: pim_inv_def count_lookup_def intro: le_SucI)

lemma pim_inv_request:
  assumes run: "run_state (pim_Request E ps) w = (r, w')" and "pim_inv n w" "\<And>n. uuid E n \<noteq> ''''"
  shows "pim_inv (count_lookup (pq_UserID ps) w n) w'"
proof (cases r)
  case (Inl e)
  with pim_Request_effect(3) [OF run] show ?thesis
    by (intro pim_inv_kept [OF pim_inv_more [OF assms(2)] steadyD(1) [OF pim_Request_steady run]]) simp
next
  case (Inr a)
  let ?ts = "current_timestamp (clock w)"
  have ck: "clock w' = clock w" by (rule steadyD(1) [OF pim_Request_steady run])
  from pim_Request_effect(3) [OF run] Inr obtain p n where p: "pims (db w') = pims (db w) @ [p]"
    "p_id p = uuid E n" "p_user_id p = pq_UserID ps" by auto
  have "length (filter (pim_active ?ts u) (pims (db w'))) \<le> Suc (count_lookup (pq_UserID ps) w m u)"
    if m: "pim_inv m w" for m u
  proof (cases "u = pq_UserID ps \<and> \<not> lookup_fails w")
    case True
    then have "\<forall>q \<in> set (pims (db w)). \<not> pim_active ?ts (pq_UserID ps) q"
      using pim_Request_none_active run m Inr by (auto simp: pim_inv_def)
    then have "filter (pim_active ?ts (pq_UserID ps)) (pims (db w)) = []" by (simp add: filter_empty_conv)
    with True p(1) show ?thesis by simp
  next
    case False
    then show ?thesis using pim_inv_bound [OF m, of u] p(1,3) by (auto simp: count_lookup_def pim_active_def)
  qed
  from this [OF assms(2)] assms(2,3) ck p show ?thesis by (auto simp: pim_inv_def)
qed

lemma pim_reach_inv:
  assumes "\<And>n. uuid E n \<noteq> ''''"
  shows "pim_reach E n w \<Longrightarrow> pim_inv n w"
proof (induction rule: pim_reach.induct)
  case (start w)
  then show ?case by (simp add: pim_inv_def)
next
  case (request n w ps r w')
  then show ?case using pim_inv_request assms by blast
next
  case (ending n w u s i r' w')
  have ck: "clock w' = clock w" by (rule steadyD(1) [OF pim_End_steady ending(2)])
  show ?case using pim_End_pims [OF ending(2)]
  proof (elim disjE)
    assume "pims (db w') = pims (db w)"
    then show ?thesis by (rule pim_inv_kept [OF ending.IH ck])
  qed (rule pim_inv_update [OF ending.IH ck], assumption, auto simp: pim_active_def split: if_splits)+
next
  case (recorded n w u r'' w')
  have ck: "clock w' = clock w" by (rule steadyD(1) [OF pim_CheckAndRecord_steady recorded(2)])
  show ?case using pim_CheckAndRecord_pims [OF recorded(2)]
  proof (elim disjE exE)
    assume "pims (db w') = pims (db w)"
    then show ?thesis by (rule pim_inv_kept [OF recorded.IH ck])
  qed (rule pim_inv_update [OF recorded.IH ck], assumption, auto)+
next
  case (expire n w r''' w')
  have ck: "clock w' = clock w" by (rule steadyD(1) [OF pim_ExpireOverdue_steady expire(2)])
  show ?case using pim_ExpireOverdue_pims [OF expire(2)]
  proof (elim disjE)
    assume "pims (db w') = pims (db w)"
    then show ?thesis by (rule pim_inv_kept [OF expire.IH ck])
  qed (rule pim_inv_update [OF expire.IH ck], assumption, auto simp: pim_active_def split: if_splits)+
next
  case (elsewhere n w w')
  have le: "current_timestamp (clock w) \<le> current_timestamp (clock w')"
    using elsewhere by (intro current_timestamp_mono) (auto simp: pim_inv_def)
  have "length (filter (pim_active (current_timestamp (clock w')) u) (pims (db w))) \<le>
      length (filter (pim_active (current_timestamp (clock w)) u) (pims (db w)))" for u
    by (rule filter_implies_le) (rule pim_active_later [OF _ le])
  with elsewhere show ?case by (auto simp: pim_inv_def intro: order_trans)
qed

section \<open>The abstract service\<close>

text \<open>
  What the service promises: every user has at most one active session, by its identifier. The
  table of rows implements this map from users to identifiers.
\<close>

definition abs_pim :: "world \<Rightarrow> string \<rightharpoonup> string" where
  "abs_pim w u = map_option p_id (find (pim_active (current_timestamp (clock w)) u) (pims (db w)))"

definition valid_request :: "RequestParams \<Rightarrow> bool" where
  "valid_request ps = (minReason \<le> length (pq_Reason ps) \<and> isValidDuration (pq_DurationMin ps))"

lemma isValidDuration_range: "isValidDuration m \<longleftrightarrow> 1 \<le> m \<and> m \<le> 480"
  by (auto simp: isValidDuration_def allowedDurations_def maxDurationMin_def)

lemma find_append: "find P (xs @ ys) = (case find P xs of None \<Rightarrow> find P ys | Some x \<Rightarrow> Some x)"
  by (induction xs) auto

lemma run_Request_active:
  assumes "\<not> lookup_fails w" "valid_request ps" "abs_pim w (pq_UserID ps) = Some i"
    and "\<forall>p \<in> set (pims (db w)). p_id p \<noteq> ''''"
  shows "run_state (pim_Request E ps) w = (Inl ErrPIMAlreadyActive, w\<lparr>faults := tl (faults w)\<rparr>)"
proof -
  from assms(3) obtain p where f: "find (pim_active (current_timestamp (clock w)) (pq_UserID ps)) (pims (db w)) = Some p"
    by (auto simp: abs_pim_def)
  then have "p_id p \<noteq> ''''" using assms(4) find_Some_in by metis
  with f assms(1,2) show ?thesis
    by (simp add: pim_Request_def valid_request_def run_lookup q_GetActivePIMSessionByUserID_def first_row_def not_less)
qed

lemma run_Request_granted:
  assumes "faults w = []" "valid_request ps" "abs_pim w (pq_UserID ps) = None"
    and "user_ref (db w) (pq_UserID ps)" "session_ref (db w) (pq_SessionID ps)"
    and "uuid E (uuid_ctr w) \<notin> p_id ` set (pims (db w))"
  shows "\<exists>a. fst (run_state (pim_Request E ps) w) = Inr a"
proof -
  have "find (pim_active (current_timestamp (clock w)) (pq_UserID ps)) (pims (db w)) = None"
    using assms(3) by (simp add: abs_pim_def)
  with assms show ?thesis
    by (auto simp: pim_Request_def valid_request_def q_GetActivePIMSessionByUserID_def first_row_def Let_def
        q_CreatePIMSession_def insert_row_def not_less split: prod.splits)
qed

lemma abs_after_insert:
  assumes "clock w' = clock w" "pims (db w') = pims (db w) @ [p]" "p_ended_at p = None"
    and "p_expires_at p = rfc3339 e" "calendar_range (clock w)" "calendar_range e" "clock w \<le> e"
    and "abs_pim w (p_user_id p) = None"
  shows "abs_pim w' = (abs_pim w)(p_user_id p \<mapsto> p_id p)"
proof
  fix u
  have "day_of (clock w) \<le> day_of e"
    using assms(7) by (simp add: day_of_def secs_of_def nat_mono zdiv_mono1 div_le_mono)
  then have "pim_active (current_timestamp (clock w)) u p \<longleftrightarrow> u = p_user_id p"
    using pim_active_day [OF assms(5,6,4)] assms(3) by auto
  then show "abs_pim w' u = ((abs_pim w)(p_user_id p \<mapsto> p_id p)) u"
    using assms(8) by (auto simp: abs_pim_def assms(1,2) find_append split: option.splits)
qed

section \<open>Properties\<close>

text \<open>C10: In every state the service runs through, whatever is requested, ended, used or expired in
  whatever order, with database calls failing anywhere and the clock moving forward, a user has at
  most one active privileged session more than there were requests for that user whose lookup met
  a driver fault. So without such a fault there is never more than one, and every failed lookup lets
  in at most one more, because the code takes its error for ``no active session''.\<close>

theorem pim_at_most_one_active:
  assumes "pim_reach E n w" "\<forall>k. uuid E k \<noteq> ''''"
  shows "length (filter (pim_active (current_timestamp (clock w)) u) (pims (db w))) \<le> 1 + n u"
  using pim_inv_bound [OF pim_reach_inv [of E n w]] assms by simp

definition demo_pim :: "time \<Rightarrow> pim_row" where
  "demo_pim e = \<lparr>p_id = ''p1'', p_user_id = ''u1'', p_session_id = ''s1'', p_reason = ''restart nginx'',
     p_requested_duration_min = 15, p_started_at = rfc3339 0, p_expires_at = rfc3339 e, p_ended_at = None,
     p_is_break_glass = 0, p_action_count = 0\<rparr>"

lemma demo_pim_fields [simp]:
  "p_id (demo_pim e) = ''p1''" "p_user_id (demo_pim e) = ''u1''" "p_expires_at (demo_pim e) = rfc3339 e"
  "p_ended_at (demo_pim e) = None" "p_action_count (demo_pim e) = 0"
  by (simp_all add: demo_pim_def)

definition demo_request_pim :: RequestParams where
  "demo_request_pim = \<lparr>pq_UserID = ''u1'', pq_SessionID = ''s1'', pq_Reason = ''restart nginx'',
     pq_DurationMin = 15, pq_IsBreakGlass = False\<rparr>"

lemma demo_request_pim_fields [simp]:
  "pq_UserID demo_request_pim = ''u1''" "pq_SessionID demo_request_pim = ''s1''"
  "pq_Reason demo_request_pim = ''restart nginx''" "pq_DurationMin demo_request_pim = 15"
  "pq_IsBreakGlass demo_request_pim = False"
  by (simp_all add: demo_request_pim_def)

lemma demo_range: "0 \<le> t \<Longrightarrow> t \<le> 100 * hour \<Longrightarrow> calendar_range t"
proof -
  assume t: "0 \<le> t" "t \<le> 100 * hour"
  then have "t div second \<le> 100 * hour div second" by (intro zdiv_mono1) auto
  then have "secs_of t \<le> 360000" by (simp add: secs_of_def)
  then have "secs_of t div 86400 \<le> 360000 div 86400" by (rule div_le_mono)
  with t show ?thesis by (simp add: calendar_range_def day_of_def)
qed

theorem pim_at_most_one_active_witness:
  "\<exists>r w'. run_state (pim_Request demo_ext demo_request_pim) demo_world = (r, w')
     \<and> length (filter (pim_active (current_timestamp (clock w')) ''u1'') (pims (db w'))) \<le> 1"
proof -
  obtain r w' where run: "run_state (pim_Request demo_ext demo_request_pim) demo_world = (r, w')" by fastforce
  have "pim_reach demo_ext (\<lambda>_. 0) demo_world" by (rule pim_reach.start) (simp_all add: demo_range)
  from pim_reach.request [OF this run] have "pim_reach demo_ext (\<lambda>_. 0) w'"
    by (simp add: count_lookup_def lookup_fails_def)
  then show ?thesis using run pim_at_most_one_active [of demo_ext "\<lambda>_. 0" w' "''u1''"] by auto
qed

text \<open>C11: A request refines the abstract service, with any database call failing. An answer with an
  error changes no user's active session. A granted request was valid and makes exactly the new
  session its user's active one, for everybody else nothing changes; only when the lookup met a
  driver fault can the user have had an active session before, which then stays the one that is
  found. Whenever the lookup reaches the database, a valid request of a user with an active session
  is refused and leaves the database as it is. And without faults a valid request of a user without
  one is granted, when its user and session exist and the new identifier is fresh.\<close>

theorem pim_request_refines:
  assumes "run_state (pim_Request E ps) w = (r, w')" "\<forall>p \<in> set (pims (db w)). p_id p \<noteq> ''''"
    and "calendar_range (clock w)" "calendar_range (clock w + pq_DurationMin ps * minute)"
  shows "(case r of
        Inl e \<Rightarrow> abs_pim w' = abs_pim w
      | Inr a \<Rightarrow> valid_request ps \<and>
          (case abs_pim w (pq_UserID ps) of
             None \<Rightarrow> abs_pim w' = (abs_pim w)(pq_UserID ps \<mapsto> ap_ID a)
           | Some i \<Rightarrow> lookup_fails w \<and> abs_pim w' = abs_pim w))
    \<and> (valid_request ps \<and> \<not> lookup_fails w \<and> abs_pim w (pq_UserID ps) \<noteq> None \<longrightarrow>
        r = Inl ErrPIMAlreadyActive \<and> db w' = db w)
    \<and> (valid_request ps \<and> faults w = [] \<and> abs_pim w (pq_UserID ps) = None \<and>
        user_ref (db w) (pq_UserID ps) \<and> session_ref (db w) (pq_SessionID ps) \<and>
        uuid E (uuid_ctr w) \<notin> p_id ` set (pims (db w)) \<longrightarrow> (\<exists>a. r = Inr a))"
proof (intro conjI)
  have ck: "clock w' = clock w" by (rule steadyD(1) [OF pim_Request_steady assms(1)])
  show "valid_request ps \<and> \<not> lookup_fails w \<and> abs_pim w (pq_UserID ps) \<noteq> None \<longrightarrow>
      r = Inl ErrPIMAlreadyActive \<and> db w' = db w"
    using run_Request_active [of w ps _ E] assms(1,2) by auto
  show "valid_request ps \<and> faults w = [] \<and> abs_pim w (pq_UserID ps) = None \<and> user_ref (db w) (pq_UserID ps) \<and>
      session_ref (db w) (pq_SessionID ps) \<and> uuid E (uuid_ctr w) \<notin> p_id ` set (pims (db w)) \<longrightarrow> (\<exists>a. r = Inr a)"
    using run_Request_granted [of w ps E] assms(1) by auto
  show "case r of Inl e \<Rightarrow> abs_pim w' = abs_pim w
    | Inr a \<Rightarrow> valid_request ps \<and> (case abs_pim w (pq_UserID ps) of
        None \<Rightarrow> abs_pim w' = (abs_pim w)(pq_UserID ps \<mapsto> ap_ID a)
      | Some i \<Rightarrow> lookup_fails w \<and> abs_pim w' = abs_pim w)"
  proof (cases r)
    case (Inl e)
    with ck pim_Request_effect(3) [OF assms(1)] show ?thesis by (simp add: abs_pim_def fun_eq_iff)
  next
    case (Inr a)
    with pim_Request_effect(3) [OF assms(1)] obtain p where p: "pims (db w') = pims (db w) @ [p]" "p_id p = ap_ID a"
      "p_user_id p = pq_UserID ps" "p_expires_at p = rfc3339 (clock w + pq_DurationMin ps * minute)"
      "p_ended_at p = None" and v: "valid_request ps" by (auto simp: valid_request_def)
    show ?thesis
    proof (cases "abs_pim w (pq_UserID ps)")
      case None
      from v have "1 \<le> pq_DurationMin ps" by (simp add: valid_request_def isValidDuration_range)
      then have "abs_pim w' = (abs_pim w)(p_user_id p \<mapsto> p_id p)"
        using None p(3) by (intro abs_after_insert [OF ck p(1,5,4) assms(3,4)]) auto
      with None Inr p v show ?thesis by simp
    next
      case (Some i)
      with Inr assms(1,2) run_Request_active [of w ps i E] v have "lookup_fails w" by auto
      moreover have "abs_pim w' u = abs_pim w u" for u
        using Some p(1,3) ck by (auto simp: abs_pim_def find_append pim_active_def split: option.splits)
      ultimately show ?thesis using Some Inr v by (simp add: fun_eq_iff)
    qed
  qed
qed

theorem pim_request_refines_witness:
  "\<exists>a w'. run_state (pim_Request demo_ext demo_request_pim) demo_world = (Inr a, w')
     \<and> abs_pim w' = (abs_pim demo_world)(''u1'' \<mapsto> ap_ID a)"
proof -
  obtain r w' where run: "run_state (pim_Request demo_ext demo_request_pim) demo_world = (r, w')" by fastforce
  have "abs_pim demo_world ''u1'' = None" "valid_request demo_request_pim"
    by (simp_all add: abs_pim_def valid_request_def minReason_def isValidDuration_range)
  moreover have "user_ref (db demo_world) ''u1''" "session_ref (db demo_world) ''s1''"
    by (simp_all add: user_ref_def session_ref_def)
  ultimately show ?thesis
    using run pim_request_refines [OF run] by (auto simp: demo_range split: sum.splits)
qed

text \<open>C22: How long a session really lasts: it is still found, as active with no time left, at
  every later instant of the UTC day on which it expires, because the stored text and
  \<open>CURRENT_TIMESTAMP\<close> are compared byte by byte and the date alone decides.\<close>

theorem pim_outlives_expiry:
  assumes "faults w = []" "find (pim_active (current_timestamp t0) u) (pims (db w)) = Some p"
    and "p_expires_at p = rfc3339 e" "\<forall>s. datetime_text E (rfc3339 s) = rfc3339 s"
    and "calendar_range t0" "calendar_range (clock w)" "calendar_range e" "t0 \<le> e" "e < clock w"
    and "day_of (clock w) = day_of e"
  shows "\<exists>a. run_state (pim_GetActive E u) w = (Inr a, w) \<and> ap_ID a = p_id p \<and> ap_RemainingSeconds a = 0"
proof -
  have act: "pim_active (current_timestamp (clock w)) u p"
    using find_Some_in [OF assms(2)] pim_active_day [OF assms(6,7,3)] assms(10) by (auto simp: pim_active_def)
  have "current_timestamp t0 \<le> current_timestamp (clock w)"
    using assms(8,9) by (intro current_timestamp_mono [OF assms(5,6)]) simp
  then have q: "find (pim_active (current_timestamp (clock w)) u) (pims (db w)) = Some p"
    using find_antimono [where P = "pim_active (current_timestamp t0) u", OF assms(2),
        where Q = "pim_active (current_timestamp (clock w)) u"] act pim_active_later by blast
  then have run: "run_state (pim_GetActive E u) w =
      (Inr (toActivePIMSession (clock w) (scan_pim (datetime_text E) p)), w)"
    using run_GetActive [OF assms(1)] q by simp
  have "parse_or_zero (rfc3339 e) = e - e mod second"
    using parse_rfc3339_format [OF assms(7)] by (simp add: parse_or_zero_def)
  moreover have "e - e mod second \<le> e" by simp
  ultimately have "parse_or_zero (rfc3339 e) < clock w" using assms(9) by linarith
  then show ?thesis using run assms(3,4)
    by (simp add: toActivePIMSession_def scan_pim_def Let_def)
qed

theorem pim_outlives_expiry_witness:
  "\<exists>a. run_state (pim_GetActive demo_ext ''u1'')
        (demo_world\<lparr>db := demo_db\<lparr>pims := [demo_pim hour]\<rparr>, clock := 23 * hour\<rparr>) =
      (Inr a, demo_world\<lparr>db := demo_db\<lparr>pims := [demo_pim hour]\<rparr>, clock := 23 * hour\<rparr>)
    \<and> ap_RemainingSeconds a = 0"
proof -
  let ?w = "demo_world\<lparr>db := demo_db\<lparr>pims := [demo_pim hour]\<rparr>, clock := 23 * hour\<rparr>"
  have "day_of second \<le> day_of hour" "day_of (23 * hour) = day_of hour" by (simp_all add: day_of_def secs_of_def)
  then have "find (pim_active (current_timestamp second) ''u1'') (pims (db ?w)) = Some (demo_pim hour)"
    using pim_active_day [of second hour "demo_pim hour" "''u1''"] by (simp add: demo_range)
  from pim_outlives_expiry [of ?w second "''u1''" "demo_pim hour" hour demo_ext, OF _ this]
  show ?thesis by (auto simp: demo_range day_of_def secs_of_def)
qed

text \<open>A driver fault during the lookup counts as no active session: a valid request then opens
  a second session next to the one that is active.\<close>

theorem pim_request_ignores_read_fault:
  assumes "faults w = [True]" "valid_request ps"
    and "user_ref (db w) (pq_UserID ps)" "session_ref (db w) (pq_SessionID ps)"
    and "uuid E (uuid_ctr w) \<notin> p_id ` set (pims (db w))"
    and "calendar_range (clock w)" "calendar_range (clock w + pq_DurationMin ps * minute)"
  shows "\<exists>a w'. run_state (pim_Request E ps) w = (Inr a, w')
    \<and> length (filter (pim_active (current_timestamp (clock w')) (pq_UserID ps)) (pims (db w'))) =
      Suc (length (filter (pim_active (current_timestamp (clock w)) (pq_UserID ps)) (pims (db w))))"
proof -
  obtain r w' where run: "run_state (pim_Request E ps) w = (r, w')" by fastforce
  have ck: "clock w' = clock w" by (rule steadyD(1) [OF pim_Request_steady run])
  have "\<exists>a. r = Inr a"
    using run assms(1-5)
    by (auto simp: pim_Request_def valid_request_def db_read_now_def next_fault_def Let_def q_CreatePIMSession_def
        insert_row_def split: prod.splits if_splits)
  then obtain a where a: "r = Inr a" ..
  with pim_Request_effect(3) [OF run] obtain p where p: "pims (db w') = pims (db w) @ [p]"
    "p_user_id p = pq_UserID ps" "p_expires_at p = rfc3339 (clock w + pq_DurationMin ps * minute)"
    "p_ended_at p = None" by auto
  have "1 \<le> pq_DurationMin ps" using assms(2) by (simp add: valid_request_def isValidDuration_range)
  then have "day_of (clock w) \<le> day_of (clock w + pq_DurationMin ps * minute)"
    by (simp add: day_of_def secs_of_def nat_mono zdiv_mono1 div_le_mono)
  with pim_active_day [OF assms(6,7) p(3)] p have "pim_active (current_timestamp (clock w)) (pq_UserID ps) p" by simp
  then show ?thesis using run a p(1) ck by auto
qed

theorem pim_request_ignores_read_fault_witness:
  "\<exists>a w'. run_state (pim_Request demo_ext demo_request_pim)
        (demo_world\<lparr>db := demo_db\<lparr>pims := [demo_pim hour]\<rparr>, faults := [True]\<rparr>) = (Inr a, w')
    \<and> length (filter (pim_active (current_timestamp (clock w')) ''u1'') (pims (db w'))) = 2"
proof -
  let ?w = "demo_world\<lparr>db := demo_db\<lparr>pims := [demo_pim hour]\<rparr>, faults := [True]\<rparr>"
  have "day_of second \<le> day_of hour" by (simp add: day_of_def secs_of_def)
  then have "pim_active (current_timestamp second) ''u1'' (demo_pim hour)"
    using pim_active_day [of second hour "demo_pim hour" "''u1''"] by (simp add: demo_range)
  with pim_request_ignores_read_fault [of ?w demo_request_pim demo_ext]
  show ?thesis
    by (auto simp: demo_range valid_request_def minReason_def isValidDuration_range user_ref_def session_ref_def)
qed

text \<open>Ending reaches only the caller's own active session: success means the identifier was that
  of the caller's active session, which is ended now; any other identifier is refused, and sessions
  with another identifier stay as they are in every case.\<close>

theorem pim_end_own_only:
  assumes "run_state (pim_End E u s i) w = (r, w')" "faults w = []"
  shows "(case r of
      Inr _ \<Rightarrow> abs_pim w u = Some i \<and> (\<forall>p \<in> set (pims (db w')). p_id p = i \<longrightarrow> p_ended_at p \<noteq> None)
    | Inl e \<Rightarrow> w' = w \<and> (abs_pim w u = None \<and> e = ErrPIMNotActive
        \<or> (\<exists>j. abs_pim w u = Some j \<and> j \<noteq> i) \<and> e = ErrPIMNotFound))
    \<and> filter (\<lambda>p. p_id p \<noteq> i) (pims (db w')) = filter (\<lambda>p. p_id p \<noteq> i) (pims (db w))"
proof -
  have same: "filter (\<lambda>p. p_id p \<noteq> i) (map (\<lambda>p. if p_id p = i \<and> p_ended_at p = None then p\<lparr>p_ended_at := v\<rparr> else p) ps)
      = filter (\<lambda>p. p_id p \<noteq> i) ps" for ps v
    by (induction ps) auto
  show ?thesis
  proof (cases "find (pim_active (current_timestamp (clock w)) u) (pims (db w))")
    case None
    with assms show ?thesis by (auto simp: pim_End_def run_GetActive abs_pim_def)
  next
    case (Some p)
    show ?thesis
    proof (cases "p_id p = i")
      case False
      with Some assms show ?thesis by (auto simp: pim_End_def run_GetActive abs_pim_def)
    next
      case True
      with Some assms have r: "r = Inr ()" and w': "pims (db w') = map (\<lambda>p. if p_id p = i \<and> p_ended_at p = None
          then p\<lparr>p_ended_at := Some (current_timestamp (clock w))\<rparr> else p) (pims (db w))"
        by (auto simp: pim_End_def run_GetActive q_EndPIMSession_def update_rows_def audit_onlyD
            dest!: pim_logAudit_frame split: prod.splits)
      then show ?thesis using True Some by (auto simp: abs_pim_def same)
    qed
  qed
qed

theorem pim_end_own_only_witness:
  "\<exists>r w'. run_state (pim_End demo_ext ''u2'' ''s1'' ''p1'') (demo_world\<lparr>db := demo_db\<lparr>pims := [demo_pim hour]\<rparr>\<rparr>) = (r, w')
     \<and> filter (\<lambda>p. p_id p \<noteq> ''p1'') (pims (db w')) = []"
proof -
  let ?w = "demo_world\<lparr>db := demo_db\<lparr>pims := [demo_pim hour]\<rparr>\<rparr>"
  obtain r w' where run: "run_state (pim_End demo_ext ''u2'' ''s1'' ''p1'') ?w = (r, w')" by fastforce
  from pim_end_own_only [OF run] run show ?thesis by simp
qed

text \<open>Every privileged action is checked and counted: with an active session the check returns
  its identifier and adds one to that session's counter and to nothing else; without one it fails
  and changes nothing.\<close>

theorem pim_check_counts:
  assumes "faults w = []"
  shows "case abs_pim w u of
      None \<Rightarrow> run_state (pim_CheckAndRecord E u) w = (Inl ErrPIMNotActive, w)
    | Some i \<Rightarrow> run_state (pim_CheckAndRecord E u) w =
        (Inr i, w\<lparr>db := db w\<lparr>pims := map (bump_action i) (pims (db w))\<rparr>\<rparr>)"
  using assms
  by (auto simp: abs_pim_def pim_CheckAndRecord_def run_GetActive pim_RecordAction_def
      q_IncrementPIMActionCount_def update_rows_def bump_fold split: option.split)

theorem pim_check_counts_witness:
  "run_state (pim_CheckAndRecord demo_ext ''u2'') demo_world = (Inl ErrPIMNotActive, demo_world)"
  using pim_check_counts [where w = demo_world and u = "''u2''" and E = demo_ext] by (simp add: abs_pim_def)

end
