(* ===== verification/Users.thy ===== *)
theory Users
  imports AuthService
begin

text \<open>
  User administration (\<open>internal/users/service.go\<close>): listing, creating, changing roles,
  deactivating, and the guard that keeps the last active administrator.
\<close>

section \<open>The code\<close>

datatype users_error = ErrUserNotFound | ErrEmailTaken | ErrInvalidRole | ErrPasswordTooShort
  | ErrInvalidEmail | ErrCannotDeleteSelf | ErrLastAdmin | UsersInternal

definition minPasswordLen :: nat where "minPasswordLen = 12"

definition validRoles :: "string \<Rightarrow> bool" where
  "validRoles r = (r \<in> {''admin'', ''viewer''})"

record User =
  usr_ID :: string
  usr_Email :: string
  usr_Role :: string
  usr_IsActive :: bool
  usr_CreatedAt :: string
  usr_LastLoginAt :: string
  usr_HasMFA :: bool

record CreateParams =
  cp_Email :: string
  cp_Password :: string
  cp_Role :: string
  cp_RequestorID :: string

record UpdateRoleParams =
  up_UserID :: string
  up_NewRole :: string
  up_RequestorID :: string

definition isValidEmail :: "string \<Rightarrow> bool" where
  "isValidEmail email =
     (let email = trim_space email in
      case last_index (CHR ''@'') email of
        None \<Rightarrow> False
      | Some i \<Rightarrow>
          if i < 1 then False
          else (let domain = drop (i + 1) email in contains domain ''.'' \<and> length domain > 2))"

text \<open>The row as the driver scans it: its \<open>DATETIME\<close> columns rendered by \<open>f\<close>.\<close>

definition scan_user :: "(string \<Rightarrow> string) \<Rightarrow> user_row \<Rightarrow> user_row" where
  "scan_user f u = u\<lparr>u_created_at := f (u_created_at u), u_last_login_at := map_option f (u_last_login_at u)\<rparr>"

definition toUser :: "user_row \<Rightarrow> User" where
  "toUser row = \<lparr>usr_ID = u_id row, usr_Email = u_email row, usr_Role = u_role row,
     usr_IsActive = (u_is_active row = 1), usr_CreatedAt = u_created_at row,
     usr_LastLoginAt = (case u_last_login_at row of None \<Rightarrow> '''' | Some t \<Rightarrow> t), usr_HasMFA = False\<rparr>"

definition users_logAudit :: "ext \<Rightarrow> string \<Rightarrow> string \<Rightarrow> string \<Rightarrow> string \<Rightarrow> unit action" where
  "users_logAudit E requestorID actionType resource res = do {
     i \<leftarrow> new_uuid E;
     _ \<leftarrow> db_write (q_CreateAuditEntry i (nullstr requestorID) None None actionType (nullstr resource) res
            None None ''info'');
     ret ()
   }"

definition users_List :: "ext \<Rightarrow> (users_error + User list) action" where
  "users_List E = do {
     rows \<leftarrow> db_read q_ListUsers;
     (case rows of
        Inl _ \<Rightarrow> ret (Inl UsersInternal)
      | Inr rows \<Rightarrow> ret (Inr (map (\<lambda>row. toUser (scan_user (datetime_text E) row)) rows)))
   }"

definition users_Get :: "ext \<Rightarrow> string \<Rightarrow> (users_error + User) action" where
  "users_Get E userID = do {
     row \<leftarrow> db_read (q_GetUserByID userID);
     (case row of
        Inl NoRows \<Rightarrow> ret (Inl ErrUserNotFound)
      | Inl _ \<Rightarrow> ret (Inl UsersInternal)
      | Inr row \<Rightarrow> do {
          let u = toUser (scan_user (datetime_text E) row);
          mfa \<leftarrow> db_read (q_ListMFACredentialsByUserID userID);
          (case mfa of
             Inl _ \<Rightarrow> ret (Inr u)
           | Inr mfa \<Rightarrow> ret (Inr (u\<lparr>usr_HasMFA := length mfa > 0\<rparr>)))
        })
   }"

definition users_Create :: "ext \<Rightarrow> CreateParams \<Rightarrow> (users_error + User) action" where
  "users_Create E params =
     (if \<not> isValidEmail (cp_Email params) then ret (Inl ErrInvalidEmail)
      else if length (cp_Password params) < minPasswordLen then ret (Inl ErrPasswordTooShort)
      else if \<not> validRoles (cp_Role params) then ret (Inl ErrInvalidRole)
      else do {
        taken \<leftarrow> db_read (q_GetUserByEmail (to_lower (cp_Email params)));
        (case taken of
           Inr _ \<Rightarrow> ret (Inl ErrEmailTaken)
         | Inl _ \<Rightarrow> do {
             hash \<leftarrow> HashPassword E (cp_Password params);
             (case hash of
                None \<Rightarrow> ret (Inl UsersInternal)
              | Some hash \<Rightarrow> do {
                  i \<leftarrow> new_uuid E;
                  row \<leftarrow> db_write (q_CreateUser i (to_lower (trim_space (cp_Email params))) hash
                           (cp_Role params) None);
                  (case row of
                     Inl _ \<Rightarrow> ret (Inl UsersInternal)
                   | Inr row \<Rightarrow> do {
                       users_logAudit E (cp_RequestorID params) ''user.created'' (u_id row) ''success'';
                       ret (Inr (toUser (scan_user (returning_text E) row)))
                     })
                })
           })
      })"

definition checkLastAdmin :: "string \<Rightarrow> (users_error + unit) action" where
  "checkLastAdmin userID = do {
     user \<leftarrow> db_read (q_GetUserByID userID);
     (case user of
        Inl _ \<Rightarrow> ret (Inl ErrUserNotFound)
      | Inr user \<Rightarrow>
          if u_role user \<noteq> ''admin'' then ret (Inr ())
          else do {
            us \<leftarrow> db_read q_ListUsers;
            (case us of
               Inl _ \<Rightarrow> ret (Inl UsersInternal)
             | Inr us \<Rightarrow>
                 let adminCount = length (filter (\<lambda>u. u_role u = ''admin'' \<and> u_is_active u = 1) us)
                 in if adminCount \<le> 1 then ret (Inl ErrLastAdmin) else ret (Inr ()))
          })
   }"

definition users_UpdateRole :: "ext \<Rightarrow> UpdateRoleParams \<Rightarrow> (users_error + User) action" where
  "users_UpdateRole E params =
     (if \<not> validRoles (up_NewRole params) then ret (Inl ErrInvalidRole)
      else do {
        guard \<leftarrow> (if up_NewRole params = ''viewer'' then checkLastAdmin (up_UserID params) else ret (Inr ()));
        (case guard of
           Inl e \<Rightarrow> ret (Inl e)
         | Inr _ \<Rightarrow> do {
             row \<leftarrow> db_write (q_UpdateUserRole (up_NewRole params) (up_UserID params));
             (case row of
                Inl NoRows \<Rightarrow> ret (Inl ErrUserNotFound)
              | Inl _ \<Rightarrow> ret (Inl UsersInternal)
              | Inr row \<Rightarrow> do {
                  users_logAudit E (up_RequestorID params) ''user.role_changed'' (up_UserID params) ''success'';
                  ret (Inr (toUser (scan_user (returning_text E) row)))
                })
           })
      })"

definition users_Deactivate :: "ext \<Rightarrow> string \<Rightarrow> string \<Rightarrow> (users_error + unit) action" where
  "users_Deactivate E userID requestorID =
     (if userID = requestorID then ret (Inl ErrCannotDeleteSelf)
      else do {
        guard \<leftarrow> checkLastAdmin userID;
        (case guard of
           Inl e \<Rightarrow> ret (Inl e)
         | Inr _ \<Rightarrow> do {
             r \<leftarrow> db_write (q_DeactivateUser userID);
             (case r of
                Inl _ \<Rightarrow> ret (Inl UsersInternal)
              | Inr _ \<Rightarrow> do {
                  _ \<leftarrow> db_write (q_RevokeAllUserSessions userID);
                  users_logAudit E requestorID ''user.deactivated'' userID ''success'';
                  ret (Inr ())
                })
           })
      })"

section \<open>Statements only\<close>

lemma users_logAudit_steady [steady_intros]: "steady (users_logAudit E u ac re rs)"
  unfolding users_logAudit_def by (intro steady_intros)

lemma users_List_steady [steady_intros]: "steady (users_List E)"
  unfolding users_List_def by (intro steady_intros)

lemma users_Get_steady [steady_intros]: "steady (users_Get E u)"
  unfolding users_Get_def by (intro steady_intros)

lemma users_Create_steady [steady_intros]: "steady (users_Create E ps)"
  unfolding users_Create_def by (intro steady_intros)

lemma checkLastAdmin_silent [silent_intros]: "silent (checkLastAdmin u)"
  unfolding checkLastAdmin_def
  by (intro silent_intros)

lemmas checkLastAdmin_steady [steady_intros] = checkLastAdmin_silent [THEN silent_steady]

lemma users_UpdateRole_steady [steady_intros]: "steady (users_UpdateRole E ps)"
  unfolding users_UpdateRole_def by (intro steady_intros)

lemma users_Deactivate_steady [steady_intros]: "steady (users_Deactivate E u r)"
  unfolding users_Deactivate_def by (intro steady_intros)

interpretation users_audit: audit_sink "\<lambda>(u, ac, re, rs). users_logAudit E u ac re rs" for E
proof unfold_locales
  fix p :: "string \<times> string \<times> string \<times> string"
  show "logs_audit (case p of (u, ac, re, rs) \<Rightarrow> users_logAudit E u ac re rs)"
    by (cases p) (simp add: logs_audit_def users_logAudit_steady, simp only: users_logAudit_def audit_only_entry, simp)
qed

lemma users_logAudit_frame: "run_state (users_logAudit E u ac re rs) w = (x, w') \<Longrightarrow> audit_only w w'"
  using users_audit.log_frame [of E "(u, ac, re, rs)"] by simp

section \<open>Effects\<close>

lemma checkLastAdmin_effect:
  assumes "run_state (checkLastAdmin u) w = (r, w')"
  shows "\<exists>fs. w' = w\<lparr>faults := fs\<rparr>" "faults w = [] \<Longrightarrow> w' = w"
    "r = Inr () \<Longrightarrow> \<exists>row. row \<in> set (users (db w)) \<and> u_id row = u \<and> u_is_active row = 1 \<and>
       (u_role row = ''admin'' \<longrightarrow> 2 \<le> length (filter (\<lambda>u. u_role u = ''admin'' \<and> u_is_active u = 1) (users (db w))))"
proof -
  obtain x w1 where x: "run_state (db_read (q_GetUserByID u)) w = (x, w1)" by fastforce
  obtain y w2 where y: "run_state (db_read q_ListUsers) w1 = (y, w2)" by fastforce
  from db_read_frame [OF x] obtain fs where w1: "w1 = w\<lparr>faults := fs\<rparr>" "faults w = [] \<Longrightarrow> w1 = w"
    and x': "x = Inl DriverFault \<or> x = q_GetUserByID u (db w)" by blast
  from db_read_frame [OF y] obtain fs' where w2: "w2 = w1\<lparr>faults := fs'\<rparr>" "faults w1 = [] \<Longrightarrow> w2 = w1"
    and y': "y = Inl DriverFault \<or> y = q_ListUsers (db w1)" by blast
  have run: "(r, w') = (case x of Inl _ \<Rightarrow> (Inl ErrUserNotFound, w1)
     | Inr row \<Rightarrow> if u_role row \<noteq> ''admin'' then (Inr (), w1)
         else (case y of Inl _ \<Rightarrow> (Inl UsersInternal, w2)
           | Inr us \<Rightarrow> (if length (filter (\<lambda>u. u_role u = ''admin'' \<and> u_is_active u = 1) us) \<le> 1
               then Inl ErrLastAdmin else Inr (), w2)))"
    using assms x y unfolding checkLastAdmin_def by (cases x; cases y) (auto simp: Let_def split: if_splits)
  show "\<exists>fs. w' = w\<lparr>faults := fs\<rparr>" using run w1 w2 by (auto split: sum.splits if_splits)
  show "faults w = [] \<Longrightarrow> w' = w" using run w1 w2 by (auto split: sum.splits if_splits)
  show "r = Inr () \<Longrightarrow> \<exists>row. row \<in> set (users (db w)) \<and> u_id row = u \<and> u_is_active row = 1 \<and>
       (u_role row = ''admin'' \<longrightarrow> 2 \<le> length (filter (\<lambda>u. u_role u = ''admin'' \<and> u_is_active u = 1) (users (db w))))"
    using run x' y' w1 first_row_Inr
    by (fastforce simp: q_GetUserByID_def q_ListUsers_def filter_newest_first split: sum.splits if_splits)
qed

lemma users_Create_effect:
  assumes "run_state (users_Create E ps) w = (r, w')"
  shows "limiter w' = limiter w" "clock w' = clock w" "faults w = [] \<Longrightarrow> faults w' = []"
    "case r of
      Inl e \<Rightarrow> users (db w') = users (db w)
    | Inr u \<Rightarrow> \<exists>row h. users (db w') = users (db w) @ [row] \<and> usr_ID u = u_id row \<and> u_is_active row = 1
        \<and> u_email row = to_lower (trim_space (cp_Email ps)) \<and> u_role row = cp_Role ps \<and> u_password_hash row = h
        \<and> (\<exists>v v'. run_state (HashPassword E (cp_Password ps)) v = (Some h, v') \<and> rand_ctr v = rand_ctr w)"
proof -
  obtain x w1 where x: "run_state (db_read (q_GetUserByEmail (to_lower (cp_Email ps)))) w = (x, w1)" by fastforce
  obtain h w2 where h: "run_state (HashPassword E (cp_Password ps)) w1 = (h, w2)" by fastforce
  obtain y w3 where y: "run_state (db_write (q_CreateUser (uuid E (uuid_ctr w2))
      (to_lower (trim_space (cp_Email ps))) (the h) (cp_Role ps) None)) (w2\<lparr>uuid_ctr := uuid_ctr w2 + 1\<rparr>) = (y, w3)"
    by fastforce
  have w1: "db w1 = db w" "rand_ctr w1 = rand_ctr w" "limiter w1 = limiter w" "clock w1 = clock w"
    "faults w = [] \<Longrightarrow> faults w1 = []" using db_read_frame [OF x] by auto
  have w2: "db w2 = db w" "limiter w2 = limiter w" "clock w2 = clock w" "faults w = [] \<Longrightarrow> faults w2 = []"
    using h w1 by (auto simp: run_HashPassword)
  have log: "audit_only w3 (snd (run_state (users_logAudit E u ac re rs) w3))" for u ac re rs
    using users_logAudit_frame [of E u ac re rs w3] by (metis prod.collapse)
  have f3: "limiter w3 = limiter w" "clock w3 = clock w" "faults w = [] \<Longrightarrow> faults w3 = []"
    using db_write_frame [OF y] w2 by auto
  have w3: "case y of Inl _ \<Rightarrow> users (db w3) = users (db w)
     | Inr row \<Rightarrow> users (db w3) = users (db w) @ [row] \<and> u_email row = to_lower (trim_space (cp_Email ps))
         \<and> u_role row = cp_Role ps \<and> u_password_hash row = the h \<and> u_is_active row = 1"
    using db_write_frame [OF y] by (auto simp: q_CreateUser_def insert_row_def w2 split: sum.splits if_splits)
  have run: "(r, w') = (if \<not> isValidEmail (cp_Email ps) then (Inl ErrInvalidEmail, w)
      else if length (cp_Password ps) < minPasswordLen then (Inl ErrPasswordTooShort, w)
      else if \<not> validRoles (cp_Role ps) then (Inl ErrInvalidRole, w)
      else (case x of Inr _ \<Rightarrow> (Inl ErrEmailTaken, w1)
        | Inl _ \<Rightarrow> (case h of None \<Rightarrow> (Inl UsersInternal, w2)
            | Some _ \<Rightarrow> (case y of Inl _ \<Rightarrow> (Inl UsersInternal, w3)
                | Inr row \<Rightarrow> (Inr (toUser (scan_user (returning_text E) row)),
                    snd (run_state (users_logAudit E (cp_RequestorID ps) ''user.created'' (u_id row) ''success'') w3))))))"
    using assms x h y unfolding users_Create_def
    by (cases x; cases h; cases y) (auto split: if_splits prod.splits)
  show "limiter w' = limiter w" "clock w' = clock w" "faults w = [] \<Longrightarrow> faults w' = []"
    using run w1 w2 f3 audit_onlyD(7,8,10) [OF log] by (auto split: if_splits sum.splits option.splits)
  show "case r of
      Inl e \<Rightarrow> users (db w') = users (db w)
    | Inr u \<Rightarrow> \<exists>row h. users (db w') = users (db w) @ [row] \<and> usr_ID u = u_id row \<and> u_is_active row = 1
        \<and> u_email row = to_lower (trim_space (cp_Email ps)) \<and> u_role row = cp_Role ps \<and> u_password_hash row = h
        \<and> (\<exists>v v'. run_state (HashPassword E (cp_Password ps)) v = (Some h, v') \<and> rand_ctr v = rand_ctr w)"
    using run w1(1,2) w2(1) w3 h audit_onlyD(1) [OF log]
    by (auto simp: toUser_def scan_user_def split: if_splits sum.splits option.splits)
qed

text \<open>The two writes that can take an administrator away.\<close>

lemma users_UpdateRole_effect:
  assumes "run_state (users_UpdateRole E ps) w = (r, w')"
  shows "case r of
      Inl e \<Rightarrow> users (db w') = users (db w)
    | Inr u \<Rightarrow> validRoles (up_NewRole ps)
        \<and> users (db w') = map (\<lambda>u. if u_id u = up_UserID ps \<and> u_is_active u = 1
            then u\<lparr>u_role := up_NewRole ps\<rparr> else u) (users (db w))
        \<and> (up_NewRole ps = ''viewer'' \<longrightarrow> (\<exists>v v'. run_state (checkLastAdmin (up_UserID ps)) v = (Inr (), v') \<and> db v = db w))"
proof -
  let ?guard = "if up_NewRole ps = ''viewer'' then checkLastAdmin (up_UserID ps) else ret (Inr ())"
  obtain g w1 where g: "run_state ?guard w = (g, w1)" by fastforce
  obtain x w2 where x: "run_state (db_write (q_UpdateUserRole (up_NewRole ps) (up_UserID ps))) w1 = (x, w2)" by fastforce
  have w1: "db w1 = db w" using g checkLastAdmin_effect(1) by (fastforce split: if_splits)
  have w2: "case x of Inl _ \<Rightarrow> users (db w2) = users (db w)
     | Inr row \<Rightarrow> users (db w2) = map (\<lambda>u. if u_id u = up_UserID ps \<and> u_is_active u = 1
            then u\<lparr>u_role := up_NewRole ps\<rparr> else u) (users (db w))"
    using db_write_frame [OF x] w1
    by (auto simp: q_UpdateUserRole_def update_rows_def split: sum.splits if_splits)
  have log: "audit_only w2 (snd (run_state (users_logAudit E u ac re rs) w2))" for u ac re rs
    using users_logAudit_frame [of E u ac re rs w2] by (metis prod.collapse)
  have run: "(r, w') = (if \<not> validRoles (up_NewRole ps) then (Inl ErrInvalidRole, w)
      else (case g of Inl e \<Rightarrow> (Inl e, w1)
        | Inr _ \<Rightarrow> (case x of Inl e \<Rightarrow> (Inl (if e = NoRows then ErrUserNotFound else UsersInternal), w2)
            | Inr row \<Rightarrow> (Inr (toUser (scan_user (returning_text E) row)),
                snd (run_state (users_logAudit E (up_RequestorID ps) ''user.role_changed'' (up_UserID ps) ''success'') w2)))))"
    using assms g x unfolding users_UpdateRole_def
    by (cases "validRoles (up_NewRole ps)"; cases g; cases x)
      (auto split: sql_error.splits prod.splits)
  show ?thesis
    using run w1 w2 g audit_onlyD(1) [OF log] by (fastforce split: if_splits sum.splits)
qed

lemma users_Deactivate_effect:
  assumes "run_state (users_Deactivate E u rq) w = (r, w')"
  shows "clock w' = clock w" "limiter w' = limiter w" "creds (db w') = creds (db w)" "faults w = [] \<Longrightarrow> faults w' = []"
    "users (db w') = users (db w) \<or> users (db w') = map (\<lambda>x. if u_id x = u then x\<lparr>u_is_active := 0\<rparr> else x) (users (db w))
       \<and> u \<noteq> rq \<and> (\<exists>v v'. run_state (checkLastAdmin u) v = (Inr (), v') \<and> db v = db w)"
    "r = Inr () \<Longrightarrow> users (db w') = map (\<lambda>x. if u_id x = u then x\<lparr>u_is_active := 0\<rparr> else x) (users (db w))"
    "r = Inr () \<Longrightarrow> faults w = [] \<Longrightarrow> sessions (db w') = map (\<lambda>s. if s_user_id s = u \<and> s_revoked_at s = None
       then s\<lparr>s_revoked_at := Some (current_timestamp (clock w))\<rparr> else s) (sessions (db w))"
proof -
  obtain g w1 where g: "run_state (checkLastAdmin u) w = (g, w1)" by fastforce
  obtain x w2 where x: "run_state (db_write (q_DeactivateUser u)) w1 = (x, w2)" by fastforce
  obtain y w3 where y: "run_state (db_write (q_RevokeAllUserSessions u)) w2 = (y, w3)" by fastforce
  note eff = checkLastAdmin_effect [OF g] db_write_frame [OF x] db_write_frame [OF y]
  have log: "audit_only w3 (snd (run_state (users_logAudit E p ac re rs) w3))" for p ac re rs
    using users_logAudit_frame [of E p ac re rs w3] by (metis prod.collapse)
  have run: "(r, w') = (if u = rq then (Inl ErrCannotDeleteSelf, w)
      else (case g of Inl e \<Rightarrow> (Inl e, w1)
        | Inr _ \<Rightarrow> (case x of Inl e \<Rightarrow> (Inl UsersInternal, w2)
            | Inr _ \<Rightarrow> (Inr (), snd (run_state (users_logAudit E rq ''user.deactivated'' u ''success'') w3)))))"
    using assms g x y unfolding users_Deactivate_def
    by (cases "u = rq"; cases g; cases x) (auto split: prod.splits)
  have w1: "db w1 = db w" "clock w1 = clock w" "limiter w1 = limiter w" "faults w = [] \<Longrightarrow> faults w1 = []"
    using eff(1,2) by auto
  have w2: "clock w2 = clock w" "limiter w2 = limiter w" "faults w = [] \<Longrightarrow> faults w2 = []"
    using eff(4) w1 by auto
  have q: "q_DeactivateUser u now d = Inr (z, d') \<Longrightarrow> creds d' = creds d \<and> sessions d' = sessions d
      \<and> users d' = map (\<lambda>x. if u_id x = u then x\<lparr>u_is_active := 0\<rparr> else x) (users d)"
    "q_DeactivateUser u now d \<noteq> Inl e" for now d z d' e
    by (auto simp: q_DeactivateUser_def update_rows_def)
  have d2: "creds (db w2) = creds (db w) \<and> sessions (db w2) = sessions (db w)
      \<and> (case x of Inl _ \<Rightarrow> users (db w2) = users (db w)
         | Inr _ \<Rightarrow> users (db w2) = map (\<lambda>x. if u_id x = u then x\<lparr>u_is_active := 0\<rparr> else x) (users (db w)))"
    using eff(4) w1(1) q by (cases x) auto
  have w3: "clock w3 = clock w" "limiter w3 = limiter w" "faults w = [] \<Longrightarrow> faults w3 = []"
    using eff(5) w2 by auto
  have q': "q_RevokeAllUserSessions u now d = Inr (z, d') \<Longrightarrow> creds d' = creds d \<and> users d' = users d
      \<and> sessions d' = map (\<lambda>s. if s_user_id s = u \<and> s_revoked_at s = None
           then s\<lparr>s_revoked_at := Some now\<rparr> else s) (sessions d)" for now d z d'
    by (auto simp: q_RevokeAllUserSessions_def update_rows_def)
  have d3: "creds (db w3) = creds (db w) \<and> users (db w3) = users (db w2)"
    using eff(5) d2 q' by (cases y) auto
  have s3: "faults w = [] \<Longrightarrow> sessions (db w3) = map (\<lambda>s. if s_user_id s = u \<and> s_revoked_at s = None
       then s\<lparr>s_revoked_at := Some (current_timestamp (clock w))\<rparr> else s) (sessions (db w))"
    using y w2 d2 by (auto simp: q_RevokeAllUserSessions_def update_rows_def)
  note log = audit_onlyD [OF log]
  show "clock w' = clock w" "limiter w' = limiter w" "creds (db w') = creds (db w)" "faults w = [] \<Longrightarrow> faults w' = []"
    using run w1 w2 w3 d2 d3 log by (auto split: if_splits sum.splits)
  show "users (db w') = users (db w) \<or> users (db w') = map (\<lambda>x. if u_id x = u then x\<lparr>u_is_active := 0\<rparr> else x) (users (db w))
       \<and> u \<noteq> rq \<and> (\<exists>v v'. run_state (checkLastAdmin u) v = (Inr (), v') \<and> db v = db w)"
  proof (cases "u \<noteq> rq \<and> is_ok g \<and> is_ok x")
    case True
    then have "\<exists>v v'. run_state (checkLastAdmin u) v = (Inr (), v') \<and> db v = db w"
      using g by (cases g) auto
    then show ?thesis using True run d2 d3 log(1) by (auto split: sum.splits)
  next
    case False
    then show ?thesis using run w1(1) d2 by (auto split: if_splits sum.splits)
  qed
  show "r = Inr () \<Longrightarrow> users (db w') = map (\<lambda>x. if u_id x = u then x\<lparr>u_is_active := 0\<rparr> else x) (users (db w))"
    using run d2 d3 s3 log by (auto split: if_splits sum.splits)
  show "r = Inr () \<Longrightarrow> faults w = [] \<Longrightarrow> sessions (db w') = map (\<lambda>s. if s_user_id s = u \<and> s_revoked_at s = None
       then s\<lparr>s_revoked_at := Some (current_timestamp (clock w))\<rparr> else s) (sessions (db w))"
    using run d2 d3 s3 log by (auto split: if_splits sum.splits)
qed

section \<open>There is always an administrator\<close>

definition has_admin :: "database \<Rightarrow> bool" where
  "has_admin d = (\<exists>u \<in> set (users d). u_role u = ''admin'' \<and> u_is_active u = 1)"

lemma two_elements: "2 \<le> length ys \<Longrightarrow> \<exists>a b zs. ys = a # b # zs"
  by (cases ys; cases "tl ys") auto

text \<open>With two administrators and unique identifiers, one of them is not \<open>u\<close>.\<close>

lemma other_admin:
  assumes "unique_keys u_id us" "2 \<le> length (filter P us)"
  shows "\<exists>x \<in> set us. P x \<and> u_id x \<noteq> u"
proof (rule ccontr)
  assume "\<not> ?thesis"
  then have same: "\<forall>x \<in> set (filter P us). u_id x = u" by simp
  have dist: "distinct (map u_id (filter P us))" using assms(1) by (simp add: unique_keys_def distinct_map_filter)
  from two_elements [OF assms(2)] obtain a b zs where eq: "filter P us = a # b # zs" by blast
  show False using same dist unfolding eq by simp
qed

lemma guard_leaves_admin:
  assumes "run_state (checkLastAdmin u) v = (Inr (), v')" "unique_keys u_id (users (db v))" "has_admin (db v)"
  shows "\<exists>x \<in> set (users (db v)). u_role x = ''admin'' \<and> u_is_active x = 1 \<and> u_id x \<noteq> u"
proof -
  from checkLastAdmin_effect(3) [OF assms(1) refl] obtain row where
    row: "row \<in> set (users (db v))" "u_id row = u"
    and two: "u_role row = ''admin'' \<longrightarrow> 2 \<le> length (filter (\<lambda>u. u_role u = ''admin'' \<and> u_is_active u = 1) (users (db v)))"
    by blast
  show ?thesis
  proof (cases "u_role row = ''admin''")
    case True
    with two other_admin [OF assms(2)] show ?thesis by blast
  next
    case False
    from assms(3) obtain x where "x \<in> set (users (db v))" "u_role x = ''admin''" "u_is_active x = 1"
      by (auto simp: has_admin_def)
    with False row have "u_id x \<noteq> u" using unique_keysD [OF assms(2), of x row] by auto
    with \<open>x \<in> set (users (db v))\<close> \<open>u_role x = ''admin''\<close> \<open>u_is_active x = 1\<close> show ?thesis by blast
  qed
qed

lemma has_admin_append: "has_admin d \<Longrightarrow> users d' = users d @ us \<Longrightarrow> has_admin d'"
  by (auto simp: has_admin_def)

lemma has_admin_update:
  assumes "users d' = map (\<lambda>x. if P x then f x else x) (users d)"
    and "x \<in> set (users d)" "u_role x = ''admin''" "u_is_active x = 1"
    and "P x \<Longrightarrow> u_role (f x) = ''admin'' \<and> u_is_active (f x) = 1"
  shows "has_admin d'"
proof -
  have "(if P x then f x else x) \<in> set (users d')" using assms(1,2) by auto
  then show ?thesis using assms(3-5) unfolding has_admin_def by (cases "P x") auto
qed

lemma users_Create_admin:
  "run_state (users_Create E ps) w = (r, w') \<Longrightarrow> has_admin (db w) \<Longrightarrow> has_admin (db w')"
  by (drule users_Create_effect(4)) (auto simp: has_admin_def split: sum.splits)

lemma users_UpdateRole_admin:
  assumes run: "run_state (users_UpdateRole E ps) w = (r, w')"
    and "unique_keys u_id (users (db w))" "has_admin (db w)"
  shows "has_admin (db w')"
proof (cases r)
  case (Inl e)
  then show ?thesis using users_UpdateRole_effect [OF run] assms(3) by (auto simp: has_admin_def)
next
  case (Inr u)
  with users_UpdateRole_effect [OF run] have upd: "users (db w') = map (\<lambda>x. if u_id x = up_UserID ps \<and> u_is_active x = 1
      then x\<lparr>u_role := up_NewRole ps\<rparr> else x) (users (db w))" and role: "validRoles (up_NewRole ps)"
    and guard: "up_NewRole ps = ''viewer'' \<longrightarrow> (\<exists>v v'. run_state (checkLastAdmin (up_UserID ps)) v = (Inr (), v') \<and> db v = db w)"
    by auto
  show ?thesis
  proof (cases "up_NewRole ps = ''viewer''")
    case True
    with guard guard_leaves_admin assms(2,3) obtain x where
      "x \<in> set (users (db w))" "u_role x = ''admin''" "u_is_active x = 1" "u_id x \<noteq> up_UserID ps" by metis
    then show ?thesis by (intro has_admin_update [OF upd, of x]) auto
  next
    case False
    from assms(3) obtain x where "x \<in> set (users (db w))" "u_role x = ''admin''" "u_is_active x = 1"
      by (auto simp: has_admin_def)
    with False role show ?thesis by (intro has_admin_update [OF upd, of x]) (auto simp: validRoles_def)
  qed
qed

lemma users_Deactivate_admin:
  assumes run: "run_state (users_Deactivate E u rq) w = (r, w')"
    and "unique_keys u_id (users (db w))" "has_admin (db w)"
  shows "has_admin (db w')"
proof (cases "users (db w') = users (db w)")
  case True
  then show ?thesis using assms(3) by (simp add: has_admin_def)
next
  case False
  with users_Deactivate_effect(5) [OF run] obtain v v' where
    upd: "users (db w') = map (\<lambda>x. if u_id x = u then x\<lparr>u_is_active := 0\<rparr> else x) (users (db w))"
    and guard: "run_state (checkLastAdmin u) v = (Inr (), v')" "db v = db w" by blast
  with guard_leaves_admin [OF guard(1)] assms(2,3) obtain x where
    "x \<in> set (users (db w))" "u_role x = ''admin''" "u_is_active x = 1" "u_id x \<noteq> u" by metis
  then show ?thesis by (intro has_admin_update [OF upd, of x]) auto
qed

text \<open>The requests of the user administration, one after another.\<close>

datatype users_op = OpCreate CreateParams | OpUpdateRole UpdateRoleParams | OpDeactivate string string

fun run_users_op :: "ext \<Rightarrow> users_op \<Rightarrow> world \<Rightarrow> world" where
  "run_users_op E (OpCreate ps) w = snd (run_state (users_Create E ps) w)"
| "run_users_op E (OpUpdateRole ps) w = snd (run_state (users_UpdateRole E ps) w)"
| "run_users_op E (OpDeactivate u rq) w = snd (run_state (users_Deactivate E u rq) w)"

lemma run_users_op_ok: "db_ok (db w) \<Longrightarrow> db_ok (db (run_users_op E op w))"
  by (cases op) (auto intro: steady_db_ok [OF _ prod.collapse [symmetric]] steady_intros)

lemma run_users_op_admin: "db_ok (db w) \<Longrightarrow> has_admin (db w) \<Longrightarrow> has_admin (db (run_users_op E op w))"
  by (cases op)
    (auto simp: db_ok_def users_ok_def intro: users_Create_admin [OF prod.collapse [symmetric]]
      users_UpdateRole_admin [OF prod.collapse [symmetric]] users_Deactivate_admin [OF prod.collapse [symmetric]])

text \<open>The user administration never locks everybody out. From any consistent database with an
  active administrator, any sequence of creations, role changes and deactivations, under any driver
  faults, leaves a consistent database with an active administrator.\<close>

theorem admin_survives:
  assumes "db_ok (db w)" "has_admin (db w)"
  shows "db_ok (db (fold (run_users_op E) ops w)) \<and> has_admin (db (fold (run_users_op E) ops w))"
  using assms by (induction ops arbitrary: w) (simp_all add: run_users_op_ok run_users_op_admin)

theorem admin_survives_witness:
  "has_admin (db (fold (run_users_op demo_ext) [OpDeactivate ''u1'' ''u2'',
     OpUpdateRole \<lparr>up_UserID = ''u1'', up_NewRole = ''viewer'', up_RequestorID = ''u1''\<rparr>] demo_world))"
  by (rule admin_survives [THEN conjunct2]) (simp_all add: demo_db_ok has_admin_def)

section \<open>Users and logins\<close>

text \<open>C25: A deactivated user is out: after a successful deactivation (no driver fault) every
  session of the user is revoked, and no login and no refresh, with whatever password or token,
  is answered for that user any more.\<close>

theorem deactivated_locked_out:
  assumes run: "run_state (users_Deactivate E u rq) w = (Inr (), w')" and "faults w = []"
  shows "(\<forall>s \<in> set (sessions (db w')). s_user_id s = u \<longrightarrow> s_revoked_at s \<noteq> None)
    \<and> (\<forall>cfg req r. fst (run_state (Login E cfg req) w') = Inr r \<longrightarrow> lr_UserID r \<noteq> u)
    \<and> (\<forall>cfg t ip ua r. fst (run_state (Refresh E cfg t ip ua) w') = Inr r \<longrightarrow> lr_UserID r \<noteq> u)"
proof (intro conjI allI impI)
  note eff = users_Deactivate_effect [OF run]
  show "\<forall>s \<in> set (sessions (db w')). s_user_id s = u \<longrightarrow> s_revoked_at s \<noteq> None"
    unfolding eff(7) [OF refl assms(2)] set_map ball_simps by (simp split: if_split)
  have inactive: "u_is_active x = 0" if "x \<in> set (users (db w'))" "u_id x = u" for x
  proof -
    from that(1) obtain y where "x = (if u_id y = u then y\<lparr>u_is_active := 0\<rparr> else y)"
      unfolding eff(6) [OF refl] set_map by (rule imageE)
    with that(2) show ?thesis by (simp split: if_splits)
  qed
  fix cfg
  show "lr_UserID r \<noteq> u" if r: "fst (run_state (Login E cfg req) w') = Inr r" for req r
  proof -
    from r obtain w2 where "run_state (Login E cfg req) w' = (Inr r, w2)" by (metis prod.collapse)
    then obtain user w1 where user: "user \<in> set (users (db w'))" "u_is_active user = 1"
      and "run_state (login_verified E cfg req user) w1 = (Inr r, w2)" by (rule Login_Inr)
    with login_verified_effect(2) have "lr_UserID r = u_id user" by blast
    with user inactive show ?thesis by force
  qed
  show "lr_UserID r \<noteq> u" if r: "fst (run_state (Refresh E cfg t ip ua) w') = Inr r" for t ip ua r
  proof -
    from r obtain w2 where "run_state (Refresh E cfg t ip ua) w' = (Inr r, w2)" by (metis prod.collapse)
    then obtain k user w1 agent where user: "q_GetUserByID k (db w') = Inr user"
      and "run_state (createSession E cfg (u_id user) (u_email user) (u_role user) ip agent) w1 = (Inr r, w2)"
      by (rule Refresh_Inr) blast
    from createSession_effect(5) [OF this(2)] have "lr_UserID r = u_id user" by simp
    moreover have "user \<in> set (users (db w'))" "u_is_active user = 1"
      using first_row_Inr [OF user [unfolded q_GetUserByID_def]] by simp_all
    ultimately show ?thesis using inactive by force
  qed
qed

definition demo_user2 :: user_row where
  "demo_user2 = demo_user\<lparr>u_id := ''u2'', u_email := ''c@d.co''\<rparr>"

definition demo_two :: world where
  "demo_two = demo_world\<lparr>db := demo_db\<lparr>users := [demo_user, demo_user2]\<rparr>\<rparr>"

lemma demo_two_simps [simp]:
  "u_id demo_user2 = ''u2''" "u_is_active demo_user2 = 1" "u_role demo_user2 = ''admin''"
  "users (db demo_two) = [demo_user, demo_user2]" "faults demo_two = []" "clock demo_two = second"
  by (simp_all add: demo_user2_def demo_two_def)

lemma demo_deactivate: "\<exists>w'. run_state (users_Deactivate demo_ext ''u1'' ''u2'') demo_two = (Inr (), w')"
  by (simp add: users_Deactivate_def checkLastAdmin_def q_GetUserByID_def first_row_def q_ListUsers_def
      filter_newest_first q_DeactivateUser_def q_RevokeAllUserSessions_def Let_def split: prod.split)

theorem deactivated_locked_out_witness:
  "\<exists>w'. run_state (users_Deactivate demo_ext ''u1'' ''u2'') demo_two = (Inr (), w')
     \<and> (\<forall>r. fst (run_state (Login demo_ext demo_cfg demo_login) w') = Inr r \<longrightarrow> lr_UserID r \<noteq> ''u1'')"
proof -
  from demo_deactivate obtain w' where run: "run_state (users_Deactivate demo_ext ''u1'' ''u2'') demo_two = (Inr (), w')"
    by blast
  from deactivated_locked_out [OF this] run show ?thesis by auto
qed

text \<open>Creating an account and logging in fit together: the new account has the lower-cased,
  trimmed address and the asked role, and a login with that address and any password, from an address
  that is not blocked, gets past the password check exactly when Argon2id gives the same key for the
  two passwords under the stored salt. The database is consistent and no driver fault is ahead.\<close>

theorem created_user_logs_in:
  assumes run: "run_state (users_Create E ps) w = (Inr u, w')" and "db_ok (db w)" "faults w = []"
    and "\<forall>p s. length (argon2_key E p s argonTime argonMemory argonThreads argonKeyLen) = argonKeyLen"
    and "lq_Email req = to_lower (trim_space (cp_Email ps))"
    and "\<not> fst (IsBlocked (limiter w') (lq_IPAddress req) (clock w') (clock w'))"
  shows "\<exists>row \<in> set (users (db w')). u_id row = usr_ID u \<and> u_email row = lq_Email req \<and> u_role row = cp_Role ps
    \<and> (\<exists>salt. rand_bytes E (rand_ctr w) argonSaltLen = Some salt
         \<and> (if argon2_key E (cp_Password ps) salt argonTime argonMemory argonThreads argonKeyLen
               = argon2_key E (lq_Password req) salt argonTime argonMemory argonThreads argonKeyLen
            then run_state (Login E cfg req) w' = run_state (login_verified E cfg req row) w'
            else fst (run_state (Login E cfg req) w') = Inl ErrInvalidCredentials))"
proof -
  note eff = users_Create_effect [OF run]
  from eff(4) obtain row h v v' where new: "users (db w') = users (db w) @ [row]" "usr_ID u = u_id row"
    and row': "u_is_active row = 1" "u_email row = to_lower (trim_space (cp_Email ps))" "u_role row = cp_Role ps"
      "u_password_hash row = h"
    and h: "run_state (HashPassword E (cp_Password ps)) v = (Some h, v')" "rand_ctr v = rand_ctr w"
    by auto
  then have row: "row \<in> set (users (db w'))" "u_id row = usr_ID u" "u_is_active row = 1"
    "u_email row = lq_Email req" "u_role row = cp_Role ps" "u_password_hash row = h" using assms(5) by auto
  from h obtain salt where salt: "rand_bytes E (rand_ctr w) argonSaltLen = Some salt"
    "h = encode_hash salt (argon2_key E (cp_Password ps) salt argonTime argonMemory argonThreads argonKeyLen)"
    by (auto simp: run_HashPassword)
  have "db_ok (db w')" by (rule steady_db_ok [OF users_Create_steady run assms(2)])
  then have "unique_keys u_email (users (db w'))" by (simp add: db_ok_def users_ok_def)
  then have found: "q_GetUserByEmail (lq_Email req) (db w') = Inr row"
    using row(1,3,4) unique_keysD [of u_email "users (db w')"]
    unfolding q_GetUserByEmail_def
    by (cases "first_row (\<lambda>u. u_email u = lq_Email req \<and> u_is_active u = 1) (users (db w'))")
      (auto simp: first_row_Inl dest: first_row_Inr)
  have "if argon2_key E (cp_Password ps) salt argonTime argonMemory argonThreads argonKeyLen
               = argon2_key E (lq_Password req) salt argonTime argonMemory argonThreads argonKeyLen
            then run_state (Login E cfg req) w' = run_state (login_verified E cfg req row) w'
            else fst (run_state (Login E cfg req) w') = Inl ErrInvalidCredentials"
    using row assms(6) verify_encode_hash [OF assms(4)] salt(2) found eff(3) [OF assms(3)]
    by (simp add: Login_def split: prod.split)
  with row salt(1) show ?thesis by blast
qed

definition argon_ext :: ext where
  "argon_ext = demo_ext\<lparr>argon2_key := \<lambda>pw s t m p k. take k (pw @ replicate k (CHR ''.''))\<rparr>"

lemma argon_ext_simps [simp]:
  "argon2_key argon_ext = (\<lambda>pw s t m p k. take k (pw @ replicate k (CHR ''.'')))"
  "uuid argon_ext = uuid demo_ext" "rand_bytes argon_ext = rand_bytes demo_ext"
  by (simp_all add: argon_ext_def)

definition demo_create :: CreateParams where
  "demo_create = \<lparr>cp_Email = '' c@d.co'', cp_Password = ''correct horse 2'', cp_Role = ''viewer'', cp_RequestorID = ''u1''\<rparr>"

lemma demo_create_run:
  "\<exists>u w'. run_state (users_Create argon_ext demo_create) demo_world = (Inr u, w')"
  by (simp add: users_Create_def demo_create_def isValidEmail_def contains_def has_prefix_def Let_def
      trim_space_def trim_left_def is_space_def minPasswordLen_def validRoles_def to_lower_def lower_char_def
      q_GetUserByEmail_def first_row_def run_HashPassword q_CreateUser_def insert_row_def split: prod.split)

theorem created_user_logs_in_witness:
  "\<exists>u w' row. run_state (users_Create argon_ext demo_create) demo_world = (Inr u, w')
     \<and> row \<in> set (users (db w')) \<and> u_role row = ''viewer''
     \<and> run_state (Login argon_ext demo_cfg \<lparr>lq_Email = ''c@d.co'', lq_Password = ''correct horse 2'',
           lq_IPAddress = '''', lq_UserAgent = ''''\<rparr>) w'
       = run_state (login_verified argon_ext demo_cfg \<lparr>lq_Email = ''c@d.co'', lq_Password = ''correct horse 2'',
           lq_IPAddress = '''', lq_UserAgent = ''''\<rparr> row) w'"
proof -
  from demo_create_run obtain u w' where run: "run_state (users_Create argon_ext demo_create) demo_world = (Inr u, w')"
    by blast
  have lim: "limiter w' = limiter_New" using users_Create_effect(1) [OF run] by simp
  let ?req = "\<lparr>lq_Email = ''c@d.co'', lq_Password = ''correct horse 2'', lq_IPAddress = '''', lq_UserAgent = ''''\<rparr>"
  have "lq_Email ?req = to_lower (trim_space (cp_Email demo_create))"
    by (simp add: demo_create_def trim_space_def trim_left_def is_space_def to_lower_def lower_char_def)
  moreover have "\<not> fst (IsBlocked (limiter w') (lq_IPAddress ?req) (clock w') (clock w'))"
    by (simp add: lim limiter_New_def IsBlocked_def)
  moreover have "\<forall>p s. length (argon2_key argon_ext p s argonTime argonMemory argonThreads argonKeyLen) = argonKeyLen"
    by (auto simp: min_def)
  ultimately show ?thesis using created_user_logs_in [OF run, of ?req demo_cfg] run demo_db_ok
    by (auto simp: demo_create_def)
qed

text \<open>
  The guard and the write are separate database calls. Two requests that both pass the guard before
  either of them writes leave no administrator at all.
\<close>

lemma last_admin_race:
  "\<exists>w1 w2 w3 w4. run_state (checkLastAdmin ''u1'') demo_two = (Inr (), w1)
     \<and> run_state (checkLastAdmin ''u2'') w1 = (Inr (), w2)
     \<and> run_state (db_write (q_DeactivateUser ''u1'')) w2 = (Inr (), w3)
     \<and> run_state (db_write (q_DeactivateUser ''u2'')) w3 = (Inr (), w4)
     \<and> has_admin (db demo_two) \<and> \<not> has_admin (db w4)"
  by (simp add: checkLastAdmin_def q_GetUserByID_def first_row_def q_ListUsers_def filter_newest_first
      q_DeactivateUser_def has_admin_def update_rows_def)

end
