(* ===== verification/Setup.thy ===== *)
theory Setup
  imports Users
begin

text \<open>
  The setup wizard (\<open>internal/setup/service.go\<close>): its status, the first administrator, and the
  flag that closes it. The flag and the administrator's identifier are rows of the table \<open>config\<close>.
\<close>

section \<open>The code\<close>

datatype setup_error = ErrSetupAlreadyDone | ErrSetupNotDone | SetupErrInvalidEmail | SetupErrPasswordTooShort
  | ErrAdminExists | SetupNoAdmin | SetupInternal

definition setup_minPasswordLen :: nat where "setup_minPasswordLen = 12"
definition configKeySetupDone :: string where "configKeySetupDone = ''setup.completed''"
definition configKeyAdminID :: string where "configKeyAdminID = ''setup.admin_id''"

record Status =
  st_IsCompleted :: bool
  st_HasAdmin :: bool
  st_CurrentStep :: int
  st_AdminID :: string

record CreateAdminParams =
  ca_Email :: string
  ca_Password :: string

record CreateAdminResult =
  cr_UserID :: string
  cr_Email :: string

definition setup_isValidEmail :: "string \<Rightarrow> bool" where
  "setup_isValidEmail email =
     (let email = trim_space email in
      case last_index (CHR ''@'') email of
        None \<Rightarrow> False
      | Some i \<Rightarrow>
          if i < 1 then False
          else (let domain = drop (i + 1) email in contains domain ''.'' \<and> length domain > 2))"

definition IsCompleted :: "bool action" where
  "IsCompleted = do {
     val \<leftarrow> db_read (q_GetConfig configKeySetupDone);
     ret (val = Inr ''true'')
   }"

definition GetStatus :: "(setup_error + Status) action" where
  "GetStatus = do {
     let st = \<lparr>st_IsCompleted = False, st_HasAdmin = False, st_CurrentStep = 1, st_AdminID = ''''\<rparr>;
     val \<leftarrow> db_read (q_GetConfig configKeySetupDone);
     let st = (if val = Inr ''true'' then st\<lparr>st_IsCompleted := True, st_CurrentStep := 4\<rparr> else st);
     us \<leftarrow> db_read q_ListUsers;
     (case us of
        Inl _ \<Rightarrow> ret (Inl SetupInternal)
      | Inr us \<Rightarrow>
          (case find (\<lambda>u. u_role u = ''admin'' \<and> u_is_active u = 1) us of
             None \<Rightarrow> ret (Inr st)
           | Some u \<Rightarrow> ret (Inr (st\<lparr>st_HasAdmin := True, st_AdminID := u_id u,
               st_CurrentStep := (if st_CurrentStep st < 2 then 2 else st_CurrentStep st)\<rparr>))))
   }"

definition setConfig :: "string \<Rightarrow> string \<Rightarrow> string \<Rightarrow> unit action" where
  "setConfig key value updatedBy = do {
     _ \<leftarrow> db_write (q_SetConfig key value (nullstr updatedBy));
     ret ()
   }"

definition CreateAdmin :: "ext \<Rightarrow> CreateAdminParams \<Rightarrow> (setup_error + CreateAdminResult) action" where
  "CreateAdmin E params = do {
     finished \<leftarrow> IsCompleted;
     (if finished then ret (Inl ErrSetupAlreadyDone)
      else do {
        us \<leftarrow> db_read q_ListUsers;
        (case us of
           Inl _ \<Rightarrow> ret (Inl SetupInternal)
         | Inr us \<Rightarrow>
             if list_ex (\<lambda>u. u_role u = ''admin'') us then ret (Inl ErrAdminExists)
             else if \<not> setup_isValidEmail (ca_Email params) then ret (Inl SetupErrInvalidEmail)
             else if length (ca_Password params) < setup_minPasswordLen then ret (Inl SetupErrPasswordTooShort)
             else do {
               hash \<leftarrow> HashPassword E (ca_Password params);
               (case hash of
                  None \<Rightarrow> ret (Inl SetupInternal)
                | Some hash \<Rightarrow> do {
                    userID \<leftarrow> new_uuid E;
                    r \<leftarrow> db_write (q_CreateUser userID (to_lower (trim_space (ca_Email params))) hash ''admin'' None);
                    (case r of
                       Inl _ \<Rightarrow> ret (Inl SetupInternal)
                     | Inr _ \<Rightarrow> do {
                         setConfig configKeyAdminID userID userID;
                         ret (Inr \<lparr>cr_UserID = userID, cr_Email = to_lower (trim_space (ca_Email params))\<rparr>)
                       })
                  })
             })
      })
   }"

definition Complete :: "string \<Rightarrow> (setup_error + unit) action" where
  "Complete adminID = do {
     finished \<leftarrow> IsCompleted;
     (if finished then ret (Inl ErrSetupAlreadyDone)
      else do {
        st \<leftarrow> GetStatus;
        (case st of
           Inl e \<Rightarrow> ret (Inl e)
         | Inr st \<Rightarrow>
             if \<not> st_HasAdmin st then ret (Inl SetupNoAdmin)
             else do {
               setConfig configKeySetupDone ''true'' adminID;
               ret (Inr ())
             })
      })
   }"

section \<open>Statements only\<close>

lemma IsCompleted_silent [silent_intros]: "silent IsCompleted"
  unfolding IsCompleted_def by (intro silent_intros)

lemmas IsCompleted_steady [steady_intros] = IsCompleted_silent [THEN silent_steady]

lemma GetStatus_silent [silent_intros]: "silent GetStatus"
  unfolding GetStatus_def by (intro silent_intros)

lemmas GetStatus_steady [steady_intros] = GetStatus_silent [THEN silent_steady]

lemma setConfig_steady [steady_intros]: "steady (setConfig k v u)"
  unfolding setConfig_def by (intro steady_intros)

lemma CreateAdmin_steady [steady_intros]: "steady (CreateAdmin E ps)"
  unfolding CreateAdmin_def by (intro steady_intros)

lemma Complete_steady [steady_intros]: "steady (Complete a)"
  unfolding Complete_def by (intro steady_intros)

section \<open>Effects\<close>

definition setup_done :: "database \<Rightarrow> bool" where
  "setup_done d = (q_GetConfig configKeySetupDone d = Inr ''true'')"

lemma IsCompleted_effect:
  assumes "run_state IsCompleted w = (b, w')"
  shows "\<exists>fs. w' = w\<lparr>faults := fs\<rparr>" "b \<Longrightarrow> setup_done (db w)" "faults w = [] \<Longrightarrow> w' = w \<and> b = setup_done (db w)"
proof -
  obtain v where v: "run_state (db_read (q_GetConfig configKeySetupDone)) w = (v, w')" "b = (v = Inr ''true'')"
    using assms unfolding IsCompleted_def by (auto split: prod.splits)
  from db_read_frame [OF v(1)] v(2) show "\<exists>fs. w' = w\<lparr>faults := fs\<rparr>" "b \<Longrightarrow> setup_done (db w)"
    "faults w = [] \<Longrightarrow> w' = w \<and> b = setup_done (db w)" by (auto simp: setup_done_def)
qed

lemma setConfig_frame:
  assumes "run_state (setConfig k v u) w = (x, w')"
  shows "users (db w') = users (db w)" "clock w' = clock w" "faults w = [] \<Longrightarrow> faults w' = []"
    "db w' = db w \<or> (\<exists>now y. q_SetConfig k v (nullstr u) now (db w) = Inr (y, db w'))"
proof -
  obtain y where y: "run_state (db_write (q_SetConfig k v (nullstr u))) w = (y, w')"
    using assms unfolding setConfig_def by (auto split: prod.splits)
  have q: "q_SetConfig k v b now d = Inr (z, d') \<Longrightarrow> users d' = users d" for b now d z d'
    by (auto simp: q_SetConfig_def update_rows_def Let_def split: if_splits)
  from db_write_frame [OF y] q show "users (db w') = users (db w)" "clock w' = clock w" "faults w = [] \<Longrightarrow> faults w' = []"
    "db w' = db w \<or> (\<exists>now y. q_SetConfig k v (nullstr u) now (db w) = Inr (y, db w'))"
    by (cases y; fastforce)+
qed

lemma q_SetConfig_find:
  assumes "q_SetConfig k v b now d = Inr (z, d')"
  shows "q_GetConfig k' d' = (if k' = k then Inr v else q_GetConfig k' d)"
proof -
  have upd: "find (\<lambda>c. c_key c = k') (map (\<lambda>c. if c_key c = k then r else c) cs) =
      (if k' = k then (if k \<in> c_key ` set cs then Some r else None) else find (\<lambda>c. c_key c = k') cs)"
    if "c_key r = k" for r and cs :: "config_row list"
    using that by (induction cs) auto
  have app: "find P (cs @ [r]) = (case find P cs of None \<Rightarrow> if P r then Some r else None | Some c \<Rightarrow> Some c)"
    for P r and cs :: "config_row list" by (induction cs) auto
  have none: "find (\<lambda>c. c_key c = k) cs = None" if "k \<notin> c_key ` set cs" for cs :: "config_row list"
    using that by (auto simp: find_None_iff)
  let ?row = "\<lparr>c_key = k, c_value = v, c_updated_at = now, c_updated_by = b\<rparr>"
  have get: "q_GetConfig k' d = (case find (\<lambda>c. c_key c = k') (configs d) of None \<Rightarrow> Inl NoRows | Some c \<Rightarrow> Inr (c_value c))" for d
    by (simp add: q_GetConfig_def first_row_def split: option.split)
  show ?thesis
  proof (cases "k \<in> c_key ` set (configs d)")
    case True
    then have "configs d' = map (\<lambda>c. if c_key c = k then ?row else c) (configs d)"
      using assms by (simp add: q_SetConfig_def update_rows_def Let_def split: if_splits) auto
    with True show ?thesis by (simp add: get upd)
  next
    case False
    then have "configs d' = configs d @ [?row]"
      using assms by (simp add: q_SetConfig_def Let_def split: if_splits) auto
    with False none [of "configs d"] show ?thesis by (auto simp: get app split: option.split)
  qed
qed

lemma GetStatus_effect:
  assumes "run_state GetStatus w = (r, w')"
  shows "\<exists>fs. w' = w\<lparr>faults := fs\<rparr>" "faults w = [] \<Longrightarrow> w' = w"
    "r = Inr st \<Longrightarrow> st_HasAdmin st = has_admin (db w)"
    "faults w = [] \<Longrightarrow> \<exists>st. r = Inr st \<and> st_IsCompleted st = setup_done (db w)
       \<and> st_CurrentStep st = (if setup_done (db w) then 4 else if has_admin (db w) then 2 else 1)"
proof -
  obtain v w1 where v: "run_state (db_read (q_GetConfig configKeySetupDone)) w = (v, w1)" by fastforce
  obtain us w2 where us: "run_state (db_read q_ListUsers) w1 = (us, w2)" by fastforce
  note f = db_read_frame [OF v] db_read_frame [OF us]
  have w2: "w' = w2" using assms v us unfolding GetStatus_def
    by (auto simp: Let_def split: sum.splits option.splits)
  with f show "\<exists>fs. w' = w\<lparr>faults := fs\<rparr>" "faults w = [] \<Longrightarrow> w' = w" by auto
  have none: "find P (newest_first k rs) = None \<longleftrightarrow> (\<forall>x \<in> set rs. \<not> P x)" for P k and rs :: "user_row list"
    by (auto simp: find_None_iff)
  have res: "r = (case us of Inl _ \<Rightarrow> Inl SetupInternal | Inr us \<Rightarrow>
      (case find (\<lambda>u. u_role u = ''admin'' \<and> u_is_active u = 1) us of
         None \<Rightarrow> Inr \<lparr>st_IsCompleted = (v = Inr ''true''), st_HasAdmin = False,
           st_CurrentStep = (if v = Inr ''true'' then 4 else 1), st_AdminID = ''''\<rparr>
       | Some u \<Rightarrow> Inr \<lparr>st_IsCompleted = (v = Inr ''true''), st_HasAdmin = True,
           st_CurrentStep = (if v = Inr ''true'' then 4 else 2), st_AdminID = u_id u\<rparr>))"
    using assms v us unfolding GetStatus_def by (auto simp: Let_def split: sum.splits option.splits if_splits)
  have admin: "find (\<lambda>u. u_role u = ''admin'' \<and> u_is_active u = 1) (newest_first u_created_at (users (db w))) = None
      \<longleftrightarrow> \<not> has_admin (db w)"
    unfolding none has_admin_def by blast
  have us': "us = Inl DriverFault \<or> us = Inr (newest_first u_created_at (users (db w)))"
    "faults w = [] \<Longrightarrow> us = Inr (newest_first u_created_at (users (db w))) \<and> v = q_GetConfig configKeySetupDone (db w)"
    using f by (auto simp: q_ListUsers_def)
  show "r = Inr st \<Longrightarrow> st_HasAdmin st = has_admin (db w)"
    using res us'(1) admin by (auto split: option.splits)
  show "faults w = [] \<Longrightarrow> \<exists>st. r = Inr st \<and> st_IsCompleted st = setup_done (db w)
       \<and> st_CurrentStep st = (if setup_done (db w) then 4 else if has_admin (db w) then 2 else 1)"
    using res us'(2) admin by (auto simp: setup_done_def split: option.splits)
qed

lemma CreateAdmin_effect:
  assumes "run_state (CreateAdmin E ps) w = (r, w')"
  shows "faults w = [] \<Longrightarrow> faults w' = []" "clock w' = clock w"
    "users (db w') = users (db w) \<or> (\<forall>u \<in> set (users (db w)). u_role u \<noteq> ''admin'')
       \<and> (\<exists>row. users (db w') = users (db w) @ [row] \<and> u_role row = ''admin'')"
    "case r of
       Inl e \<Rightarrow> users (db w') = users (db w)
     | Inr a \<Rightarrow> \<exists>row. users (db w') = users (db w) @ [row] \<and> u_role row = ''admin'' \<and> u_is_active row = 1
         \<and> u_id row = cr_UserID a \<and> u_email row = cr_Email a \<and> cr_Email a = to_lower (trim_space (ca_Email ps))"
    "setup_done (db w') = setup_done (db w)"
proof -
  obtain b w1 where b: "run_state IsCompleted w = (b, w1)" by fastforce
  obtain us w2 where us: "run_state (db_read q_ListUsers) w1 = (us, w2)" by fastforce
  obtain h w3 where h: "run_state (HashPassword E (ca_Password ps)) w2 = (h, w3)" by fastforce
  let ?i = "uuid E (uuid_ctr w3)"
  obtain y w4 where y: "run_state (db_write (q_CreateUser ?i (to_lower (trim_space (ca_Email ps))) (the h) ''admin'' None))
      (w3\<lparr>uuid_ctr := uuid_ctr w3 + 1\<rparr>) = (y, w4)" by fastforce
  obtain w5 where z: "run_state (setConfig configKeyAdminID ?i ?i) w4 = ((), w5)"
    by (cases "run_state (setConfig configKeyAdminID ?i ?i) w4") simp
  have w1: "db w1 = db w" "clock w1 = clock w" "faults w = [] \<Longrightarrow> faults w1 = []"
    using IsCompleted_effect [OF b] by auto
  have w2: "db w2 = db w" "clock w2 = clock w" "faults w = [] \<Longrightarrow> faults w2 = []"
    "us = Inl DriverFault \<or> us = Inr (newest_first u_created_at (users (db w)))"
    using db_read_frame [OF us] w1 by (auto simp: q_ListUsers_def)
  have w3: "db w3 = db w" "clock w3 = clock w" "faults w = [] \<Longrightarrow> faults w3 = []"
    using h w2 by (auto simp: run_HashPassword)
  have q: "q_CreateUser i e p ro bc now d = Inr (u, d') \<Longrightarrow> users d' = users d @ [u] \<and> u_id u = i \<and> u_email u = e
      \<and> u_role u = ro \<and> u_is_active u = 1 \<and> configs d' = configs d" for i e p ro bc now d u d'
    by (auto simp: q_CreateUser_def insert_row_def split: if_splits)
  have w4: "clock w4 = clock w" "faults w = [] \<Longrightarrow> faults w4 = []"
    using db_write_frame [OF y] w3 by auto
  have d4: "setup_done (db w4) = setup_done (db w) \<and> (case y of Inl _ \<Rightarrow> users (db w4) = users (db w)
     | Inr u \<Rightarrow> users (db w4) = users (db w) @ [u] \<and> u_id u = ?i \<and> u_email u = to_lower (trim_space (ca_Email ps))
         \<and> u_role u = ''admin'' \<and> u_is_active u = 1)"
    using db_write_frame [OF y] w3(1) q by (cases y) (auto simp: setup_done_def q_GetConfig_def)
  have w5: "users (db w5) = users (db w4)" "clock w5 = clock w" "faults w = [] \<Longrightarrow> faults w5 = []"
    using setConfig_frame [OF z] w4 by auto
  have d5: "setup_done (db w5) = setup_done (db w)"
    using setConfig_frame(4) [OF z] d4 q_SetConfig_find
    by (auto simp: setup_done_def configKeySetupDone_def configKeyAdminID_def)
  have run: "(r, w') = (if b then (Inl ErrSetupAlreadyDone, w1)
      else (case us of Inl _ \<Rightarrow> (Inl SetupInternal, w2)
        | Inr us \<Rightarrow> if list_ex (\<lambda>u. u_role u = ''admin'') us then (Inl ErrAdminExists, w2)
            else if \<not> setup_isValidEmail (ca_Email ps) then (Inl SetupErrInvalidEmail, w2)
            else if length (ca_Password ps) < setup_minPasswordLen then (Inl SetupErrPasswordTooShort, w2)
            else (case h of None \<Rightarrow> (Inl SetupInternal, w3)
              | Some _ \<Rightarrow> (case y of Inl _ \<Rightarrow> (Inl SetupInternal, w4)
                  | Inr _ \<Rightarrow> (Inr \<lparr>cr_UserID = ?i, cr_Email = to_lower (trim_space (ca_Email ps))\<rparr>, w5)))))"
    using assms b us h y z unfolding CreateAdmin_def
    by (cases b; cases us; cases h; cases y) (auto split: if_splits)
  show "faults w = [] \<Longrightarrow> faults w' = []" "clock w' = clock w"
    using run w1 w2 w3 w4 w5 by (auto split: if_splits sum.splits option.splits)
  show "setup_done (db w') = setup_done (db w)"
    using run w1(1) w2(1) w3(1) d4 d5 by (auto split: if_splits sum.splits option.splits)
  show "users (db w') = users (db w) \<or> (\<forall>u \<in> set (users (db w)). u_role u \<noteq> ''admin'')
       \<and> (\<exists>row. users (db w') = users (db w) @ [row] \<and> u_role row = ''admin'')"
    using run w1(1) w2(1,4) w3(1) w5(1) d4 by (auto simp: list_ex_iff split: if_splits sum.splits option.splits)
  show "case r of
       Inl e \<Rightarrow> users (db w') = users (db w)
     | Inr a \<Rightarrow> \<exists>row. users (db w') = users (db w) @ [row] \<and> u_role row = ''admin'' \<and> u_is_active row = 1
         \<and> u_id row = cr_UserID a \<and> u_email row = cr_Email a \<and> cr_Email a = to_lower (trim_space (ca_Email ps))"
    using run w1(1) w2(1) w3(1) w5(1) d4 by (auto split: if_splits sum.splits option.splits)
qed

lemma Complete_effect:
  assumes "run_state (Complete a) w = (r, w')"
  shows "users (db w') = users (db w)" "clock w' = clock w" "faults w = [] \<Longrightarrow> faults w' = []"
    "r = Inr () \<Longrightarrow> has_admin (db w)"
    "setup_done (db w) \<Longrightarrow> setup_done (db w')"
    "faults w = [] \<Longrightarrow> r = (if setup_done (db w) then Inl ErrSetupAlreadyDone
       else if has_admin (db w) then Inr () else Inl SetupNoAdmin)"
    "faults w = [] \<Longrightarrow> setup_done (db w') = (setup_done (db w) \<or> r = Inr () \<and> null_or (user_ref (db w)) (nullstr a))"
proof -
  obtain b w1 where b: "run_state IsCompleted w = (b, w1)" by fastforce
  obtain st w2 where st: "run_state GetStatus w1 = (st, w2)" by fastforce
  obtain w3 where z: "run_state (setConfig configKeySetupDone ''true'' a) w2 = ((), w3)"
    by (cases "run_state (setConfig configKeySetupDone ''true'' a) w2") simp
  note e = IsCompleted_effect [OF b] GetStatus_effect [OF st] setConfig_frame [OF z]
  have run: "(r, w') = (if b then (Inl ErrSetupAlreadyDone, w1)
      else (case st of Inl e \<Rightarrow> (Inl e, w2)
        | Inr s \<Rightarrow> if \<not> st_HasAdmin s then (Inl SetupNoAdmin, w2) else (Inr (), w3)))"
    using assms b st z unfolding Complete_def by (cases b; cases st) (auto split: if_splits)
  have d: "db w1 = db w" "db w2 = db w" "clock w2 = clock w" using e(1,4) by auto
  show "users (db w') = users (db w)" "clock w' = clock w" "faults w = [] \<Longrightarrow> faults w' = []"
    using run e(1,3,4,5,8-10) by (auto split: if_splits sum.splits)
  show "r = Inr () \<Longrightarrow> has_admin (db w)"
    using run e(6) d by (auto split: if_splits sum.splits)
  have "setup_done (db w) \<Longrightarrow> setup_done (db w3)"
    using e(11) q_SetConfig_find [of configKeySetupDone "''true''"] d by (auto simp: setup_done_def)
  then show "setup_done (db w) \<Longrightarrow> setup_done (db w')"
    using run d by (auto split: if_splits sum.splits)
  show r: "faults w = [] \<Longrightarrow> r = (if setup_done (db w) then Inl ErrSetupAlreadyDone
       else if has_admin (db w) then Inr () else Inl SetupNoAdmin)"
    using run e(3,6,7) by (auto split: if_splits sum.splits)
  have done3: "faults w = [] \<Longrightarrow> \<not> setup_done (db w) \<Longrightarrow>
      setup_done (db w3) = null_or (user_ref (db w)) (nullstr a)"
  proof -
    assume f: "faults w = []" and undone: "\<not> setup_done (db w)"
    let ?q = "q_SetConfig configKeySetupDone ''true'' (nullstr a) (current_timestamp (clock w)) (db w)"
    have w2: "faults w2 = []" using f e(3,5) by simp
    have db3: "db w3 = (case ?q of Inl _ \<Rightarrow> db w | Inr (_, d') \<Rightarrow> d')"
      using z w2 d by (simp add: setConfig_def split: sum.splits prod.splits) auto
    have q: "is_ok ?q = null_or (user_ref (db w)) (nullstr a)"
      by (simp add: q_SetConfig_def Let_def)
    show ?thesis
    proof (cases ?q)
      case (Inl e)
      then show ?thesis using db3 q undone by simp
    next
      case (Inr y)
      then obtain x d' where y: "?q = Inr (x, d')" by (cases y) simp
      from q_SetConfig_find [OF y, of configKeySetupDone] have "setup_done d'" by (simp add: setup_done_def)
      then show ?thesis using db3 q y by simp
    qed
  qed
  then show "faults w = [] \<Longrightarrow> setup_done (db w') = (setup_done (db w) \<or> r = Inr () \<and> null_or (user_ref (db w)) (nullstr a))"
    using run r d by (auto split: if_splits sum.splits)
qed

section \<open>Properties\<close>

text \<open>The requests of the wizard, one after another.\<close>

datatype setup_op = OpStatus | OpIsCompleted | OpCreateAdmin CreateAdminParams | OpComplete string

fun run_setup_op :: "ext \<Rightarrow> setup_op \<Rightarrow> world \<Rightarrow> world" where
  "run_setup_op E OpStatus w = snd (run_state GetStatus w)"
| "run_setup_op E OpIsCompleted w = snd (run_state IsCompleted w)"
| "run_setup_op E (OpCreateAdmin ps) w = snd (run_state (CreateAdmin E ps) w)"
| "run_setup_op E (OpComplete a) w = snd (run_state (Complete a) w)"

lemma silent_db: "silent m \<Longrightarrow> db (snd (run_state m w)) = db w"
  by (simp add: silent_def)

lemma run_setup_op_done: "setup_done (db w) \<Longrightarrow> setup_done (db (run_setup_op E op w))"
  by (cases op) (simp_all add: silent_db silent_intros Complete_effect(5) [OF prod.collapse [symmetric]]
      CreateAdmin_effect(5) [OF prod.collapse [symmetric]])

lemma run_setup_op_users:
  "\<exists>u \<in> set (users (db w)). u_role u = ''admin'' \<Longrightarrow> users (db (run_setup_op E op w)) = users (db w)"
  using CreateAdmin_effect(3) [OF prod.collapse [symmetric], of E _ w]
  by (cases op) (auto simp: silent_db silent_intros Complete_effect(1) [OF prod.collapse [symmetric]])

text \<open>C26: The wizard creates one administrator at most and closes for good. Once any administrator
  exists (active or not), no sequence of wizard requests changes the users, even under driver faults;
  and once the completion flag is set, none of them clears it.\<close>

theorem wizard_closed:
  "((\<exists>u \<in> set (users (db w)). u_role u = ''admin'') \<longrightarrow> users (db (fold (run_setup_op E) ops w)) = users (db w))
   \<and> (setup_done (db w) \<longrightarrow> setup_done (db (fold (run_setup_op E) ops w)))"
proof (induction ops arbitrary: w)
  case (Cons op ops)
  show ?case using Cons [of "run_setup_op E op w"] run_setup_op_users [of w E op] run_setup_op_done [of w E op] by simp
qed simp

theorem wizard_closed_witness:
  "users (db (fold (run_setup_op demo_ext) [OpCreateAdmin \<lparr>ca_Email = ''x@y.zz'', ca_Password = ''0123456789ab''\<rparr>,
     OpComplete ''u1''] demo_world)) = [demo_user]"
  by (subst wizard_closed [THEN conjunct1, rule_format]) simp_all

text \<open>C27: The wizard can be finished: after its administrator was created (no driver fault, flag not
  yet set), completing it with the identifier it returned succeeds and sets the flag; the status is
  then step 4 with the flag on, and both creating an administrator and completing again are refused
  as already done.\<close>

theorem wizard_completes:
  assumes run: "run_state (CreateAdmin E ps) w = (Inr a, w')" and "faults w = []" "\<not> setup_done (db w)"
  shows "\<exists>w''. run_state (Complete (cr_UserID a)) w' = (Inr (), w'') \<and> setup_done (db w'')
    \<and> (\<exists>st. run_state GetStatus w'' = (Inr st, w'') \<and> st_IsCompleted st \<and> st_CurrentStep st = 4 \<and> st_HasAdmin st)
    \<and> run_state (CreateAdmin E ps') w'' = (Inl ErrSetupAlreadyDone, w'')
    \<and> run_state (Complete b) w'' = (Inl ErrSetupAlreadyDone, w'')"
proof -
  note eff = CreateAdmin_effect [OF run]
  from eff(4) have adm: "has_admin (db w')" "user_ref (db w') (cr_UserID a)"
    by (auto simp: has_admin_def user_ref_def)
  have f: "faults w' = []" "\<not> setup_done (db w')" using eff(1,5) assms(2,3) by auto
  obtain r w'' where c: "run_state (Complete (cr_UserID a)) w' = (r, w'')" by fastforce
  note ceff = Complete_effect [OF c]
  have r: "r = Inr ()" using ceff(6) f adm by simp
  have sd: "setup_done (db w'')" using ceff(7) f r adm by (auto simp: null_or_def nullstr_def)
  have f2: "faults w'' = []" using ceff(3) f by simp
  obtain s v where g: "run_state GetStatus w'' = (s, v)" by fastforce
  have "v = w''" using GetStatus_effect(2) [OF g f2] .
  moreover from GetStatus_effect(4) [OF g f2] obtain st where "s = Inr st" "st_IsCompleted st" "st_CurrentStep st = 4"
    using sd by auto
  moreover have "st_HasAdmin st" if "s = Inr st" for st
    using GetStatus_effect(3) [OF g that] ceff(1) adm by (simp add: has_admin_def)
  moreover have "run_state IsCompleted w'' = (True, w'')"
    using sd f2 by (simp add: IsCompleted_def setup_done_def)
  ultimately show ?thesis using c r sd g by (simp add: CreateAdmin_def Complete_def)
qed

definition fresh_world :: world where
  "fresh_world = demo_world\<lparr>db := empty_db\<rparr>"

lemma fresh_world_simps [simp]:
  "db fresh_world = empty_db" "faults fresh_world = []" "clock fresh_world = second" "rand_ctr fresh_world = 0"
  "uuid_ctr fresh_world = 0" "users empty_db = []" "configs empty_db = []"
  by (simp_all add: fresh_world_def empty_db_def)

lemma demo_wizard:
  "\<exists>a w'. run_state (CreateAdmin demo_ext \<lparr>ca_Email = ''x@y.zz'', ca_Password = ''0123456789ab''\<rparr>) fresh_world = (Inr a, w')"
  by (simp add: CreateAdmin_def IsCompleted_def q_GetConfig_def first_row_def q_ListUsers_def newest_first_def
      setup_isValidEmail_def contains_def has_prefix_def Let_def trim_space_def trim_left_def is_space_def
      setup_minPasswordLen_def run_HashPassword q_CreateUser_def insert_row_def split: prod.split)

theorem wizard_completes_witness:
  "\<exists>a w' w''. run_state (CreateAdmin demo_ext \<lparr>ca_Email = ''x@y.zz'', ca_Password = ''0123456789ab''\<rparr>) fresh_world = (Inr a, w')
     \<and> run_state (Complete (cr_UserID a)) w' = (Inr (), w'') \<and> setup_done (db w'')"
proof -
  from demo_wizard obtain a w' where
    run: "run_state (CreateAdmin demo_ext \<lparr>ca_Email = ''x@y.zz'', ca_Password = ''0123456789ab''\<rparr>) fresh_world = (Inr a, w')"
    by blast
  have "\<not> setup_done (db fresh_world)" by (simp add: setup_done_def q_GetConfig_def first_row_def)
  from wizard_completes [OF run _ this] run show ?thesis by auto
qed

text \<open>Completing the wizard with an identifier of no user answers success but completes nothing:
  the foreign key of the configuration row refuses the write, and its error is dropped.\<close>

theorem complete_unknown_admin:
  assumes "run_state (Complete a) w = (Inr (), w')" "faults w = []" "a \<noteq> ''''" "\<not> user_ref (db w) a"
  shows "\<not> setup_done (db w')"
proof -
  note eff = Complete_effect [OF assms(1)]
  have "\<not> setup_done (db w)" using eff(6) [OF assms(2)] by (auto split: if_splits)
  then show ?thesis using eff(7) [OF assms(2)] assms(3,4) by (simp add: nullstr_def null_or_def)
qed

theorem complete_unknown_admin_witness:
  "\<exists>w'. run_state (Complete ''nobody'') demo_world = (Inr (), w') \<and> \<not> setup_done (db w')"
proof -
  obtain r w' where run: "run_state (Complete ''nobody'') demo_world = (r, w')" by fastforce
  have "r = Inr ()" using Complete_effect(6) [OF run]
    by (simp add: setup_done_def q_GetConfig_def first_row_def has_admin_def)
  with run complete_unknown_admin [of "''nobody''" demo_world w'] show ?thesis by (auto simp: user_ref_def)
qed

end
