(* ===== verification/Json.thy ===== *)
theory Json
  imports Encoding
begin

text \<open>
  The part of Go's \<open>encoding/json\<close> the sources use: the syntax of JSON texts (\<open>Unmarshal\<close> checks it
  before anything is stored), strings with their escapes (\<open>Marshal\<close> also escapes the HTML characters),
  and printing with and without indentation. Object keys are matched as \<open>Unmarshal\<close> matches struct
  fields: exactly, else without regard to case. Bytes from 128 on are copied both ways; Go's treatment
  of invalid UTF-8 and of U+2028 and U+2029 is left out.
\<close>

datatype json = JNull | JBool bool | JNum string | JStr string | JArr "json list" | JObj "(string \<times> json) list"

section \<open>Strings\<close>


definition hex_value :: "char \<Rightarrow> nat option" where
  "hex_value c =
     (let n = of_char c in
      if 48 \<le> n \<and> n \<le> 57 then Some (n - 48) else if 97 \<le> n \<and> n \<le> 102 then Some (n - 87)
      else if 65 \<le> n \<and> n \<le> 70 then Some (n - 55) else None)"

definition json_escape_char :: "char \<Rightarrow> string" where
  "json_escape_char c =
     (if c = CHR 0x22 then [CHR 0x5C, CHR 0x22] else if c = CHR 0x5C then [CHR 0x5C, CHR 0x5C]
      else if c = CHR 0x08 then [CHR 0x5C, CHR ''b''] else if c = CHR 0x0C then [CHR 0x5C, CHR ''f'']
      else if c = CHR 0x0A then [CHR 0x5C, CHR ''n''] else if c = CHR 0x0D then [CHR 0x5C, CHR ''r'']
      else if c = CHR 0x09 then [CHR 0x5C, CHR ''t'']
      else if (of_char c :: nat) < 32 \<or> c \<in> {CHR ''<'', CHR ''>'', CHR 0x26}
      then CHR 0x5C # ''u00'' @ [hex_digit (of_char c div 16), hex_digit (of_char c mod 16)]
      else [c])"

definition json_string :: "string \<Rightarrow> string" where
  "json_string s = [CHR 0x22] @ concat (map json_escape_char s) @ [CHR 0x22]"

text \<open>A code unit of a \<open>\<backslash>u\<close> escape, and the UTF-8 bytes of a code point.\<close>

definition u4 :: "string \<Rightarrow> nat option" where
  "u4 s =
     (case map hex_value (take 4 s) of
        [Some a, Some b, Some c, Some d] \<Rightarrow> Some (((a * 16 + b) * 16 + c) * 16 + d)
      | _ \<Rightarrow> None)"

definition utf8 :: "nat \<Rightarrow> string" where
  "utf8 n =
     (if n < 128 then [char_of n]
      else if n < 2048 then [char_of (192 + n div 64), char_of (128 + n mod 64)]
      else if n < 65536 then [char_of (224 + n div 4096), char_of (128 + n div 64 mod 64), char_of (128 + n mod 64)]
      else [char_of (240 + n div 262144), char_of (128 + n div 4096 mod 64), char_of (128 + n div 64 mod 64),
            char_of (128 + n mod 64)])"

text \<open>The bytes of a \<open>\<backslash>u\<close> escape with code unit \<open>n\<close>, followed by \<open>s\<close>: a surrogate pair is one code point, a
  lone surrogate is U+FFFD. The result is the bytes and how much of \<open>s\<close> they took.\<close>

definition u_bytes :: "nat \<Rightarrow> string \<Rightarrow> string \<times> nat" where
  "u_bytes n s =
     (if n < 55296 \<or> 57344 \<le> n then (utf8 n, 0)
      else (case (has_prefix s (CHR 0x5C # ''u''), u4 (drop 2 s)) of
              (True, Some m) \<Rightarrow>
                if n < 56320 \<and> 56320 \<le> m \<and> m < 57344
                then (utf8 (65536 + (n - 55296) * 1024 + (m - 56320)), 6) else (utf8 65533, 0)
            | _ \<Rightarrow> (utf8 65533, 0)))"

definition escape_value :: "char \<Rightarrow> string option" where
  "escape_value c =
     (if c \<in> {CHR 0x22, CHR 0x5C, CHR ''/''} then Some [c]
      else if c = CHR ''b'' then Some [CHR 0x08] else if c = CHR ''f'' then Some [CHR 0x0C]
      else if c = CHR ''n'' then Some [CHR 0x0A] else if c = CHR ''r'' then Some [CHR 0x0D]
      else if c = CHR ''t'' then Some [CHR 0x09] else None)"

text \<open>The rest of a string literal after its opening quote: its value and what follows.\<close>

function read_string :: "string \<Rightarrow> (string \<times> string) option" where
  "read_string [] = None"
| "read_string (c # s) =
     (if c = CHR 0x22 then Some ([], s)
      else if (of_char c :: nat) < 32 then None
      else if c \<noteq> CHR 0x5C then map_option (map_prod ((#) c) id) (read_string s)
      else (case s of
              [] \<Rightarrow> None
            | e # s' \<Rightarrow>
                if e = CHR ''u''
                then (case u4 s' of
                        None \<Rightarrow> None
                      | Some n \<Rightarrow>
                          let b = u_bytes n (drop 4 s') in
                          map_option (map_prod ((@) (fst b)) id) (read_string (drop (4 + snd b) s')))
                else (case escape_value e of
                        None \<Rightarrow> None
                      | Some b \<Rightarrow> map_option (map_prod ((@) b) id) (read_string s'))))"
  by pat_completeness auto
termination by (relation "measure length") auto

section \<open>Values\<close>

definition json_ws :: "char \<Rightarrow> bool" where
  "json_ws c = (c \<in> {CHR 0x20, CHR 0x09, CHR 0x0A, CHR 0x0D})"

definition skip_ws :: "string \<Rightarrow> string" where
  "skip_ws s = dropWhile json_ws s"

text \<open>A number literal at the head of a text: its bytes and the rest.\<close>

definition read_digits :: "string \<Rightarrow> (string \<times> string) option" where
  "read_digits s = (let ds = takeWhile is_digit s in if ds = [] then None else Some (ds, dropWhile is_digit s))"

definition read_number :: "string \<Rightarrow> (string \<times> string) option" where
  "read_number s =
     (let sign = (if has_prefix s ''-'' then ''-'' else []); s1 = drop (length sign) s in
      case (if has_prefix s1 ''0'' then Some (''0'', tl s1) else read_digits s1) of
        None \<Rightarrow> None
      | Some (whole, s2) \<Rightarrow>
          (case (if has_prefix s2 ''.'' then map_option (map_prod ((#) (CHR ''.'')) id) (read_digits (tl s2))
                 else Some ([], s2)) of
             None \<Rightarrow> None
           | Some (frc, s3) \<Rightarrow>
               if s3 \<noteq> [] \<and> hd s3 \<in> {CHR ''e'', CHR ''E''}
               then (let t = tl s3; sg = (if t \<noteq> [] \<and> hd t \<in> {CHR ''+'', CHR ''-''} then [hd t] else []) in
                     case read_digits (drop (length sg) t) of
                       None \<Rightarrow> None
                     | Some (ex, s4) \<Rightarrow> Some (sign @ whole @ frc @ [hd s3] @ sg @ ex, s4))
               else Some (sign @ whole @ frc, s3)))"

text \<open>
  The values, elements and members of a text. The first argument bounds the nesting and the number of
  elements together; \<open>parse_json\<close> passes the length of the text, which is enough because every
  element takes at least one byte.
\<close>

fun read_value :: "nat \<Rightarrow> string \<Rightarrow> (json \<times> string) option"
  and read_elements :: "nat \<Rightarrow> string \<Rightarrow> (json list \<times> string) option"
  and read_members :: "nat \<Rightarrow> string \<Rightarrow> ((string \<times> json) list \<times> string) option" where
  "read_value 0 s = None"
| "read_value (Suc n) s =
     (let t = skip_ws s in
      if t = [] then None
      else if hd t = CHR 0x22 then map_option (map_prod JStr id) (read_string (tl t))
      else if hd t = CHR ''['' then
        (let u = skip_ws (tl t) in
         if has_prefix u '']'' then Some (JArr [], tl u) else map_option (map_prod JArr id) (read_elements n u))
      else if hd t = CHR ''{'' then
        (let u = skip_ws (tl t) in
         if has_prefix u ''}'' then Some (JObj [], tl u) else map_option (map_prod JObj id) (read_members n u))
      else if has_prefix t ''null'' then Some (JNull, drop 4 t)
      else if has_prefix t ''true'' then Some (JBool True, drop 4 t)
      else if has_prefix t ''false'' then Some (JBool False, drop 5 t)
      else map_option (map_prod JNum id) (read_number t))"
| "read_elements 0 s = None"
| "read_elements (Suc n) s =
     (case read_value n s of
        None \<Rightarrow> None
      | Some (v, t) \<Rightarrow>
          let u = skip_ws t in
          if has_prefix u '']'' then Some ([v], tl u)
          else if has_prefix u '','' then map_option (map_prod ((#) v) id) (read_elements n (tl u))
          else None)"
| "read_members 0 s = None"
| "read_members (Suc n) s =
     (let t = skip_ws s in
      if \<not> has_prefix t [CHR 0x22] then None
      else (case read_string (tl t) of
              None \<Rightarrow> None
            | Some (k, u) \<Rightarrow>
                if \<not> has_prefix (skip_ws u) '':'' then None
                else (case read_value n (tl (skip_ws u)) of
                        None \<Rightarrow> None
                      | Some (v, x) \<Rightarrow>
                          let y = skip_ws x in
                          if has_prefix y ''}'' then Some ([(k, v)], tl y)
                          else if has_prefix y '','' then map_option (map_prod ((#) (k, v)) id) (read_members n (tl y))
                          else None)))"

text \<open>\<open>json.Unmarshal\<close> up to the syntax: the value, or \<open>None\<close> for a \<open>SyntaxError\<close>.\<close>

definition parse_json :: "string \<Rightarrow> json option" where
  "parse_json s =
     (case read_value (Suc (Suc (length s))) s of
        None \<Rightarrow> None
      | Some (v, t) \<Rightarrow> if skip_ws t = [] then Some v else None)"

section \<open>Printing\<close>

definition json_bool :: "bool \<Rightarrow> string" where
  "json_bool b = (if b then ''true'' else ''false'')"

definition json_key :: "string \<Rightarrow> string" where
  "json_key k = json_string k @ '':''"

definition json_list :: "string list \<Rightarrow> string" where
  "json_list xs = ''['' @ join_with '','' xs @ '']''"

definition json_object :: "string list \<Rightarrow> string" where
  "json_object ms = ''{'' @ join_with '','' ms @ ''}''"

section \<open>Reading back what was printed\<close>

lemma hex_value_digit: "n < 16 \<Longrightarrow> hex_value (hex_digit n) = Some n"
  by (auto simp: hex_value_def hex_digit_def Let_def)

lemma hex_value_zero: "hex_value (CHR ''0'') = Some 0"
  by (simp add: hex_value_def)

lemma u4_byte: "n < 256 \<Longrightarrow> u4 (CHR ''0'' # CHR ''0'' # hex_digit (n div 16) # hex_digit (n mod 16) # s) = Some n"
  by (simp add: u4_def hex_value_digit hex_value_zero)

lemma append_one [simp]: "(@) [c] = (#) c"
  by (simp add: fun_eq_iff)

lemma read_u_escape:
  assumes "(of_char c :: nat) < 128"
  shows "read_string (CHR 0x5C # CHR ''u'' # CHR ''0'' # CHR ''0'' # hex_digit (of_char c div 16)
      # hex_digit (of_char c mod 16) # s) = map_option (map_prod ((#) c) id) (read_string s)"
  using assms u4_byte [of "of_char c" s] by (simp add: u_bytes_def utf8_def Let_def)

lemma read_string_escape: "read_string (json_escape_char c @ s) = map_option (map_prod ((#) c) id) (read_string s)"
proof (cases "c \<in> {CHR 0x22, CHR 0x5C, CHR 0x08, CHR 0x0C, CHR 0x0A, CHR 0x0D, CHR 0x09}")
  case True
  then show ?thesis by (auto simp: json_escape_char_def escape_value_def)
next
  case short: False
  show ?thesis
  proof (cases "(of_char c :: nat) < 32 \<or> c \<in> {CHR ''<'', CHR ''>'', CHR 0x26}")
    case True
    then have "(of_char c :: nat) < 128" by auto
    moreover have "json_escape_char c = CHR 0x5C # CHR ''u'' # CHR ''0'' # CHR ''0'' # hex_digit (of_char c div 16)
        # [hex_digit (of_char c mod 16)]"
      using True short by (auto simp: json_escape_char_def)
    ultimately show ?thesis using read_u_escape [of c s] by (simp only: append.simps)
  next
    case False
    with short show ?thesis by (simp add: json_escape_char_def)
  qed
qed

lemma read_string_print: "read_string (concat (map json_escape_char k) @ CHR 0x22 # s) = Some (k, s)"
proof (induction k)
  case (Cons c k)
  then show ?case using read_string_escape [of c "concat (map json_escape_char k) @ CHR 0x22 # s"] by simp
qed simp

declare read_string.simps [simp del]

lemma skip_ws_print [simp]: "skip_ws (json_string k @ s) = json_string k @ s"
  by (simp add: json_string_def skip_ws_def json_ws_def)

lemma read_value_string: "read_value (Suc n) (json_string k @ s) = Some (JStr k, s)"
  using read_string_print [of k s] by (simp add: json_string_def skip_ws_def json_ws_def Let_def)

lemma read_value_bool: "read_value (Suc n) (json_bool b @ s) = Some (JBool b, s)"
  by (simp add: json_bool_def skip_ws_def json_ws_def Let_def has_prefix_def)

lemma skip_ws_char: "\<not> json_ws c \<Longrightarrow> skip_ws (c # s) = c # s"
  by (simp add: skip_ws_def)

lemma json_ws_simps [simp]:
  "\<not> json_ws (CHR 0x22)" "\<not> json_ws (CHR '','')" "\<not> json_ws (CHR '':'')" "\<not> json_ws (CHR ''['')"
  "\<not> json_ws (CHR '']'')" "\<not> json_ws (CHR ''{'')" "\<not> json_ws (CHR ''}'')"
  by (simp_all add: json_ws_def)

lemma has_prefix_char [simp]: "has_prefix (c # s) [d] = (c = d)"
  by (simp add: has_prefix_def)

lemma join_with_Cons: "xs \<noteq> [] \<Longrightarrow> join_with sep (x # xs) = x @ sep @ join_with sep xs"
  by (cases xs) simp_all

text \<open>A text is read as \<open>v\<close>, whatever follows it, with fuel \<open>k\<close> or more.\<close>

definition reads_as :: "nat \<Rightarrow> string \<Rightarrow> json \<Rightarrow> bool" where
  "reads_as k t v = (\<forall>n s. k \<le> n \<longrightarrow> read_value n (t @ s) = Some (v, s))"

lemma reads_as_string: "reads_as 1 (json_string k) (JStr k)"
  using read_value_string by (auto simp: reads_as_def Suc_le_eq gr0_conv_Suc simp del: read_value.simps)

lemma reads_as_bool: "reads_as 1 (json_bool b) (JBool b)"
  using read_value_bool by (auto simp: reads_as_def Suc_le_eq gr0_conv_Suc simp del: read_value.simps)

lemma read_members_print:
  assumes "\<forall>(k, t, v) \<in> set ms. reads_as d t v" "ms \<noteq> []" "length ms + d \<le> n"
  shows "read_members n (join_with '','' (map (\<lambda>(k, t, v). json_key k @ t) ms) @ ''}'' @ s)
    = Some (map (\<lambda>(k, t, v). (k, v)) ms, s)"
  using assms
proof (induction ms arbitrary: n)
  case (Cons m ms)
  obtain k t v where m: "m = (k, t, v)" by (cases m)
  obtain n' where n: "n = Suc n'" "d \<le> n'" "length ms + d \<le> n'" using Cons.prems(3) by (cases n) auto
  have val: "read_value n' (t @ x) = Some (v, x)" for x
    using Cons.prems(1) n(2) by (simp add: m reads_as_def)
  have str: "read_string (concat (map json_escape_char k) @ CHR 0x22 # x) = Some (k, x)" for x
    by (rule read_string_print)
  have sep: "skip_ws (CHR ''}'' # x) = CHR ''}'' # x" "skip_ws (CHR '','' # x) = CHR '','' # x"
    "skip_ws (CHR '':'' # x) = CHR '':'' # x" "skip_ws (CHR 0x22 # x) = CHR 0x22 # x" for x
    by (simp_all add: skip_ws_char)
  show ?case
  proof (cases ms)
    case Nil
    then show ?thesis
      by (simp add: m n json_key_def json_string_def str val sep Let_def)
  next
    case (Cons m' ms')
    then have "read_members n' (join_with '','' (map (\<lambda>(k, t, v). json_key k @ t) ms) @ ''}'' @ s)
        = Some (map (\<lambda>(k, t, v). (k, v)) ms, s)"
      using Cons.IH Cons.prems(1) n(3) by simp
    then show ?thesis using Cons
      by (simp add: m n json_key_def json_string_def str val sep Let_def join_with_Cons)
  qed
qed simp

lemma read_elements_print:
  assumes "\<forall>x \<in> set xs. reads_as d (pr x) (val x)" "xs \<noteq> []" "length xs + d \<le> n"
  shows "read_elements n (join_with '','' (map pr xs) @ '']'' @ s) = Some (map val xs, s)"
  using assms
proof (induction xs arbitrary: n)
  case (Cons x xs)
  obtain n' where n: "n = Suc n'" "d \<le> n'" "length xs + d \<le> n'" using Cons.prems(3) by (cases n) auto
  have val: "read_value n' (pr x @ y) = Some (val x, y)" for y
    using Cons.prems(1) n(2) by (simp add: reads_as_def)
  have sep: "skip_ws (CHR '']'' # y) = CHR '']'' # y" "skip_ws (CHR '','' # y) = CHR '','' # y" for y
    by (simp_all add: skip_ws_char)
  show ?case
  proof (cases xs)
    case Nil
    then show ?thesis by (simp add: n val sep Let_def)
  next
    case (Cons x' xs')
    then have "read_elements n' (join_with '','' (map pr xs) @ '']'' @ s) = Some (map val xs, s)"
      using Cons.IH Cons.prems(1) n(3) by simp
    then show ?thesis using Cons by (simp add: n val sep Let_def join_with_Cons)
  qed
qed simp

lemma reads_as_object:
  assumes "\<forall>(k, t, v) \<in> set ms. reads_as d t v" "ms \<noteq> []"
  shows "reads_as (Suc (length ms + d)) (json_object (map (\<lambda>(k, t, v). json_key k @ t) ms))
    (JObj (map (\<lambda>(k, t, v). (k, v)) ms))"
  unfolding reads_as_def
proof (intro allI impI)
  fix n s assume "Suc (length ms + d) \<le> n"
  then obtain n' where n: "n = Suc n'" "length ms + d \<le> n'" by (cases n) auto
  obtain m ms' where m: "ms = m # ms'" using assms(2) by (cases ms) auto
  have hd: "\<exists>y. join_with '','' (map (\<lambda>(k, t, v). json_key k @ t) ms) @ z = CHR 0x22 # y" for z
    by (cases m; cases ms') (simp_all add: m json_key_def json_string_def)
  then obtain y where y: "join_with '','' (map (\<lambda>(k, t, v). json_key k @ t) ms) @ ''}'' @ s = CHR 0x22 # y" by blast
  show "read_value n (json_object (map (\<lambda>(k, t, v). json_key k @ t) ms) @ s)
      = Some (JObj (map (\<lambda>(k, t, v). (k, v)) ms), s)"
    using read_members_print [OF assms n(2), of s] y
    by (simp add: n json_object_def skip_ws_char Let_def)
qed

lemma read_value_array: "read_value (Suc n) (CHR ''['' # s) =
    (if has_prefix (skip_ws s) '']'' then Some (JArr [], tl (skip_ws s))
     else map_option (map_prod JArr id) (read_elements n (skip_ws s)))"
  by (simp add: skip_ws_char Let_def)

text \<open>A printed list of objects is read back.\<close>

lemma parse_json_list:
  assumes "\<forall>x \<in> set xs. reads_as d (pr x) (val x)" "\<forall>x \<in> set xs. d < length (pr x) \<and> hd (pr x) = CHR ''{''"
  shows "parse_json (json_list (map pr xs)) = Some (JArr (map val xs))"
proof (cases xs)
  case Nil
  then show ?thesis
    by (simp add: parse_json_def json_list_def skip_ws_char read_value_array del: read_value.simps) (simp add: skip_ws_def)
next
  case (Cons x xs')
  let ?t = "join_with '','' (map pr xs)"
  have "length xs + d \<le> length (join_with '','' (map pr xs))" if "xs \<noteq> []" "\<forall>x \<in> set xs. d < length (pr x)" for xs
    using that
  proof (induction xs)
    case (Cons x xs)
    then show ?case by (cases "xs = []") (auto simp: join_with_Cons)
  qed simp
  then have "length xs + d \<le> length ?t" using assms(2) Cons by blast
  then have "read_elements (Suc (length ?t + 2)) (?t @ '']'' @ []) = Some (map val xs, [])"
    using assms(1) Cons by (intro read_elements_print) auto
  moreover obtain y where "pr x = CHR ''{'' # y" using assms(2) Cons by (cases "pr x") auto
  then have "\<exists>y. ?t @ '']'' = CHR ''{'' # y" using Cons by (cases xs') simp_all
  then obtain y where y: "?t @ '']'' = CHR ''{'' # y" by blast
  moreover have "length ?t = length y" using arg_cong [OF y, of length] by simp
  moreover from y have "skip_ws (?t @ '']'') = ?t @ '']''" by (simp add: skip_ws_char)
  moreover have "json_list (map pr xs) = CHR ''['' # ?t @ '']''" by (simp add: json_list_def)
  moreover have "skip_ws [] = []" by (simp add: skip_ws_def)
  ultimately show ?thesis
    by (simp add: parse_json_def read_value_array del: read_value.simps read_elements.simps)
qed

end
