(* ===== verification/Mfa.thy ===== *)
theory Mfa
  imports AuthService Json
begin

text \<open>
  Second factors (\<open>internal/mfa/totp.go\<close>, \<open>internal/mfa/service.go\<close>): TOTP secrets, backup codes and
  their JSON form in the column \<open>backup_codes\<close>, and the checks of the login flow. The TOTP library is
  \<open>totp_generate\<close> and \<open>totp_validate\<close> of \<open>ext\<close>; \<open>totp_generate\<close> stands for generating the key,
  rendering its image and encoding it as PNG, which fail as one.
\<close>

section \<open>Codes and secrets\<close>

definition BackupCodeCount :: nat where "BackupCodeCount = 8"
definition BackupCodeLen :: nat where "BackupCodeLen = 10"

datatype mfa_error = ErrMFAAlreadySetup | ErrMFANotSetup | ErrVerificationFailed
  | ErrInvalidTOTPCode | ErrInvalidBackupCode | ErrCodeAlreadyUsed | MfaInternal

record TOTPSetup =
  ts_Secret :: string
  ts_QRCodePNG :: string
  ts_ManualEntryKey :: string

fun chunks4 :: "string \<Rightarrow> string list" where
  "chunks4 (a # b # c # d # s) = [a, b, c, d] # chunks4 s"
| "chunks4 [] = []"
| "chunks4 s = [s]"

definition formatManualKey :: "string \<Rightarrow> string" where
  "formatManualKey secret =
     (let s = to_upper (filter (\<lambda>c. c \<noteq> CHR '' '') secret);
          s = rev (dropWhile (\<lambda>c. c = CHR ''='') (rev s))
      in join_with '' '' (chunks4 s))"

definition GenerateTOTPSetup :: "ext \<Rightarrow> string \<Rightarrow> TOTPSetup option action" where
  "GenerateTOTPSetup E email = do {
     n \<leftarrow> reads rand_ctr;
     modifies (\<lambda>w. w\<lparr>rand_ctr := rand_ctr w + 1\<rparr>);
     ret (case totp_generate E n email of
            None \<Rightarrow> None
          | Some (secret, png) \<Rightarrow>
              Some \<lparr>ts_Secret = secret, ts_QRCodePNG = ''data:image/png;base64,'' @ b64_std_encode png,
                ts_ManualEntryKey = formatManualKey secret\<rparr>)
   }"

definition VerifyTOTP :: "ext \<Rightarrow> string \<Rightarrow> string \<Rightarrow> time \<Rightarrow> mfa_error + bool" where
  "VerifyTOTP E secret code now =
     (let code = trim_space code in
      if length code \<noteq> 6 then Inl ErrInvalidTOTPCode
      else (case totp_validate E code secret now of None \<Rightarrow> Inl MfaInternal | Some valid \<Rightarrow> Inr valid))"

record BackupCode =
  bc_Code :: string
  bc_UsedAt :: string
  bc_IsUsed :: bool

definition code_charset :: string where
  "code_charset = ''ABCDEFGHJKMNPQRSTUVWXYZ23456789''"

definition generateRandomCode :: "ext \<Rightarrow> nat \<Rightarrow> string option action" where
  "generateRandomCode E len = do {
     bytes \<leftarrow> rand_read E len;
     ret (case bytes of
            None \<Rightarrow> None
          | Some bytes \<Rightarrow>
              let code = map (\<lambda>b. code_charset ! (of_char b mod length code_charset)) bytes in
              Some (if len \<ge> 10 then take 5 code @ ''-'' @ drop 5 code else code))
   }"

fun generate_codes :: "ext \<Rightarrow> nat \<Rightarrow> BackupCode list option action" where
  "generate_codes E 0 = ret (Some [])"
| "generate_codes E (Suc n) = do {
     code \<leftarrow> generateRandomCode E BackupCodeLen;
     (case code of
        None \<Rightarrow> ret None
      | Some code \<Rightarrow> do {
          rest \<leftarrow> generate_codes E n;
          ret (map_option ((#) \<lparr>bc_Code = code, bc_UsedAt = '''', bc_IsUsed = False\<rparr>) rest)
        })
   }"

definition GenerateBackupCodes :: "ext \<Rightarrow> BackupCode list option action" where
  "GenerateBackupCodes E = generate_codes E BackupCodeCount"

text \<open>The JSON of a code: \<open>used_at\<close> is omitted when empty.\<close>

definition code_json :: "BackupCode \<Rightarrow> string" where
  "code_json c = json_object
     ([json_key ''code'' @ json_string (bc_Code c)]
      @ (if bc_UsedAt c = '''' then [] else [json_key ''used_at'' @ json_string (bc_UsedAt c)])
      @ [json_key ''is_used'' @ json_bool (bc_IsUsed c)])"

definition SerializeBackupCodes :: "BackupCode list \<Rightarrow> string" where
  "SerializeBackupCodes codes = json_list (map code_json codes)"

text \<open>Storing one member of an object into the struct, as \<open>json.Unmarshal\<close> does.\<close>

definition code_field :: "string \<times> json \<Rightarrow> BackupCode \<Rightarrow> BackupCode option" where
  "code_field m c =
     (let k = fst m; v = snd m in
      if equal_fold k ''code'' then
        (case v of JStr s \<Rightarrow> Some (c\<lparr>bc_Code := s\<rparr>) | JNull \<Rightarrow> Some c | _ \<Rightarrow> None)
      else if equal_fold k ''used_at'' then
        (case v of JStr s \<Rightarrow> Some (c\<lparr>bc_UsedAt := s\<rparr>) | JNull \<Rightarrow> Some c | _ \<Rightarrow> None)
      else if equal_fold k ''is_used'' then
        (case v of JBool b \<Rightarrow> Some (c\<lparr>bc_IsUsed := b\<rparr>) | JNull \<Rightarrow> Some c | _ \<Rightarrow> None)
      else Some c)"

fun code_fields :: "(string \<times> json) list \<Rightarrow> BackupCode \<Rightarrow> BackupCode option" where
  "code_fields [] c = Some c"
| "code_fields (m # ms) c = (case code_field m c of None \<Rightarrow> None | Some c' \<Rightarrow> code_fields ms c')"

definition zero_code :: BackupCode where
  "zero_code = \<lparr>bc_Code = '''', bc_UsedAt = '''', bc_IsUsed = False\<rparr>"

fun code_of_json :: "json \<Rightarrow> BackupCode option" where
  "code_of_json (JObj ms) = code_fields ms zero_code"
| "code_of_json JNull = Some zero_code"
| "code_of_json _ = None"

fun codes_of_json :: "json \<Rightarrow> BackupCode list option" where
  "codes_of_json (JArr vs) = those (map code_of_json vs)"
| "codes_of_json JNull = Some []"
| "codes_of_json _ = None"

definition DeserializeBackupCodes :: "string \<Rightarrow> BackupCode list option" where
  "DeserializeBackupCodes data = (case parse_json data of None \<Rightarrow> None | Some v \<Rightarrow> codes_of_json v)"

fun use_code :: "time \<Rightarrow> string \<Rightarrow> BackupCode list \<Rightarrow> BackupCode list option" where
  "use_code now input [] = None"
| "use_code now input (c # cs) =
     (if \<not> bc_IsUsed c \<and> equal_fold (bc_Code c) input
      then Some (c\<lparr>bc_IsUsed := True, bc_UsedAt := rfc3339 now\<rparr> # cs)
      else map_option ((#) c) (use_code now input cs))"

definition UseBackupCode :: "BackupCode list \<Rightarrow> string \<Rightarrow> time \<Rightarrow> mfa_error + BackupCode list" where
  "UseBackupCode codes inputCode now =
     (case use_code now (to_upper (trim_space inputCode)) codes of
        None \<Rightarrow> Inl ErrInvalidBackupCode | Some codes' \<Rightarrow> Inr codes')"

definition EncryptTOTPSecret :: "string \<Rightarrow> string" where
  "EncryptTOTPSecret secret = b64_std_encode secret"

definition DecryptTOTPSecret :: "string \<Rightarrow> string option" where
  "DecryptTOTPSecret encoded = b64_std_decode encoded"

section \<open>The service\<close>

record ConfirmTOTPSetupParams =
  ct_UserID :: string
  ct_Secret :: string
  ct_Code :: string
  ct_DeviceName :: string

record ConfirmTOTPSetupResult =
  cf_BackupCodes :: "string list"
  cf_CredentialID :: string

definition mfa_logAudit :: "ext \<Rightarrow> string \<Rightarrow> string \<Rightarrow> string \<Rightarrow> string \<Rightarrow> unit action" where
  "mfa_logAudit E userID actionType res severity = do {
     i \<leftarrow> new_uuid E;
     _ \<leftarrow> db_write (q_CreateAuditEntry i (nullstr userID) None None actionType None res None None severity);
     ret ()
   }"

definition InitiateTOTPSetup :: "ext \<Rightarrow> string \<Rightarrow> (mfa_error + TOTPSetup) action" where
  "InitiateTOTPSetup E userID = do {
     user \<leftarrow> db_read (q_GetUserByID userID);
     (case user of
        Inl _ \<Rightarrow> ret (Inl MfaInternal)
      | Inr user \<Rightarrow> do {
          setup \<leftarrow> GenerateTOTPSetup E (u_email user);
          ret (case setup of None \<Rightarrow> Inl MfaInternal | Some setup \<Rightarrow> Inr setup)
        })
   }"

definition ConfirmTOTPSetup :: "ext \<Rightarrow> ConfirmTOTPSetupParams \<Rightarrow> (mfa_error + ConfirmTOTPSetupResult) action" where
  "ConfirmTOTPSetup E params = do {
     now \<leftarrow> reads clock;
     (if VerifyTOTP E (ct_Secret params) (ct_Code params) now \<noteq> Inr True then ret (Inl ErrVerificationFailed)
      else do {
        let encrypted = EncryptTOTPSecret (ct_Secret params);
        backupCodes \<leftarrow> GenerateBackupCodes E;
        (case backupCodes of
           None \<Rightarrow> ret (Inl MfaInternal)
         | Some backupCodes \<Rightarrow> do {
             credID \<leftarrow> new_uuid E;
             r \<leftarrow> db_write (q_CreateMFACredential credID (ct_UserID params) ''totp'' (ct_DeviceName params) encrypted);
             (case r of
                Inl _ \<Rightarrow> ret (Inl MfaInternal)
              | Inr _ \<Rightarrow> do {
                  r \<leftarrow> db_write (q_SetBackupCodes (SerializeBackupCodes backupCodes) (ct_UserID params));
                  (case r of
                     Inl _ \<Rightarrow> ret (Inl MfaInternal)
                   | Inr _ \<Rightarrow> do {
                       mfa_logAudit E (ct_UserID params) ''mfa.totp.setup'' ''success'' ''info'';
                       ret (Inr \<lparr>cf_BackupCodes = map bc_Code backupCodes, cf_CredentialID = credID\<rparr>)
                     })
                })
           })
      })
   }"

definition user_claims :: "string \<Rightarrow> string \<Rightarrow> string \<Rightarrow> claims" where
  "user_claims userID email role = \<lparr>UserID = userID, Email = email, Role = role, SessionID = '''',
     IssuedAt = zero_time, ExpiresAt = zero_time, Issuer = '''', Subject = ''''\<rparr>"

text \<open>Whether a credential accepts the code; decoding and validation errors skip it.\<close>

definition cred_accepts :: "ext \<Rightarrow> string \<Rightarrow> time \<Rightarrow> cred_row \<Rightarrow> bool" where
  "cred_accepts E code now cred =
     (case DecryptTOTPSecret (m_credential_data cred) of
        None \<Rightarrow> False
      | Some secret \<Rightarrow> VerifyTOTP E secret code now = Inr True)"

definition VerifyTOTPForLogin :: "ext \<Rightarrow> string \<Rightarrow> string \<Rightarrow> (mfa_error + claims) action" where
  "VerifyTOTPForLogin E userID code = do {
     now \<leftarrow> reads clock;
     cs \<leftarrow> db_read (q_ListMFACredentialsByUserID userID);
     (case cs of
        Inl _ \<Rightarrow> ret (Inl MfaInternal)
      | Inr cs \<Rightarrow> do {
          let totpCreds = filter (\<lambda>c. m_type c = ''totp'') cs;
          (if length totpCreds = 0 then ret (Inl ErrMFANotSetup)
           else (case find (cred_accepts E code now) totpCreds of
                   None \<Rightarrow> do {
                     mfa_logAudit E userID ''auth.mfa.failure'' ''failure'' ''warning'';
                     ret (Inl ErrInvalidTOTPCode)
                   }
                 | Some cred \<Rightarrow> do {
                     _ \<leftarrow> db_write (q_UpdateMFASignCount (m_sign_count cred) (m_id cred));
                     mfa_logAudit E userID ''auth.mfa.success'' ''success'' ''info'';
                     user \<leftarrow> db_read (q_GetUserByID userID);
                     (case user of
                        Inl _ \<Rightarrow> ret (Inl MfaInternal)
                      | Inr user \<Rightarrow> ret (Inr (user_claims userID (u_email user) (u_role user))))
                   }))
        })
   }"

definition UseBackupCodeForLogin :: "ext \<Rightarrow> string \<Rightarrow> string \<Rightarrow> (mfa_error + claims) action" where
  "UseBackupCodeForLogin E userID code = do {
     now \<leftarrow> reads clock;
     user \<leftarrow> db_read (q_GetUserByID userID);
     (case user of
        Inl _ \<Rightarrow> ret (Inl MfaInternal)
      | Inr user \<Rightarrow>
          if str_of_null (u_backup_codes user) = '''' then ret (Inl ErrMFANotSetup)
          else (case DeserializeBackupCodes (str_of_null (u_backup_codes user)) of
                  None \<Rightarrow> ret (Inl MfaInternal)
                | Some codes \<Rightarrow>
                    (case UseBackupCode codes code now of
                       Inl e \<Rightarrow> do {
                         mfa_logAudit E userID ''auth.backup_code.failure'' ''failure'' ''warning'';
                         ret (Inl e)
                       }
                     | Inr updated \<Rightarrow> do {
                         _ \<leftarrow> db_write (q_SetBackupCodes (SerializeBackupCodes updated) userID);
                         mfa_logAudit E userID ''auth.backup_code.used'' ''success'' ''warning'';
                         ret (Inr (user_claims userID (u_email user) (u_role user)))
                       })))
   }"

definition read_cred :: "ext \<Rightarrow> cred_row \<Rightarrow> cred_row" where
  "read_cred E m = m\<lparr>m_created_at := datetime_text E (m_created_at m),
     m_last_used_at := map_option (datetime_text E) (m_last_used_at m)\<rparr>"

definition mfa_ListCredentials :: "ext \<Rightarrow> string \<Rightarrow> (sql_error + cred_row list) action" where
  "mfa_ListCredentials E userID = do {
     r \<leftarrow> db_read (q_ListMFACredentialsByUserID userID);
     ret (case r of Inl e \<Rightarrow> Inl e | Inr cs \<Rightarrow> Inr (map (read_cred E) cs))
   }"

definition mfa_RemoveCredential :: "ext \<Rightarrow> string \<Rightarrow> string \<Rightarrow> (mfa_error + unit) action" where
  "mfa_RemoveCredential E credID userID = do {
     r \<leftarrow> db_write (q_DeactivateMFACredential credID userID);
     (case r of
        Inl _ \<Rightarrow> ret (Inl MfaInternal)
      | Inr _ \<Rightarrow> do {
          mfa_logAudit E userID ''mfa.credential.removed'' credID ''warning'';
          ret (Inr ())
        })
   }"

section \<open>Statements only\<close>

lemma GenerateTOTPSetup_silent [silent_intros]: "silent (GenerateTOTPSetup E em)"
  by (simp add: GenerateTOTPSetup_def silent_def)

lemmas GenerateTOTPSetup_steady [steady_intros] = GenerateTOTPSetup_silent [THEN silent_steady]

lemma generateRandomCode_silent [silent_intros]: "silent (generateRandomCode E n)"
  unfolding generateRandomCode_def by (intro silent_intros)

lemma generate_codes_silent: "silent (generate_codes E n)"
proof (induction n)
  case (Suc n)
  show ?case unfolding generate_codes.simps by (intro silent_intros Suc)
qed (simp add: silent_def)

lemma GenerateBackupCodes_silent [silent_intros]: "silent (GenerateBackupCodes E)"
  unfolding GenerateBackupCodes_def by (rule generate_codes_silent)

lemmas GenerateBackupCodes_steady [steady_intros] = GenerateBackupCodes_silent [THEN silent_steady]

lemma mfa_logAudit_steady [steady_intros]: "steady (mfa_logAudit E u ac rs sv)"
  unfolding mfa_logAudit_def by (intro steady_intros)

lemma InitiateTOTPSetup_steady [steady_intros]: "steady (InitiateTOTPSetup E u)"
  unfolding InitiateTOTPSetup_def by (intro steady_intros)

lemma ConfirmTOTPSetup_steady [steady_intros]: "steady (ConfirmTOTPSetup E ps)"
  unfolding ConfirmTOTPSetup_def by (intro steady_intros)

lemma VerifyTOTPForLogin_steady [steady_intros]: "steady (VerifyTOTPForLogin E u c)"
  unfolding VerifyTOTPForLogin_def by (intro steady_intros)

lemma UseBackupCodeForLogin_steady [steady_intros]: "steady (UseBackupCodeForLogin E u c)"
  unfolding UseBackupCodeForLogin_def by (intro steady_intros)

lemma mfa_ListCredentials_steady [steady_intros]: "steady (mfa_ListCredentials E u)"
  unfolding mfa_ListCredentials_def by (intro steady_intros)

lemma mfa_RemoveCredential_steady [steady_intros]: "steady (mfa_RemoveCredential E c u)"
  unfolding mfa_RemoveCredential_def by (intro steady_intros)

interpretation mfa_audit: audit_sink "\<lambda>(u, ac, rs, sv). mfa_logAudit E u ac rs sv" for E
proof unfold_locales
  fix p :: "string \<times> string \<times> string \<times> string"
  show "logs_audit (case p of (u, ac, rs, sv) \<Rightarrow> mfa_logAudit E u ac rs sv)"
    by (cases p) (simp add: logs_audit_def mfa_logAudit_steady, simp only: mfa_logAudit_def audit_only_entry, simp)
qed

lemma mfa_logAudit_frame: "run_state (mfa_logAudit E u ac rs sv) w = (x, w') \<Longrightarrow> audit_only w w'"
  using mfa_audit.log_frame [of E "(u, ac, rs, sv)"] by simp

section \<open>Backup codes\<close>

definition code_value :: "BackupCode \<Rightarrow> json" where
  "code_value c = JObj
     ([(''code'', JStr (bc_Code c))]
      @ (if bc_UsedAt c = '''' then [] else [(''used_at'', JStr (bc_UsedAt c))])
      @ [(''is_used'', JBool (bc_IsUsed c))])"

definition code_members :: "BackupCode \<Rightarrow> (string \<times> string \<times> json) list" where
  "code_members c =
     [(''code'', json_string (bc_Code c), JStr (bc_Code c))]
     @ (if bc_UsedAt c = '''' then [] else [(''used_at'', json_string (bc_UsedAt c), JStr (bc_UsedAt c))])
     @ [(''is_used'', json_bool (bc_IsUsed c), JBool (bc_IsUsed c))]"

lemma code_json_members: "code_json c = json_object (map (\<lambda>(k, t, v). json_key k @ t) (code_members c))"
  "code_value c = JObj (map (\<lambda>(k, t, v). (k, v)) (code_members c))"
  by (simp_all add: code_json_def code_value_def code_members_def)

lemma reads_as_mono: "reads_as k t v \<Longrightarrow> k \<le> k' \<Longrightarrow> reads_as k' t v"
  by (auto simp: reads_as_def)

lemma code_json_reads: "reads_as 5 (code_json c) (code_value c)"
proof -
  have "\<forall>(k, t, v) \<in> set (code_members c). reads_as 1 t v"
    by (auto simp: code_members_def reads_as_string [simplified] reads_as_bool [simplified])
  from reads_as_object [OF this] show ?thesis unfolding code_json_members
    by (rule reads_as_mono) (simp_all add: code_members_def)
qed

lemma code_of_value [simp]: "code_of_json (code_value c) = Some c"
  by (simp add: code_value_def zero_code_def code_field_def equal_fold_def to_lower_def lower_char_def Let_def)

lemma codes_of_values: "codes_of_json (JArr (map code_value cs)) = Some cs"
  by (induction cs) simp_all

lemma code_json_shape: "5 < length (code_json c) \<and> hd (code_json c) = CHR ''{''"
  by (simp add: code_json_def json_object_def json_key_def json_string_def json_bool_def)

lemma Deserialize_Serialize: "DeserializeBackupCodes (SerializeBackupCodes codes) = Some codes"
proof -
  have "parse_json (json_list (map code_json codes)) = Some (JArr (map code_value codes))"
    by (rule parse_json_list [where d = 5]) (simp_all add: code_json_reads code_json_shape)
  then show ?thesis by (simp add: DeserializeBackupCodes_def SerializeBackupCodes_def codes_of_values del: codes_of_json.simps)
qed

text \<open>Backup codes survive their storage: what \<open>SerializeBackupCodes\<close> prints,
  \<open>DeserializeBackupCodes\<close> reads back as the same list, whatever bytes the codes hold.\<close>

theorem backup_codes_round_trip: "DeserializeBackupCodes (SerializeBackupCodes codes) = Some codes"
  by (rule Deserialize_Serialize)

text \<open>The codes stored for a user, and how many of them a given input would still match.\<close>

definition stored_codes :: "database \<Rightarrow> string \<Rightarrow> BackupCode list option" where
  "stored_codes d u =
     (case q_GetUserByID u d of
        Inl _ \<Rightarrow> None | Inr row \<Rightarrow> DeserializeBackupCodes (str_of_null (u_backup_codes row)))"

definition open_codes :: "string \<Rightarrow> BackupCode list \<Rightarrow> nat" where
  "open_codes input cs =
     length (filter (\<lambda>c. \<not> bc_IsUsed c \<and> equal_fold (bc_Code c) (to_upper (trim_space input))) cs)"

lemma use_code_Some:
  "use_code now inp cs = Some cs' \<Longrightarrow>
   length (filter (\<lambda>c. \<not> bc_IsUsed c \<and> equal_fold (bc_Code c) inp) cs)
     = Suc (length (filter (\<lambda>c. \<not> bc_IsUsed c \<and> equal_fold (bc_Code c) inp) cs'))
   \<and> map bc_Code cs' = map bc_Code cs"
  by (induction cs arbitrary: cs') (auto split: if_splits)

lemma use_code_None: "use_code now inp cs = None \<longleftrightarrow> (\<forall>c \<in> set cs. bc_IsUsed c \<or> \<not> equal_fold (bc_Code c) inp)"
  by (induction cs) auto

lemma UseBackupCode_refused: "open_codes input cs = 0 \<longleftrightarrow> UseBackupCode cs input now = Inl ErrInvalidBackupCode"
  using use_code_None [of now "to_upper (trim_space input)" cs]
  by (auto simp: UseBackupCode_def open_codes_def filter_empty_conv split: option.split)

lemma SetBackupCodes_found:
  assumes "q_SetBackupCodes c u now d = Inr (x, d')"
  shows "q_GetUserByID i d' = map_sum id (\<lambda>r. if u_id r = u then r\<lparr>u_backup_codes := Some c\<rparr> else r) (q_GetUserByID i d)"
proof -
  have "users d' = map (\<lambda>r. if u_id r = u then r\<lparr>u_backup_codes := Some c\<rparr> else r) (users d)"
    using assms by (auto simp: q_SetBackupCodes_def update_rows_def)
  then show ?thesis unfolding q_GetUserByID_def by (simp add: first_row_map)
qed

lemma GetUserByID_id: "q_GetUserByID i d = Inr r \<Longrightarrow> u_id r = i \<and> u_is_active r = 1"
  unfolding q_GetUserByID_def by (drule first_row_Inr) simp

lemma stored_codes_written:
  assumes "q_SetBackupCodes (SerializeBackupCodes cs) u now d = Inr (x, d')" "q_GetUserByID u d = Inr row"
  shows "stored_codes d' u = Some cs"
  using SetBackupCodes_found [OF assms(1), of u] assms(2) GetUserByID_id [OF assms(2)]
  by (simp add: stored_codes_def str_of_null_def Deserialize_Serialize)

lemma stored_codes_cong: "users d' = users d \<Longrightarrow> stored_codes d' u = stored_codes d u"
  by (simp add: stored_codes_def q_GetUserByID_def)

lemma UseBackupCodeForLogin_effect:
  assumes run: "run_state (UseBackupCodeForLogin E u code) w = (Inr cl, w')" and "faults w = []"
  obtains codes codes' row where "stored_codes (db w) u = Some codes"
    "UseBackupCode codes code (clock w) = Inr codes'" "stored_codes (db w') u = Some codes'"
    "q_GetUserByID u (db w) = Inr row" "cl = user_claims u (u_email row) (u_role row)"
    "faults w' = []" "clock w' = clock w" "\<exists>row'. q_GetUserByID u (db w') = Inr row' \<and> str_of_null (u_backup_codes row') \<noteq> ''''"
proof -
  obtain row codes codes' where row: "q_GetUserByID u (db w) = Inr row" "str_of_null (u_backup_codes row) \<noteq> ''''"
    and codes: "DeserializeBackupCodes (str_of_null (u_backup_codes row)) = Some codes"
      "UseBackupCode codes code (clock w) = Inr codes'"
    and cl: "cl = user_claims u (u_email row) (u_role row)"
    using assms by (auto simp: UseBackupCodeForLogin_def split: sum.splits option.splits if_splits prod.splits)
  obtain d' where wr: "q_SetBackupCodes (SerializeBackupCodes codes') u (current_timestamp (clock w)) (db w) = Inr ((), d')"
    by (simp add: q_SetBackupCodes_def)
  have w': "run_state (mfa_logAudit E u ''auth.backup_code.used'' ''success'' ''warning'') (w\<lparr>db := d'\<rparr>) = ((), w')"
    using assms row codes wr by (auto simp: UseBackupCodeForLogin_def split: prod.splits)
  note fr = audit_onlyD [OF mfa_logAudit_frame [OF w']]
  have ne: "SerializeBackupCodes codes' \<noteq> ''''" by (simp add: SerializeBackupCodes_def json_list_def)
  show ?thesis
  proof (rule that [of codes codes' row])
    show "stored_codes (db w) u = Some codes" using row codes by (simp add: stored_codes_def)
    show "stored_codes (db w') u = Some codes'"
      using stored_codes_written [OF wr row(1)] fr(1) stored_codes_cong [of "db w'" d'] by simp
    show "faults w' = []" "clock w' = clock w" using fr(8,10) assms(2) by simp_all
    show "\<exists>row'. q_GetUserByID u (db w') = Inr row' \<and> str_of_null (u_backup_codes row') \<noteq> ''''"
      using SetBackupCodes_found [OF wr, of u] row(1) GetUserByID_id [OF row(1)] fr(1) ne
      by (simp add: q_GetUserByID_def str_of_null_def)
  qed (use row codes cl in simp_all)
qed

section \<open>Properties\<close>

text \<open>A use that lets the user in, whatever faults are ahead: the second database call is the write of the codes.\<close>

lemma UseBackupCodeForLogin_Inr:
  assumes run: "run_state (UseBackupCodeForLogin E u code) w = (Inr cl, w')"
  obtains codes codes' where "stored_codes (db w) u = Some codes" "UseBackupCode codes code (clock w) = Inr codes'"
    "stored_codes (db w') u = Some (if fault_at 1 w then codes else codes')"
proof -
  let ?w1 = "w\<lparr>faults := tl (faults w)\<rparr>"
  obtain row codes codes' where row: "q_GetUserByID u (db w) = Inr row"
    and codes: "DeserializeBackupCodes (str_of_null (u_backup_codes row)) = Some codes"
      "UseBackupCode codes code (clock w) = Inr codes'"
    and log: "run_state (do {
        _ \<leftarrow> db_write (q_SetBackupCodes (SerializeBackupCodes codes') u);
        mfa_logAudit E u ''auth.backup_code.used'' ''success'' ''warning''
      }) ?w1 = ((), w')"
    using run by (auto simp: UseBackupCodeForLogin_def run_db_read_at
        split: sum.splits option.splits if_splits prod.splits)
  obtain d' where wr: "q_SetBackupCodes (SerializeBackupCodes codes') u (current_timestamp (clock w)) (db w) = Inr ((), d')"
    by (simp add: q_SetBackupCodes_def)
  obtain x w2 where x: "run_state (db_write (q_SetBackupCodes (SerializeBackupCodes codes') u)) ?w1 = (x, w2)" by fastforce
  with log have "run_state (mfa_logAudit E u ''auth.backup_code.used'' ''success'' ''warning'') w2 = ((), w')" by simp
  then have "users (db w') = users (db w2)" by (rule audit_onlyD(1) [OF mfa_logAudit_frame])
  then have same: "stored_codes (db w') u = stored_codes (db w2) u" by (rule stored_codes_cong)
  have "db w2 = (if fault_at 1 w then db w else d')"
    using x wr by (auto simp: run_db_write_at split: if_splits)
  moreover have "stored_codes (db w) u = Some codes" using row codes by (simp add: stored_codes_def)
  moreover have "stored_codes d' u = Some codes'" by (rule stored_codes_written [OF wr row])
  ultimately show ?thesis using that [of codes codes'] codes(2) same by simp
qed

lemma DeserializeBackupCodes_empty: "DeserializeBackupCodes '''' = None"
  by (simp add: DeserializeBackupCodes_def parse_json_def skip_ws_def)

lemma stored_codes_found:
  assumes "stored_codes d u = Some codes"
  obtains row where "q_GetUserByID u d = Inr row" "str_of_null (u_backup_codes row) \<noteq> ''''"
    "DeserializeBackupCodes (str_of_null (u_backup_codes row)) = Some codes"
proof -
  from assms obtain row where row: "q_GetUserByID u d = Inr row"
    "DeserializeBackupCodes (str_of_null (u_backup_codes row)) = Some codes"
    by (auto simp: stored_codes_def split: sum.splits)
  then have "str_of_null (u_backup_codes row) \<noteq> ''''" by (metis DeserializeBackupCodes_empty option.distinct(1))
  with row that show ?thesis by blast
qed

text \<open>With no driver fault ahead, whether a code lets its user in depends on the stored codes alone.\<close>

lemma UseBackupCodeForLogin_answer:
  assumes "faults v = []" "stored_codes (db v) u = Some cs"
  shows "case fst (run_state (UseBackupCodeForLogin E u code) v) of
      Inr _ \<Rightarrow> open_codes code cs > 0
    | Inl e \<Rightarrow> e = ErrInvalidBackupCode \<and> open_codes code cs = 0"
proof -
  obtain row where row: "q_GetUserByID u (db v) = Inr row" "str_of_null (u_backup_codes row) \<noteq> ''''"
    "DeserializeBackupCodes (str_of_null (u_backup_codes row)) = Some cs"
    using assms(2) by (rule stored_codes_found)
  have "UseBackupCode cs code (clock v) = Inl e \<Longrightarrow> e = ErrInvalidBackupCode" for e
    by (auto simp: UseBackupCode_def split: option.splits)
  with row assms(1) UseBackupCode_refused [of code cs "clock v"] show ?thesis
    by (auto simp: UseBackupCodeForLogin_def q_SetBackupCodes_def split: prod.splits sum.splits)
qed

text \<open>C28: A backup code works once, when its use can be written down. A successful use is by a stored, unused
  code. If the write (the second database call) succeeds, exactly one such code is marked as used and
  no code is lost, so the number of stored codes the same input matches goes down by one; if the driver fails it, the
  error is ignored and the stored codes stay as they were. In any later state with these stored codes and no fault
  ahead, the same input lets the user in exactly when it still matches an unused one, and is refused as an invalid
  backup code otherwise. So a code that was stored once, and whose use was written, never works again; one stored twice
  works twice, and one whose use was not written works again.\<close>

theorem backup_code_single_use:
  assumes "run_state (UseBackupCodeForLogin E u code) w = (Inr cl, w')"
  shows "\<exists>codes codes'. stored_codes (db w) u = Some codes \<and> stored_codes (db w') u = Some codes'
    \<and> open_codes code codes > 0
    \<and> (if fault_at 1 w then codes' = codes
       else map bc_Code codes' = map bc_Code codes \<and> open_codes code codes = Suc (open_codes code codes'))
    \<and> (\<forall>v E'. faults v = [] \<and> stored_codes (db v) u = Some codes' \<longrightarrow>
         (case fst (run_state (UseBackupCodeForLogin E' u code) v) of
            Inr _ \<Rightarrow> open_codes code codes' > 0
          | Inl e \<Rightarrow> e = ErrInvalidBackupCode \<and> open_codes code codes' = 0))"
proof -
  obtain codes codes' where c: "stored_codes (db w) u = Some codes" "UseBackupCode codes code (clock w) = Inr codes'"
    "stored_codes (db w') u = Some (if fault_at 1 w then codes else codes')"
    by (rule UseBackupCodeForLogin_Inr [OF assms])
  from c(2) have "map bc_Code codes' = map bc_Code codes" "open_codes code codes = Suc (open_codes code codes')"
    using use_code_Some by (auto simp: UseBackupCode_def open_codes_def split: option.splits)
  with c show ?thesis using UseBackupCodeForLogin_answer
    by (intro exI [of _ codes] exI [of _ "if fault_at 1 w then codes else codes'"]) simp
qed

definition demo_code :: BackupCode where
  "demo_code = \<lparr>bc_Code = ''ABCDE-23456'', bc_UsedAt = '''', bc_IsUsed = False\<rparr>"

definition demo_coded :: user_row where
  "demo_coded = demo_user\<lparr>u_backup_codes := Some (SerializeBackupCodes [demo_code])\<rparr>"

definition demo_codes_world :: world where
  "demo_codes_world = demo_world\<lparr>db := demo_db\<lparr>users := [demo_coded]\<rparr>\<rparr>"

lemma SerializeBackupCodes_nonempty [simp]: "SerializeBackupCodes cs \<noteq> []"
  by (simp add: SerializeBackupCodes_def json_list_def)

lemma demo_coded_simps [simp]:
  "u_id demo_coded = ''u1''" "u_is_active demo_coded = 1"
  "u_backup_codes demo_coded = Some (SerializeBackupCodes [demo_code])"
  "bc_Code demo_code = ''ABCDE-23456''" "\<not> bc_IsUsed demo_code"
  "users (db demo_codes_world) = [demo_coded]" "faults demo_codes_world = []" "clock demo_codes_world = second"
  by (simp_all add: demo_coded_def demo_code_def demo_codes_world_def)

lemma demo_use_code:
  "\<exists>cl w'. run_state (UseBackupCodeForLogin demo_ext ''u1'' ''abcde-23456'') demo_codes_world = (Inr cl, w')"
  by (simp add: UseBackupCodeForLogin_def q_GetUserByID_def first_row_def str_of_null_def Deserialize_Serialize
      UseBackupCode_def equal_fold_def to_lower_def to_upper_def lower_char_def upper_char_def trim_space_def
      trim_left_def is_space_def q_SetBackupCodes_def split: prod.split)

theorem backup_code_single_use_witness:
  "\<exists>cl w' codes codes'. run_state (UseBackupCodeForLogin demo_ext ''u1'' ''abcde-23456'') demo_codes_world = (Inr cl, w')
     \<and> stored_codes (db demo_codes_world) ''u1'' = Some codes \<and> stored_codes (db w') ''u1'' = Some codes'
     \<and> open_codes ''abcde-23456'' codes = Suc (open_codes ''abcde-23456'' codes')"
proof -
  from demo_use_code obtain cl w' where
    run: "run_state (UseBackupCodeForLogin demo_ext ''u1'' ''abcde-23456'') demo_codes_world = (Inr cl, w')" by blast
  from backup_code_single_use [OF run] run show ?thesis by (auto simp: fault_at_def)
qed

text \<open>The write that marks a backup code as used is not checked. When the driver fails it, the login
  still succeeds, the stored codes are unchanged, and the same code is accepted a second time.\<close>

theorem backup_code_survives_fault:
  assumes "run_state (UseBackupCodeForLogin E u code) w = (Inr cl, w')" "faults w = [False, True]"
  shows "stored_codes (db w') u = stored_codes (db w) u
    \<and> (\<exists>w''. run_state (UseBackupCodeForLogin E u code) w' = (Inr cl, w''))"
proof -
  let ?w1 = "w\<lparr>faults := [True]\<rparr>"
  obtain row codes codes' where row: "q_GetUserByID u (db w) = Inr row" "str_of_null (u_backup_codes row) \<noteq> ''''"
    and codes: "DeserializeBackupCodes (str_of_null (u_backup_codes row)) = Some codes"
      "UseBackupCode codes code (clock w) = Inr codes'"
    and cl: "cl = user_claims u (u_email row) (u_role row)"
    and log: "run_state (mfa_logAudit E u ''auth.backup_code.used'' ''success'' ''warning'') (w\<lparr>faults := []\<rparr>) = ((), w')"
    using assms by (auto simp: UseBackupCodeForLogin_def db_read_def db_write_def next_fault_def
        split: sum.splits option.splits if_splits prod.splits)
  note fr = audit_onlyD [OF mfa_logAudit_frame [OF log]]
  have same: "q_GetUserByID u (db w') = Inr row" "faults w' = []" "clock w' = clock w"
    using row(1) fr(1,8,10) by (simp_all add: q_GetUserByID_def)
  have "stored_codes (db w') u = stored_codes (db w) u" using fr(1) by (intro stored_codes_cong) simp
  moreover have "\<exists>w''. run_state (UseBackupCodeForLogin E u code) w' = (Inr cl, w'')"
    using same row(2) codes cl by (auto simp: UseBackupCodeForLogin_def q_SetBackupCodes_def split: prod.split)
  ultimately show ?thesis by blast
qed

lemma demo_use_code_fault:
  "\<exists>cl w'. run_state (UseBackupCodeForLogin demo_ext ''u1'' ''abcde-23456'')
     (demo_codes_world\<lparr>faults := [False, True]\<rparr>) = (Inr cl, w')"
  by (simp add: UseBackupCodeForLogin_def q_GetUserByID_def first_row_def str_of_null_def Deserialize_Serialize
      UseBackupCode_def equal_fold_def to_lower_def to_upper_def lower_char_def upper_char_def trim_space_def
      trim_left_def is_space_def db_read_def db_write_def next_fault_def split: prod.split)

theorem backup_code_survives_fault_witness:
  "\<exists>cl w' w''. run_state (UseBackupCodeForLogin demo_ext ''u1'' ''abcde-23456'')
     (demo_codes_world\<lparr>faults := [False, True]\<rparr>) = (Inr cl, w')
     \<and> run_state (UseBackupCodeForLogin demo_ext ''u1'' ''abcde-23456'') w' = (Inr cl, w'')"
proof -
  from demo_use_code_fault obtain cl w' where
    run: "run_state (UseBackupCodeForLogin demo_ext ''u1'' ''abcde-23456'')
      (demo_codes_world\<lparr>faults := [False, True]\<rparr>) = (Inr cl, w')" by blast
  from backup_code_survives_fault [OF run] run show ?thesis by auto
qed

text \<open>Removing a second factor is never audited: the entry's result is the credential's identifier, which
  the table's constraint refuses unless it reads \<open>success\<close> or \<open>failure\<close>, and the error is only logged.\<close>

theorem remove_credential_unaudited:
  assumes "cred \<notin> {''success'', ''failure''}"
  shows "audits (db (snd (run_state (mfa_RemoveCredential E cred u) w))) = audits (db w)"
proof -
  have log: "db (snd (run_state (mfa_logAudit E u ac cred sv) v)) = db v" for v ac sv
    using assms
    by (auto simp: mfa_logAudit_def q_CreateAuditEntry_def db_write_def next_fault_def split: prod.splits list.splits if_splits)
  obtain x w1 where x: "run_state (db_write (q_DeactivateMFACredential cred u)) w = (x, w1)" by fastforce
  have "audits (db w1) = audits (db w)"
    using db_write_frame [OF x] by (cases x) (auto simp: q_DeactivateMFACredential_def update_rows_def)
  then show ?thesis
    using x log [of "''mfa.credential.removed''" "''warning''" w1]
    by (cases x) (auto simp: mfa_RemoveCredential_def split: prod.split)
qed

theorem remove_credential_unaudited_witness:
  "audits (db (snd (run_state (mfa_RemoveCredential demo_ext ''m1'' ''u1'') demo_mfa_world))) = audits (db demo_mfa_world)"
  by (rule remove_credential_unaudited) simp

text \<open>The list of a user's credentials after the sign count of one of them was written back: the same
  credentials in the same order, but for the use date.\<close>

lemma list_after_sign_count:
  assumes "q_UpdateMFASignCount n i now d = Inr (x, d')"
  shows "q_ListMFACredentialsByUserID u d' = map_sum id
    (map (\<lambda>m. if m_id m = i then m\<lparr>m_sign_count := n, m_last_used_at := Some now\<rparr> else m)) (q_ListMFACredentialsByUserID u d)"
proof -
  have "creds d' = map (\<lambda>m. if m_id m = i then m\<lparr>m_sign_count := n, m_last_used_at := Some now\<rparr> else m) (creds d)"
    using assms by (auto simp: q_UpdateMFASignCount_def update_rows_def)
  then show ?thesis by (simp add: q_ListMFACredentialsByUserID_def filter_map_same sort_key_map)
qed

lemma VerifyTOTPForLogin_effect:
  assumes "run_state (VerifyTOTPForLogin E u code) w = (Inr cl, w')" "faults w = []"
  obtains cs cred row d' where "q_ListMFACredentialsByUserID u (db w) = Inr cs"
    "find (cred_accepts E code (clock w)) (filter (\<lambda>c. m_type c = ''totp'') cs) = Some cred"
    "q_UpdateMFASignCount (m_sign_count cred) (m_id cred) (current_timestamp (clock w)) (db w) = Inr ((), d')"
    "q_GetUserByID u (db w) = Inr row" "cl = user_claims u (u_email row) (u_role row)"
    "users (db w') = users (db w)" "creds (db w') = creds d'" "clock w' = clock w" "faults w' = []"
proof -
  obtain cs cred where cs: "q_ListMFACredentialsByUserID u (db w) = Inr cs"
    "find (cred_accepts E code (clock w)) (filter (\<lambda>c. m_type c = ''totp'') cs) = Some cred"
    using assms by (auto simp: VerifyTOTPForLogin_def Let_def split: sum.splits option.splits if_splits prod.splits)
  obtain d' where d': "q_UpdateMFASignCount (m_sign_count cred) (m_id cred) (current_timestamp (clock w)) (db w) = Inr ((), d')"
    by (simp add: q_UpdateMFASignCount_def)
  obtain w1 where log: "run_state (mfa_logAudit E u ''auth.mfa.success'' ''success'' ''info'') (w\<lparr>db := d'\<rparr>) = ((), w1)"
    by (cases "run_state (mfa_logAudit E u ''auth.mfa.success'' ''success'' ''info'') (w\<lparr>db := d'\<rparr>)") simp
  note fr = audit_onlyD [OF mfa_logAudit_frame [OF log]]
  have f1: "faults w1 = []" using fr(10) assms(2) by simp
  have ne: "filter (\<lambda>c. m_type c = ''totp'') cs \<noteq> []" using cs(2) by auto
  have run: "(Inr cl, w') = (case q_GetUserByID u (db w1) of
      Inl _ \<Rightarrow> (Inl MfaInternal, w1) | Inr row \<Rightarrow> (Inr (user_claims u (u_email row) (u_role row)), w1))"
    using assms cs d' log f1 ne by (simp add: VerifyTOTPForLogin_def split: sum.splits)
  have us: "users d' = users (db w)" using d' by (auto simp: q_UpdateMFASignCount_def update_rows_def)
  have "q_GetUserByID u (db w1) = q_GetUserByID u (db w)" using fr(1) us by (simp add: q_GetUserByID_def)
  with run obtain row where "q_GetUserByID u (db w) = Inr row" "cl = user_claims u (u_email row) (u_role row)" "w' = w1"
    by (auto split: sum.splits)
  with that cs d' fr us f1 show ?thesis by simp
qed

lemma VerifyTOTPForLogin_accepts:
  assumes "faults w = []" "q_ListMFACredentialsByUserID u (db w) = Inr cs" "c \<in> set cs" "m_type c = ''totp''"
    and "cred_accepts E code (clock w) c" "q_GetUserByID u (db w) = Inr row"
  shows "\<exists>w'. run_state (VerifyTOTPForLogin E u code) w = (Inr (user_claims u (u_email row) (u_role row)), w')"
proof -
  have ne: "filter (\<lambda>c. m_type c = ''totp'') cs \<noteq> []" using assms(3,4) by (auto simp: filter_empty_conv)
  obtain cred where cred: "find (cred_accepts E code (clock w)) (filter (\<lambda>c. m_type c = ''totp'') cs) = Some cred"
    using assms(3-5) by (cases "find (cred_accepts E code (clock w)) (filter (\<lambda>c. m_type c = ''totp'') cs)")
      (auto simp: find_None_iff)
  obtain d2 where d2: "q_UpdateMFASignCount (m_sign_count cred) (m_id cred) (current_timestamp (clock w)) (db w) = Inr ((), d2)"
    by (simp add: q_UpdateMFASignCount_def)
  obtain w1 where log: "run_state (mfa_logAudit E u ''auth.mfa.success'' ''success'' ''info'') (w\<lparr>db := d2\<rparr>) = ((), w1)"
    by (cases "run_state (mfa_logAudit E u ''auth.mfa.success'' ''success'' ''info'') (w\<lparr>db := d2\<rparr>)") simp
  note fr = audit_onlyD [OF mfa_logAudit_frame [OF log]]
  have "users d2 = users (db w)" using d2 by (auto simp: q_UpdateMFASignCount_def update_rows_def)
  then have "q_GetUserByID u (db w1) = Inr row" using fr(1) assms(6) by (simp add: q_GetUserByID_def)
  then show ?thesis using assms(1,2) cred ne d2 log fr(10) by (simp add: VerifyTOTPForLogin_def)
qed

text \<open>A TOTP code is not used up by a login: nothing records the accepted time step, so the same code
  is accepted again at the same instant (no driver fault), for the same account.\<close>

theorem totp_code_replayable:
  assumes "run_state (VerifyTOTPForLogin E u code) w = (Inr cl, w')" "faults w = []"
  shows "\<exists>w''. run_state (VerifyTOTPForLogin E u code) w' = (Inr cl, w'')"
proof -
  from assms obtain cs cred row d' where cs: "q_ListMFACredentialsByUserID u (db w) = Inr cs"
    "find (cred_accepts E code (clock w)) (filter (\<lambda>c. m_type c = ''totp'') cs) = Some cred"
    and d': "q_UpdateMFASignCount (m_sign_count cred) (m_id cred) (current_timestamp (clock w)) (db w) = Inr ((), d')"
    and row: "q_GetUserByID u (db w) = Inr row" "cl = user_claims u (u_email row) (u_role row)"
    and fr: "users (db w') = users (db w)" "creds (db w') = creds d'" "clock w' = clock w" "faults w' = []"
    by (rule VerifyTOTPForLogin_effect)
  let ?g = "\<lambda>m. if m_id m = m_id cred then m\<lparr>m_sign_count := m_sign_count cred,
    m_last_used_at := Some (current_timestamp (clock w))\<rparr> else m"
  have cs': "q_ListMFACredentialsByUserID u (db w') = Inr (map ?g cs)"
    using list_after_sign_count [OF d', of u] cs(1) fr(2) by (simp add: q_ListMFACredentialsByUserID_def)
  from find_Some_in [OF cs(2)] have c: "cred \<in> set cs" "m_type cred = ''totp''" "cred_accepts E code (clock w) cred"
    by simp_all
  then have "?g cred \<in> set (map ?g cs)" by (rule_tac imageI [of cred "set cs" ?g, folded set_map])
  moreover have "m_type (?g cred) = ''totp''" "cred_accepts E code (clock w') (?g cred)"
    using c fr(3) by (simp_all add: cred_accepts_def)
  moreover have "q_GetUserByID u (db w') = Inr row" using row(1) fr(1) by (simp add: q_GetUserByID_def)
  ultimately show ?thesis unfolding row(2) by (intro VerifyTOTPForLogin_accepts [OF fr(4) cs'])
qed

lemma demo_verify_code: "VerifyTOTP demo_ext secret ''123456'' t = Inr True"
  by (simp add: VerifyTOTP_def trim_space_def trim_left_def is_space_def Let_def)

lemma demo_totp_login:
  "\<exists>cl w'. run_state (VerifyTOTPForLogin demo_ext ''u1'' ''123456'') demo_mfa_world = (Inr cl, w')"
  using VerifyTOTPForLogin_accepts [of demo_mfa_world "''u1''" "[demo_cred]" demo_cred demo_ext "''123456''" demo_user]
  by (auto simp: q_ListMFACredentialsByUserID_def q_GetUserByID_def first_row_def cred_accepts_def DecryptTOTPSecret_def
      demo_verify_code)

theorem totp_code_replayable_witness:
  "\<exists>cl w' w''. run_state (VerifyTOTPForLogin demo_ext ''u1'' ''123456'') demo_mfa_world = (Inr cl, w')
     \<and> run_state (VerifyTOTPForLogin demo_ext ''u1'' ''123456'') w' = (Inr cl, w'')"
proof -
  from demo_totp_login obtain cl w' where
    run: "run_state (VerifyTOTPForLogin demo_ext ''u1'' ''123456'') demo_mfa_world = (Inr cl, w')" by blast
  from totp_code_replayable [OF run] run show ?thesis by auto
qed

lemma generate_codes_effect:
  "run_state (generate_codes E n) w = (Some cs, w') \<Longrightarrow>
    (\<forall>c \<in> set cs. \<not> bc_IsUsed c) \<and> length cs = n \<and> db w' = db w \<and> clock w' = clock w \<and> faults w' = faults w"
proof (induction n arbitrary: w cs)
  case (Suc n)
  then show ?case
    by (auto simp: generateRandomCode_def Let_def split: option.splits prod.splits)
qed simp

text \<open>Setting up TOTP and logging in with it fit together: after a successful confirmation (no driver
  fault) the codes shown are the ones stored, unused, and a code the library accepts for the confirmed
  secret is accepted by the login of an active account.\<close>

theorem confirm_then_verify:
  assumes run: "run_state (ConfirmTOTPSetup E ps) w = (Inr r, w')" and "faults w = []"
    and "q_GetUserByID (ct_UserID ps) (db w) = Inr row" "VerifyTOTP E (ct_Secret ps) code (clock w') = Inr True"
  shows "(\<exists>codes. stored_codes (db w') (ct_UserID ps) = Some codes \<and> map bc_Code codes = cf_BackupCodes r
        \<and> (\<forall>c \<in> set codes. \<not> bc_IsUsed c))
    \<and> (\<exists>w''. run_state (VerifyTOTPForLogin E (ct_UserID ps) code) w'
         = (Inr (user_claims (ct_UserID ps) (u_email row) (u_role row)), w''))"
proof -
  let ?u = "ct_UserID ps"
  obtain bcs w1 where bcs: "run_state (GenerateBackupCodes E) w = (Some bcs, w1)" and ok: "VerifyTOTP E (ct_Secret ps) (ct_Code ps) (clock w) = Inr True"
    using run by (auto simp: ConfirmTOTPSetup_def Let_def split: prod.splits option.splits if_splits)
  note gen = generate_codes_effect [OF bcs [unfolded GenerateBackupCodes_def]]
  let ?i = "uuid E (uuid_ctr w1)"
  obtain m d1 where m: "q_CreateMFACredential ?i ?u ''totp'' (ct_DeviceName ps) (EncryptTOTPSecret (ct_Secret ps))
      (current_timestamp (clock w)) (db w) = Inr (m, d1)"
    using run bcs ok gen assms(2) by (auto simp: ConfirmTOTPSetup_def Let_def split: sum.splits prod.splits)
  obtain d2 where d2: "q_SetBackupCodes (SerializeBackupCodes bcs) ?u (current_timestamp (clock w)) d1 = Inr ((), d2)"
    by (simp add: q_SetBackupCodes_def)
  have log: "run_state (mfa_logAudit E ?u ''mfa.totp.setup'' ''success'' ''info'') (w1\<lparr>uuid_ctr := uuid_ctr w1 + 1, db := d2\<rparr>) = ((), w')"
    and r: "cf_BackupCodes r = map bc_Code bcs"
    using run bcs ok gen assms(2) m d2 by (auto simp: ConfirmTOTPSetup_def Let_def split: prod.splits)
  note fr = audit_onlyD [OF mfa_logAudit_frame [OF log]]
  have d1: "users d1 = users (db w)" "creds d1 = creds (db w) @ [m]" "m_type m = ''totp''" "m_user_id m = ?u"
    "m_is_active m = 1" "m_credential_data m = EncryptTOTPSecret (ct_Secret ps)"
    using m by (auto simp: q_CreateMFACredential_def insert_row_def split: if_splits)
  have row1: "q_GetUserByID ?u d1 = Inr row" using assms(3) d1(1) by (simp add: q_GetUserByID_def)
  have codes: "stored_codes (db w') ?u = Some bcs"
    using stored_codes_written [OF d2 row1] fr(1) stored_codes_cong [of "db w'" d2] by simp
  have cr: "creds d2 = creds d1" using d2 by (auto simp: q_SetBackupCodes_def update_rows_def)
  obtain cs where cs: "q_ListMFACredentialsByUserID ?u (db w') = Inr cs" "m \<in> set cs"
    using fr(2) cr d1(2,4,5) by (auto simp: q_ListMFACredentialsByUserID_def)
  have acc: "cred_accepts E code (clock w') m"
    using assms(4) d1(6) by (simp add: cred_accepts_def EncryptTOTPSecret_def DecryptTOTPSecret_def)
  have row': "q_GetUserByID ?u (db w') = Inr (row\<lparr>u_backup_codes := Some (SerializeBackupCodes bcs)\<rparr>)"
    using SetBackupCodes_found [OF d2, of ?u] row1 GetUserByID_id [OF row1] fr(1) by (simp add: q_GetUserByID_def)
  have f: "faults w' = []" using fr(10) gen assms(2) by simp
  from VerifyTOTPForLogin_accepts [OF f cs d1(3) acc row'] codes r gen show ?thesis by auto
qed

definition demo_confirm :: ConfirmTOTPSetupParams where
  "demo_confirm = \<lparr>ct_UserID = ''u1'', ct_Secret = ''JBSWY3DP'', ct_Code = ''123456'', ct_DeviceName = ''phone''\<rparr>"

lemma demo_confirm_run: "\<exists>r w'. run_state (ConfirmTOTPSetup demo_ext demo_confirm) demo_world = (Inr r, w')"
  by (simp add: ConfirmTOTPSetup_def demo_confirm_def demo_verify_code GenerateBackupCodes_def BackupCodeCount_def
      generateRandomCode_def numeral_nat Let_def q_CreateMFACredential_def q_SetBackupCodes_def insert_row_def
      user_ref_def split: prod.split)

theorem confirm_then_verify_witness:
  "\<exists>r w' cl w''. run_state (ConfirmTOTPSetup demo_ext demo_confirm) demo_world = (Inr r, w')
     \<and> run_state (VerifyTOTPForLogin demo_ext ''u1'' ''123456'') w' = (Inr cl, w'')"
proof -
  from demo_confirm_run obtain r w' where run: "run_state (ConfirmTOTPSetup demo_ext demo_confirm) demo_world = (Inr r, w')"
    by blast
  have "q_GetUserByID (ct_UserID demo_confirm) (db demo_world) = Inr demo_user"
    by (simp add: demo_confirm_def q_GetUserByID_def first_row_def)
  from confirm_then_verify [OF run _ this demo_verify_code] run show ?thesis by (auto simp: demo_confirm_def)
qed

text \<open>Backup codes have their shape: when the random source returns as many bytes as asked for, every
  code generated is five symbols of the alphabet, a dash and five more, and there are eight of them.\<close>

theorem backup_code_format:
  assumes "run_state (GenerateBackupCodes E) w = (Some codes, w')"
    and "\<forall>n k bs. rand_bytes E n k = Some bs \<longrightarrow> length bs = k"
  shows "length codes = 8 \<and> (\<forall>c \<in> set codes. \<not> bc_IsUsed c
    \<and> (\<exists>a b. bc_Code c = a @ ''-'' @ b \<and> length a = 5 \<and> length b = 5 \<and> set (a @ b) \<subseteq> set code_charset))"
proof -
  have len: "0 < length code_charset" by (simp add: code_charset_def)
  have code: "\<exists>a b. code = a @ ''-'' @ b \<and> length a = 5 \<and> length b = 5 \<and> set (a @ b) \<subseteq> set code_charset"
    if "run_state (generateRandomCode E BackupCodeLen) v = (Some code, v')" for v v' code
  proof -
    from that obtain bs where bs: "rand_bytes E (rand_ctr v) BackupCodeLen = Some bs"
      and c: "code = take 5 (map (\<lambda>b. code_charset ! (of_char b mod length code_charset)) bs) @ ''-''
        @ drop 5 (map (\<lambda>b. code_charset ! (of_char b mod length code_charset)) bs)"
      by (auto simp: generateRandomCode_def BackupCodeLen_def Let_def split: option.splits)
    from bs assms(2) have "length bs = 10" by (simp add: BackupCodeLen_def)
    moreover have "set (map (\<lambda>b. code_charset ! (of_char b mod length code_charset)) bs) \<subseteq> set code_charset"
      using len by auto
    ultimately have "length (take 5 (map (\<lambda>b. code_charset ! (of_char b mod length code_charset)) bs)) = 5
        \<and> length (drop 5 (map (\<lambda>b. code_charset ! (of_char b mod length code_charset)) bs)) = 5
        \<and> set (take 5 (map (\<lambda>b. code_charset ! (of_char b mod length code_charset)) bs)
             @ drop 5 (map (\<lambda>b. code_charset ! (of_char b mod length code_charset)) bs)) \<subseteq> set code_charset"
      by (simp only: append_take_drop_id) simp
    with c show ?thesis by blast
  qed
  have "\<forall>c \<in> set cs. \<exists>a b. bc_Code c = a @ ''-'' @ b \<and> length a = 5 \<and> length b = 5 \<and> set (a @ b) \<subseteq> set code_charset"
    if "run_state (generate_codes E n) v = (Some cs, v')" for n v cs v'
    using that
  proof (induction n arbitrary: v cs)
    case (Suc n)
    then show ?case using code by (fastforce split: option.splits prod.splits)
  qed simp
  then show ?thesis
    using assms(1) generate_codes_effect unfolding GenerateBackupCodes_def BackupCodeCount_def by blast
qed

theorem backup_code_format_witness:
  "\<exists>codes w'. run_state (GenerateBackupCodes demo_ext) demo_world = (Some codes, w') \<and> length codes = 8"
proof -
  have "\<exists>codes w'. run_state (GenerateBackupCodes demo_ext) demo_world = (Some codes, w')"
    by (simp add: GenerateBackupCodes_def BackupCodeCount_def generateRandomCode_def numeral_nat Let_def)
  then obtain codes w' where run: "run_state (GenerateBackupCodes demo_ext) demo_world = (Some codes, w')" by blast
  from backup_code_format [OF run] run show ?thesis by auto
qed

end
