(* ===== verification/AuditLog.thy ===== *)
theory AuditLog
  imports Demo Json
begin

text \<open>
  Reading the audit log (\<open>internal/audit/service.go\<close>): pages, filters and the two exports.
  \<open>encoding/csv\<close> is modelled as its writer quotes fields; \<open>read_table\<close> is a reader of that format,
  against which the export is checked. Page numbers are 64-bit integers and their product wraps.
\<close>

section \<open>The code\<close>

record QueryParams =
  qp_UserID :: string
  qp_Severity :: string
  qp_ActionType :: string
  qp_Page :: int
  qp_PerPage :: int

record AuditEntry =
  ae_ID :: string
  ae_UserID :: string
  ae_SessionID :: string
  ae_PIMSessionID :: string
  ae_ActionType :: string
  ae_Resource :: string
  ae_Result :: string
  ae_IPAddress :: string
  ae_Severity :: string
  ae_CreatedAt :: string
  ae_IsPIMAction :: bool

record PagedResult =
  pr_Entries :: "AuditEntry list"
  pr_Total :: int
  pr_Page :: int
  pr_PerPage :: int
  pr_HasMore :: bool

definition toAuditEntry :: "audit_row \<Rightarrow> AuditEntry" where
  "toAuditEntry row = \<lparr>ae_ID = a_id row, ae_UserID = str_of_null (a_user_id row),
     ae_SessionID = str_of_null (a_session_id row), ae_PIMSessionID = str_of_null (a_pim_session_id row),
     ae_ActionType = a_action_type row, ae_Resource = str_of_null (a_resource row), ae_Result = a_result row,
     ae_IPAddress = str_of_null (a_ip_address row), ae_Severity = a_severity row,
     ae_CreatedAt = a_created_at row,
     ae_IsPIMAction = (a_pim_session_id row \<noteq> None \<and> str_of_null (a_pim_session_id row) \<noteq> '''')\<rparr>"

definition read_audit :: "ext \<Rightarrow> audit_row \<Rightarrow> audit_row" where
  "read_audit E a = a\<lparr>a_created_at := datetime_text E (a_created_at a)\<rparr>"

definition clamp_page :: "QueryParams \<Rightarrow> QueryParams" where
  "clamp_page params =
     (let params = (if qp_Page params < 1 then params\<lparr>qp_Page := 1\<rparr> else params);
          params = (if qp_PerPage params < 1 then params\<lparr>qp_PerPage := 50\<rparr> else params)
      in if qp_PerPage params > 200 then params\<lparr>qp_PerPage := 200\<rparr> else params)"

definition audit_Query :: "ext \<Rightarrow> QueryParams \<Rightarrow> (sql_error + PagedResult) action" where
  "audit_Query E params = do {
     let params = clamp_page params;
     let offset = sw64 (sw64 (qp_Page params - 1) * qp_PerPage params);
     let limit = qp_PerPage params;
     rows \<leftarrow> (if qp_UserID params \<noteq> '''' then db_read (q_ListAuditEntriesByUserID (qp_UserID params) limit offset)
              else if qp_Severity params \<noteq> '''' then db_read (q_ListAuditEntriesBySeverity (qp_Severity params) limit offset)
              else db_read (q_ListAuditEntries limit offset));
     (case rows of
        Inl e \<Rightarrow> ret (Inl e)
      | Inr rows \<Rightarrow> do {
          cnt \<leftarrow> db_read q_CountAuditEntries;
          (case cnt of
             Inl e \<Rightarrow> ret (Inl e)
           | Inr cnt \<Rightarrow>
               ret (Inr \<lparr>pr_Entries = map (\<lambda>row. toAuditEntry (read_audit E row)) rows, pr_Total = cnt,
                     pr_Page = qp_Page params, pr_PerPage = qp_PerPage params,
                     pr_HasMore = (sw64 (offset + int (length rows)) < cnt)\<rparr>))
        })
   }"

text \<open>\<open>csv.Writer\<close>: \<open>fieldNeedsQuotes\<close> and one record.\<close>

definition csv_special :: "char \<Rightarrow> bool" where
  "csv_special c = (c \<in> {CHR 0x0A, CHR 0x0D, CHR 0x22, CHR '',''})"

definition csv_quoted :: "string \<Rightarrow> bool" where
  "csv_quoted f = (f \<noteq> '''' \<and> (f = [CHR 0x5C, CHR ''.''] \<or> list_ex csv_special f \<or> is_space (hd f)))"

definition csv_field :: "string \<Rightarrow> string" where
  "csv_field f =
     (if csv_quoted f
      then [CHR 0x22] @ concat (map (\<lambda>c. if c = CHR 0x22 then [c, c] else [c]) f) @ [CHR 0x22] else f)"

definition csv_record :: "string list \<Rightarrow> string" where
  "csv_record fs = join_with '','' (map csv_field fs) @ [CHR 0x0A]"

definition csv_header :: "string list" where
  "csv_header = [''id'', ''created_at'', ''user_id'', ''action_type'', ''resource'',
     ''result'', ''severity'', ''ip_address'', ''is_pim_action'', ''pim_session_id'']"

definition csv_fields :: "AuditEntry \<Rightarrow> string list" where
  "csv_fields e = [ae_ID e, ae_CreatedAt e, ae_UserID e, ae_ActionType e, ae_Resource e,
     ae_Result e, ae_Severity e, ae_IPAddress e, (if ae_IsPIMAction e then ''true'' else ''false''), ae_PIMSessionID e]"

definition audit_ExportCSV :: "ext \<Rightarrow> QueryParams \<Rightarrow> (sql_error + string) action" where
  "audit_ExportCSV E params = do {
     result \<leftarrow> audit_Query E (params\<lparr>qp_PerPage := 200\<rparr>);
     (case result of
        Inl e \<Rightarrow> ret (Inl e)
      | Inr result \<Rightarrow>
          ret (Inr (csv_record csv_header @ concat (map (\<lambda>e. csv_record (csv_fields e)) (pr_Entries result)))))
   }"

text \<open>\<open>json.MarshalIndent(entries, "", "  ")\<close>.\<close>

definition omit_empty :: "string \<Rightarrow> string \<Rightarrow> string list" where
  "omit_empty k v = (if v = '''' then [] else [json_string k @ '': '' @ json_string v])"

definition string_member :: "string \<Rightarrow> string \<Rightarrow> string" where
  "string_member k v = json_string k @ '': '' @ json_string v"

definition entry_members :: "AuditEntry \<Rightarrow> string list" where
  "entry_members e = [string_member ''id'' (ae_ID e)] @ omit_empty ''user_id'' (ae_UserID e)
     @ omit_empty ''session_id'' (ae_SessionID e) @ omit_empty ''pim_session_id'' (ae_PIMSessionID e)
     @ [string_member ''action_type'' (ae_ActionType e)] @ omit_empty ''resource'' (ae_Resource e)
     @ [string_member ''result'' (ae_Result e)] @ omit_empty ''ip_address'' (ae_IPAddress e)
     @ [string_member ''severity'' (ae_Severity e), string_member ''created_at'' (ae_CreatedAt e),
        json_string ''is_pim_action'' @ '': '' @ json_bool (ae_IsPIMAction e)]"

definition indent :: "nat \<Rightarrow> string" where
  "indent n = CHR 0x0A # replicate (2 * n) (CHR '' '')"

definition entries_json :: "AuditEntry list \<Rightarrow> string" where
  "entries_json es =
     (if es = [] then ''[]''
      else ''['' @ indent 1
        @ join_with ('','' @ indent 1)
            (map (\<lambda>e. ''{'' @ indent 2 @ join_with ('','' @ indent 2) (entry_members e) @ indent 1 @ ''}'') es)
        @ indent 0 @ '']'')"

definition audit_ExportJSON :: "ext \<Rightarrow> QueryParams \<Rightarrow> (sql_error + string) action" where
  "audit_ExportJSON E params = do {
     result \<leftarrow> audit_Query E (params\<lparr>qp_PerPage := 200\<rparr>);
     (case result of
        Inl e \<Rightarrow> ret (Inl e)
      | Inr result \<Rightarrow> ret (Inr (entries_json (pr_Entries result))))
   }"

section \<open>Reading only\<close>

lemma audit_Query_silent [silent_intros]: "silent (audit_Query E ps)"
  unfolding audit_Query_def Let_def by (intro silent_intros)

lemma audit_ExportCSV_silent [silent_intros]: "silent (audit_ExportCSV E ps)"
  unfolding audit_ExportCSV_def by (intro silent_intros)

lemma audit_ExportJSON_silent [silent_intros]: "silent (audit_ExportJSON E ps)"
  unfolding audit_ExportJSON_def by (intro silent_intros)

lemmas audit_steady [steady_intros] = audit_Query_silent [THEN silent_steady]
  audit_ExportCSV_silent [THEN silent_steady] audit_ExportJSON_silent [THEN silent_steady]

section \<open>A reader of the exported table\<close>

function read_quoted :: "string \<Rightarrow> (string \<times> string) option" where
  "read_quoted [] = None"
| "read_quoted (c # s) =
     (if c \<noteq> CHR 0x22 then map_option (map_prod ((#) c) id) (read_quoted s)
      else if has_prefix s [CHR 0x22] then map_option (map_prod ((#) c) id) (read_quoted (tl s))
      else Some ([], s))"
  by pat_completeness auto
termination by (relation "measure length") auto

definition read_field :: "string \<Rightarrow> (string \<times> string) option" where
  "read_field s =
     (if has_prefix s [CHR 0x22] then read_quoted (tl s)
      else Some (takeWhile (\<lambda>c. c \<noteq> CHR '','' \<and> c \<noteq> CHR 0x0A) s, dropWhile (\<lambda>c. c \<noteq> CHR '','' \<and> c \<noteq> CHR 0x0A) s))"

text \<open>A row of \<open>n + 1\<close> fields, and a table of \<open>k\<close> such rows.\<close>

fun read_row :: "nat \<Rightarrow> string \<Rightarrow> (string list \<times> string) option" where
  "read_row n s =
     (case read_field s of
        None \<Rightarrow> None
      | Some (f, t) \<Rightarrow>
          (case n of
             0 \<Rightarrow> if has_prefix t [CHR 0x0A] then Some ([f], tl t) else None
           | Suc m \<Rightarrow> if has_prefix t '','' then map_option (map_prod ((#) f) id) (read_row m (tl t)) else None))"

fun read_table :: "nat \<Rightarrow> nat \<Rightarrow> string \<Rightarrow> string list list option" where
  "read_table 0 n s = (if s = [] then Some [] else None)"
| "read_table (Suc k) n s =
     (case read_row n s of None \<Rightarrow> None | Some (r, t) \<Rightarrow> map_option ((#) r) (read_table k n t))"

declare read_row.simps [simp del]

lemma read_quoted_field:
  "\<not> has_prefix s [CHR 0x22] \<Longrightarrow>
   read_quoted (concat (map (\<lambda>c. if c = CHR 0x22 then [c, c] else [c]) f) @ CHR 0x22 # s) = Some (f, s)"
  by (induction f) auto

lemma read_field_csv:
  assumes "c = CHR '','' \<or> c = CHR 0x0A"
  shows "read_field (csv_field f @ c # s) = Some (f, c # s)"
proof (cases "csv_quoted f")
  case True
  have "\<not> has_prefix (c # s) [CHR 0x22]" using assms by auto
  from read_quoted_field [OF this] True show ?thesis by (simp add: csv_field_def read_field_def)
next
  case False
  then have f: "\<not> list_ex csv_special f" by (cases f) (auto simp: csv_quoted_def)
  then have plain: "\<forall>x \<in> set f. x \<noteq> CHR '','' \<and> x \<noteq> CHR 0x0A" "\<forall>x \<in> set f. x \<noteq> CHR 0x22"
    by (auto simp: list_ex_iff csv_special_def)
  have stop: "takeWhile (\<lambda>c. c \<noteq> CHR '','' \<and> c \<noteq> CHR 0x0A) (c # s) = []"
    "dropWhile (\<lambda>c. c \<noteq> CHR '','' \<and> c \<noteq> CHR 0x0A) (c # s) = c # s" using assms by auto
  have "\<not> has_prefix (f @ c # s) [CHR 0x22]" using plain(2) assms by (cases f) auto
  then show ?thesis using False plain(1) stop
    by (simp add: csv_field_def read_field_def takeWhile_append2 dropWhile_append2)
qed

lemma read_row_csv: "fs \<noteq> [] \<Longrightarrow> length fs = Suc n \<Longrightarrow> read_row n (csv_record fs @ s) = Some (fs, s)"
proof (induction n arbitrary: fs)
  case 0
  then obtain f where "fs = [f]" by (cases fs) auto
  then show ?case by (simp add: csv_record_def read_row.simps [of 0] read_field_csv)
next
  case (Suc n)
  then obtain f fs' where fs: "fs = f # fs'" "length fs' = Suc n" by (cases fs) auto
  then have ne: "fs' \<noteq> []" by auto
  then have "csv_record fs @ s = csv_field f @ CHR '','' # (csv_record fs' @ s)"
    using ne fs(1) by (simp add: csv_record_def join_with_Cons)
  then show ?case using Suc.IH [OF ne fs(2)] fs(1) by (simp add: read_row.simps [of "Suc n"] read_field_csv)
qed

lemma read_table_csv:
  "\<forall>fs \<in> set rows. length fs = Suc n \<Longrightarrow> read_table (length rows) n (concat (map csv_record rows)) = Some rows"
proof (induction rows)
  case (Cons fs rows)
  then have "read_row n (csv_record fs @ concat (map csv_record rows)) = Some (fs, concat (map csv_record rows))"
    by (intro read_row_csv) auto
  with Cons show ?case by simp
qed simp

section \<open>Properties\<close>

text \<open>C29: The CSV export cannot be forged by what the entries hold: reading it back gives the header and,
  field by field, exactly the entries of the queried page, whatever commas, quotes or line breaks their
  texts contain (a failed login writes the attempted address into the log).\<close>

theorem csv_export_readable:
  assumes "run_state (audit_ExportCSV E params) w = (Inr out, w')"
  shows "\<exists>page. run_state (audit_Query E (params\<lparr>qp_PerPage := 200\<rparr>)) w = (Inr page, w')
    \<and> read_table (Suc (length (pr_Entries page))) 9 out = Some (csv_header # map csv_fields (pr_Entries page))"
proof -
  from assms obtain page where page: "run_state (audit_Query E (params\<lparr>qp_PerPage := 200\<rparr>)) w = (Inr page, w')"
    and out: "out = csv_record csv_header @ concat (map (\<lambda>e. csv_record (csv_fields e)) (pr_Entries page))"
    by (auto simp: audit_ExportCSV_def split: prod.splits sum.splits)
  have "out = concat (map csv_record (csv_header # map csv_fields (pr_Entries page)))"
    by (simp add: out comp_def)
  then have "read_table (length (csv_header # map csv_fields (pr_Entries page))) 9 out
      = Some (csv_header # map csv_fields (pr_Entries page))"
    using read_table_csv [of "csv_header # map csv_fields (pr_Entries page)" 9]
    by (simp add: csv_header_def csv_fields_def)
  with page show ?thesis by simp
qed

definition all_entries :: "ext \<Rightarrow> database \<Rightarrow> AuditEntry list" where
  "all_entries E d = map (\<lambda>row. toAuditEntry (read_audit E row)) (newest_first a_created_at (audits d))"

definition audit_world :: world where
  "audit_world = demo_world\<lparr>db := demo_db\<lparr>audits := [\<lparr>a_id = ''e1'', a_user_id = Some ''u1'', a_session_id = None,
     a_pim_session_id = None, a_action_type = ''login_failed'', a_resource = Some ''x,y@b.co'', a_result = ''failure'',
     a_ip_address = None, a_metadata = None, a_severity = ''warning'', a_created_at = ''0001-01-01 00:00:00''\<rparr>]\<rparr>\<rparr>"

definition demo_export :: QueryParams where
  "demo_export = \<lparr>qp_UserID = '''', qp_Severity = '''', qp_ActionType = '''', qp_Page = 1, qp_PerPage = 200\<rparr>"

lemma run_Query_all:
  assumes "faults w = []" "qp_UserID ps = ''''" "qp_Severity ps = ''''" "1 \<le> qp_Page ps" "1 \<le> qp_PerPage ps" "qp_PerPage ps \<le> 200"
    and "qp_Page ps * 200 < 2 ^ 62" "int (length (audits (db w))) < 2 ^ 62"
  shows "run_state (audit_Query E ps) w = (Inr \<lparr>
      pr_Entries = take (nat (qp_PerPage ps)) (drop (nat ((qp_Page ps - 1) * qp_PerPage ps)) (all_entries E (db w))),
      pr_Total = int (length (audits (db w))), pr_Page = qp_Page ps, pr_PerPage = qp_PerPage ps,
      pr_HasMore = ((qp_Page ps - 1) * qp_PerPage ps
        + int (length (take (nat (qp_PerPage ps)) (drop (nat ((qp_Page ps - 1) * qp_PerPage ps)) (all_entries E (db w)))))
          < int (length (audits (db w))))\<rparr>, w)"
proof -
  let ?o = "(qp_Page ps - 1) * qp_PerPage ps"
  have "?o \<le> (qp_Page ps - 1) * 200" using assms(4,6) by (intro mult_left_mono) auto
  then have o: "0 \<le> ?o" "?o < 2 ^ 62" using assms(4,5,7) by auto
  have s1: "sw64 (qp_Page ps - 1) = qp_Page ps - 1" using assms(4,7) by (intro sw64_id) auto
  have s2: "sw64 ?o = ?o" using o by (intro sw64_id) auto
  have s3: "sw64 (?o + int n) = ?o + int n" if "n \<le> 200" for n using o that by (intro sw64_id) auto
  have cl: "clamp_page ps = ps" using assms(4-6) by (simp add: clamp_page_def Let_def)
  have "int (length (take (nat (qp_PerPage ps)) xs)) \<le> 200" for xs :: "audit_row list" using assms(6) by simp
  then have s4: "sw64 (?o + int (length (take (nat (qp_PerPage ps)) xs))) = ?o + int (length (take (nat (qp_PerPage ps)) xs))"
    for xs :: "audit_row list" by (intro s3) (simp only: of_nat_le_iff [where 'a = int, symmetric] of_nat_numeral)
  have len: "length (take n (drop m (all_entries E (db w)))) = length (take n (drop m (newest_first a_created_at (audits (db w)))))" for n m
    by (simp add: all_entries_def)
  have entries: "map (\<lambda>row. toAuditEntry (read_audit E row)) (take n (drop m (newest_first a_created_at (audits (db w)))))
      = take n (drop m (all_entries E (db w)))" for n m
    by (simp add: all_entries_def take_map drop_map)
  have q: "limit_offset (qp_PerPage ps) ?o xs = take (nat (qp_PerPage ps)) (drop (nat ?o) xs)" for xs :: "audit_row list"
    using assms(5) o by (simp add: limit_offset_def)
  show ?thesis
    using assms(1-3) by (simp add: audit_Query_def cl s1 s2 Let_def q_ListAuditEntries_def q_CountAuditEntries_def
      q entries s4 len del: length_take length_drop)
qed

lemma concat_pages: "concat (map (\<lambda>i. take p (drop (i * p) xs)) [0..<k]) = take (k * p) xs"
  by (induction k) (simp_all add: take_add [symmetric] add.commute)

text \<open>C30: Paging through the unfiltered log misses nothing and repeats nothing: the first \<open>k\<close> pages of any
  size from 1 to 200, one after the other, are the newest \<open>k * p\<close> entries, and a page says that there is more
  exactly when it does not reach the end of the log (no driver fault; page numbers that do not overflow).\<close>

theorem audit_pages_cover:
  assumes "faults w = []" "1 \<le> p" "p \<le> 200" "int k * 200 < 2 ^ 61" "int (length (audits (db w))) < 2 ^ 61"
  shows "\<exists>pages. length pages = k
    \<and> (\<forall>i<k. run_state (audit_Query E \<lparr>qp_UserID = '''', qp_Severity = '''', qp_ActionType = a, qp_Page = int i + 1,
          qp_PerPage = int p\<rparr>) w = (Inr (pages ! i), w)
        \<and> pr_HasMore (pages ! i) = (i * p + p < length (audits (db w))))
    \<and> concat (map pr_Entries pages) = take (k * p) (all_entries E (db w))"
proof -
  define page where "page i = \<lparr>pr_Entries = take p (drop (i * p) (all_entries E (db w))),
      pr_Total = int (length (audits (db w))), pr_Page = int i + 1, pr_PerPage = int p,
      pr_HasMore = (i * p + p < length (audits (db w)))\<rparr>" for i
  have len: "length (all_entries E (db w)) = length (audits (db w))" by (simp add: all_entries_def)
  have more: "(int i * int p + int (length (take p (drop (i * p) (all_entries E (db w))))) < int (length (audits (db w))))
      = (i * p + p < length (audits (db w)))" for i
  proof -
    have "(i * p + min (length (audits (db w)) - i * p) p < length (audits (db w))) = (i * p + p < length (audits (db w)))"
      using assms(2) by (auto simp: min_def)
    then have "(int (i * p + min (length (audits (db w)) - i * p) p) < int (length (audits (db w))))
        = (i * p + p < length (audits (db w)))" by (simp only: of_nat_less_iff)
    then show ?thesis by (simp only: of_nat_add of_nat_mult length_take length_drop len)
  qed
  have "run_state (audit_Query E \<lparr>qp_UserID = '''', qp_Severity = '''', qp_ActionType = a, qp_Page = int i + 1,
      qp_PerPage = int p\<rparr>) w = (Inr (page i), w)" if "i < k" for i
  proof -
    have "(int i + 1) * 200 < 2 ^ 62" using that assms(4) by simp
    with assms run_Query_all [of w "\<lparr>qp_UserID = '''', qp_Severity = '''', qp_ActionType = a, qp_Page = int i + 1,
      qp_PerPage = int p\<rparr>" E] more [of i] show ?thesis
      by (simp add: page_def nat_mult_distrib flip: of_nat_mult)
  qed
  then show ?thesis
    by (intro exI [of _ "map page [0..<k]"]) (simp add: concat_pages page_def comp_def)
qed

theorem csv_export_readable_witness:
  "\<exists>out page w'. run_state (audit_Query demo_ext (demo_export\<lparr>qp_PerPage := 200\<rparr>)) audit_world = (Inr page, w')
    \<and> length (pr_Entries page) = 1
    \<and> read_table 2 9 out = Some (csv_header # map csv_fields (pr_Entries page))"
proof -
  obtain out page where run: "run_state (audit_ExportCSV demo_ext demo_export) audit_world = (Inr out, audit_world)"
      "run_state (audit_Query demo_ext (demo_export\<lparr>qp_PerPage := 200\<rparr>)) audit_world = (Inr page, audit_world)"
    and one: "length (pr_Entries page) = 1"
    by (simp add: audit_ExportCSV_def run_Query_all audit_world_def demo_export_def all_entries_def)
  from csv_export_readable [OF run(1)] run(2)
  have "read_table (Suc (length (pr_Entries page))) 9 out = Some (csv_header # map csv_fields (pr_Entries page))" by auto
  then have "read_table 2 9 out = Some (csv_header # map csv_fields (pr_Entries page))"
    by (simp only: one One_nat_def numeral_2_eq_2)
  with run(2) one show ?thesis by blast
qed

theorem audit_pages_cover_witness:
  "\<exists>pages :: PagedResult list. length pages = 3
    \<and> concat (map pr_Entries pages) = take 3 (all_entries demo_ext (db audit_world)) \<and> \<not> pr_HasMore (pages ! 0)"
proof -
  have one: "faults audit_world = []" "length (audits (db audit_world)) = 1"
    by (simp_all add: audit_world_def)
  then have "int (length (audits (db audit_world))) < 2 ^ 61" "int 3 * 200 < (2 ^ 61 :: int)" by simp_all
  moreover have "1 \<le> (200 :: nat)" by simp
  ultimately obtain pages :: "PagedResult list" where pages: "length pages = 3"
      "\<And>i. i < 3 \<Longrightarrow> pr_HasMore (pages ! i) = (i * 1 + 1 < length (audits (db audit_world)))"
      "concat (map pr_Entries pages) = take (3 * 1) (all_entries demo_ext (db audit_world))"
    using audit_pages_cover [OF one(1) le_refl, of 3 demo_ext "''''"] by blast
  then have "\<not> pr_HasMore (pages ! 0)" using one(2) by simp
  with pages(1,3) show ?thesis unfolding mult_1_right by blast
qed

end
