(* ===== verification/Scan.thy ===== *)
theory Scan
  imports Encoding
begin

text \<open>
  Reading and printing of text with Go's standard library, as the metrics, log and service readers
  use it: \<open>bufio.Scanner\<close> over lines, the values \<open>strconv\<close> returns beside an error that the code
  ignores, \<open>fmt\<close>'s fixed-point verbs, \<open>filepath.Base\<close>.

  A \<open>float64\<close> is a rational number: the model has no rounding of intermediate results, no
  infinities and no NaN. \<open>parse_float\<close> reads the plain decimal notation with an optional sign,
  the one the kernel prints; the other notations of \<open>strconv.ParseFloat\<close> count as errors.
\<close>

section \<open>Lines\<close>

definition newline :: char where "newline = CHR 0x0A"

definition drop_cr :: "string \<Rightarrow> string" where
  "drop_cr l = trim_suffix l [CHR 0x0D]"

text \<open>The lines a scanner with a buffer of \<open>cap\<close> bytes returns, and whether it stopped at one that is too long.\<close>

fun scan_upto :: "nat \<Rightarrow> string list \<Rightarrow> string list \<times> bool" where
  "scan_upto cap [] = ([], False)"
| "scan_upto cap (l # ls) =
     (if length l \<ge> cap then ([], True) else (case scan_upto cap ls of (ts, err) \<Rightarrow> (drop_cr l # ts, err)))"

definition raw_lines :: "string \<Rightarrow> string list" where
  "raw_lines s = (let ls = split_on newline s in if last ls = '''' then butlast ls else ls)"

definition MaxScanTokenSize :: nat where "MaxScanTokenSize = 65536"

definition scan_lines :: "string \<Rightarrow> string list \<times> bool" where
  "scan_lines s = scan_upto MaxScanTokenSize (raw_lines s)"

section \<open>Numbers\<close>

text \<open>The value of \<open>strconv.ParseUint(s, 10, 64)\<close>, also when there is an error: 0 on bad syntax, the largest
  number on overflow, whichever the digits reach first.\<close>

fun uint_value_from :: "nat \<Rightarrow> string \<Rightarrow> nat" where
  "uint_value_from n [] = n"
| "uint_value_from n (c # s) =
     (case undigit c of
        None \<Rightarrow> 0
      | Some d \<Rightarrow> if 10 * n + d \<ge> 2 ^ 64 then 2 ^ 64 - 1 else uint_value_from (10 * n + d) s)"

definition uint_value :: "string \<Rightarrow> nat" where "uint_value s = uint_value_from 0 s"

text \<open>\<open>strconv.ParseFloat\<close>: value and error; without an error the value of the decimal number.\<close>

definition parse_float :: "string \<Rightarrow> rat option" where
  "parse_float s =
     (let neg = has_prefix s ''-''; ds = (if neg \<or> has_prefix s ''+'' then tl s else s);
          whole = takeWhile is_digit ds; rest = dropWhile is_digit ds;
          frac' = (if has_prefix rest ''.'' then tl rest else '''');
          v = of_nat (digits_value (whole @ frac')) / 10 ^ length frac'
      in if list_all is_digit frac' \<and> whole @ frac' \<noteq> '''' \<and> (rest = '''' \<or> has_prefix rest ''.'')
         then Some (if neg then - v else v) else None)"

definition float_value :: "string \<Rightarrow> rat" where
  "float_value s = (case parse_float s of None \<Rightarrow> 0 | Some v \<Rightarrow> v)"

text \<open>The verb \<open>%.pf\<close>: the nearest decimal with \<open>p\<close> digits, the even one of two.\<close>

definition round_even :: "rat \<Rightarrow> int" where
  "round_even x =
     (let f = \<lfloor>x\<rfloor>; r = x - of_int f
      in if r < 1 / 2 \<or> (r = 1 / 2 \<and> even f) then f else f + 1)"

definition pad_left :: "nat \<Rightarrow> string \<Rightarrow> string" where
  "pad_left n s = replicate (n - length s) (CHR ''0'') @ s"

definition fmt_fixed :: "nat \<Rightarrow> rat \<Rightarrow> string" where
  "fmt_fixed p x =
     (let ds = pad_left (p + 1) (dec_text (nat (round_even (\<bar>x\<bar> * 10 ^ p)))); n = length ds - p
      in (if x < 0 then ''-'' else '''') @ take n ds @ (if p = 0 then '''' else ''.'' @ drop n ds))"

section \<open>Paths and quotes\<close>

text \<open>\<open>strings.Trim(s, cut)\<close>.\<close>

definition trim_chars :: "(char \<Rightarrow> bool) \<Rightarrow> string \<Rightarrow> string" where
  "trim_chars p s = rev (dropWhile p (rev (dropWhile p s)))"

definition path_base :: "string \<Rightarrow> string" where
  "path_base p =
     (if p = '''' then ''.''
      else let p = rev (dropWhile (\<lambda>c. c = CHR ''/'') (rev p));
               b = rev (takeWhile (\<lambda>c. c \<noteq> CHR ''/'') (rev p))
           in if b = '''' then ''/'' else b)"

section \<open>Lemmas\<close>

lemma scan_upto_all: "\<forall>l \<in> set ls. length l < cap \<Longrightarrow> scan_upto cap ls = (map drop_cr ls, False)"
  by (induction ls) auto

lemma contains_sublist: "contains s sub \<longleftrightarrow> sublist sub s"
proof (induction s)
  case Nil
  then show ?case by (simp add: contains_def)
next
  case (Cons c s)
  have "has_prefix (c # s) sub \<longleftrightarrow> prefix sub (c # s)"
    unfolding has_prefix_def prefix_def by (metis append_eq_conv_conj append_take_drop_id)
  with Cons show ?case by (auto simp: contains_def sublist_Cons_right)
qed

text \<open>What a scanner returns of a text: its lines up to the first that is too long.\<close>

lemma scan_upto_take: "fst (scan_upto cap ls) = map drop_cr (takeWhile (\<lambda>l. length l < cap) ls)"
  by (induction ls) (auto split: prod.splits)

lemma scan_lines_take: "fst (scan_lines s) = map drop_cr (takeWhile (\<lambda>l. length l < MaxScanTokenSize) (raw_lines s))"
  by (simp add: scan_lines_def scan_upto_take)

lemma drop_cr_id [simp]: "CHR 0x0D \<notin> set l \<Longrightarrow> drop_cr l = l"
proof -
  assume "CHR 0x0D \<notin> set l"
  then have "\<not> has_suffix l [CHR 0x0D]"
    by (metis (no_types) append_take_drop_id has_suffix_def in_set_conv_decomp)
  then show ?thesis by (simp add: drop_cr_def trim_suffix_def)
qed

lemma split_on_join: "\<forall>l \<in> set ls. newline \<notin> set l \<Longrightarrow> split_on newline (concat (map (\<lambda>l. l @ [newline]) ls)) = ls @ ['''']"
  by (induction ls) (simp_all add: split_on_append)

text \<open>Lines that are short enough are read back as they were written.\<close>

lemma scan_lines_join:
  assumes "\<forall>l \<in> set ls. newline \<notin> set l \<and> CHR 0x0D \<notin> set l \<and> length l < MaxScanTokenSize"
  shows "scan_lines (concat (map (\<lambda>l. l @ [newline]) ls)) = (ls, False)"
proof -
  have "raw_lines (concat (map (\<lambda>l. l @ [newline]) ls)) = ls"
    using assms by (simp add: raw_lines_def split_on_join Let_def)
  moreover have "map drop_cr ls = ls" using assms by (intro map_idI) simp
  ultimately show ?thesis using assms by (simp add: scan_lines_def scan_upto_all)
qed

lemma uint_value_less: "n < 2 ^ 64 \<Longrightarrow> uint_value_from n s < 2 ^ 64"
  by (induction n s rule: uint_value_from.induct) (auto split: option.splits)

lemma digits_grow: "n \<le> foldl (\<lambda>n c. n * 10 + (case undigit c of None \<Rightarrow> 0 | Some d \<Rightarrow> d)) n s"
proof (induction s arbitrary: n)
  case (Cons c s)
  from Cons.IH [of "n * 10 + (case undigit c of None \<Rightarrow> 0 | Some d \<Rightarrow> d)"] show ?case by simp
qed simp

lemma uint_value_from_digits:
  assumes "list_all is_digit s" "foldl (\<lambda>n c. n * 10 + (case undigit c of None \<Rightarrow> 0 | Some d \<Rightarrow> d)) n s < 2 ^ 64"
  shows "uint_value_from n s = foldl (\<lambda>n c. n * 10 + (case undigit c of None \<Rightarrow> 0 | Some d \<Rightarrow> d)) n s"
  using assms
proof (induction s arbitrary: n)
  case (Cons c s)
  then obtain d where d: "undigit c = Some d" by (auto simp: is_digit_def)
  from digits_grow [of "n * 10 + d" s] Cons.prems(2) d have "n * 10 + d < 2 ^ 64" by simp
  with Cons d show ?case by (simp add: mult.commute)
qed simp

lemma uint_value_dec_text [simp]: "n < 2 ^ 64 \<Longrightarrow> uint_value (dec_text n) = n"
  using uint_value_from_digits [of "dec_text n" 0] digits_value_dec_text [of n]
  by (simp add: uint_value_def dec_text_digits digits_value_def)

end
