(* ===== verification/Collector.thy ===== *)
theory Collector
  imports Scan "HOL-Library.Word"
begin

text \<open>
  Collecting the metrics (\<open>internal/metrics/collector.go\<close>): parsing of \<open>/proc\<close> and \<open>/sys\<close> and the
  differences of 64-bit counters between two collections.

  The kernel is the record \<open>kernel\<close>, an argument of the definitions: the contents of the files (\<open>None\<close> when
  one cannot be opened), the entries of \<open>/proc\<close>, \<open>statfs\<close> and the number of processors. One collection
  reads one kernel state. Absent and empty slices are both \<open>[]\<close>.
\<close>

section \<open>Data\<close>

record kernel =
  k_file :: "string \<Rightarrow> string option"
  k_proc :: "(string \<times> bool) list option"
  k_statfs :: "string \<Rightarrow> (64 word \<times> 64 word \<times> int) option"
  k_cpus :: int

record CPUMetrics =
  UsagePercent :: rat
  CoreUsagePercent :: "rat list"
  NumCores :: int

record RAMMetrics =
  ram_TotalBytes :: "64 word"
  ram_UsedBytes :: "64 word"
  ram_FreeBytes :: "64 word"
  AvailableBytes :: "64 word"
  CachedBytes :: "64 word"
  BuffersBytes :: "64 word"
  SwapTotalBytes :: "64 word"
  SwapUsedBytes :: "64 word"
  ram_UsagePercent :: rat

record DiskMetrics =
  Device :: string
  MountPoint :: string
  FSType :: string
  disk_TotalBytes :: "64 word"
  disk_UsedBytes :: "64 word"
  disk_FreeBytes :: "64 word"
  disk_UsagePercent :: rat
  ReadBytesPS :: rat
  WriteBytesPS :: rat

record NetMetrics =
  Interface :: string
  IPAddresses :: "string list"
  MACAddress :: string
  net_Type :: string
  LinkState :: string
  RxBytesPS :: rat
  TxBytesPS :: rat
  RxBytesTotal :: "64 word"
  TxBytesTotal :: "64 word"

record LoadAvgMetrics =
  Load1 :: rat
  Load5 :: rat
  Load15 :: rat

record Process =
  PID :: int
  Name :: string
  CPUPercent :: rat
  MemPercent :: rat
  MemBytes :: "64 word"
  proc_Status :: string

record Snapshot =
  Timestamp :: time
  CPU :: CPUMetrics
  RAM :: RAMMetrics
  Disks :: "DiskMetrics list"
  Networks :: "NetMetrics list"
  LoadAvg :: LoadAvgMetrics
  UptimeSec :: rat

record cpuStat =
  ct_user :: "64 word"
  ct_nice :: "64 word"
  ct_system :: "64 word"
  ct_idle :: "64 word"
  ct_iowait :: "64 word"
  ct_irq :: "64 word"
  ct_softirq :: "64 word"

record diskStat =
  readBytes :: "64 word"
  writeBytes :: "64 word"

record netStat =
  rxBytes :: "64 word"
  txBytes :: "64 word"

record collector =
  prevCPU :: "cpuStat list"
  prevDisk :: "string \<rightharpoonup> diskStat"
  prevNet :: "string \<rightharpoonup> netStat"
  prevTime :: time

definition float_of :: "64 word \<Rightarrow> rat" where "float_of x = of_nat (unat x)"

definition parseUint :: "string \<Rightarrow> 64 word" where
  "parseUint s = of_nat (uint_value (trim_space s))"

section \<open>Processor\<close>

definition cpu_line :: "string \<Rightarrow> cpuStat option" where
  "cpu_line l =
     (let fs = Prelude.fields l in
      if length fs < 8 then None
      else Some \<lparr>ct_user = parseUint (fs ! 1), ct_nice = parseUint (fs ! 2), ct_system = parseUint (fs ! 3),
        ct_idle = parseUint (fs ! 4), ct_iowait = parseUint (fs ! 5), ct_irq = parseUint (fs ! 6),
        ct_softirq = parseUint (fs ! 7)\<rparr>)"

text \<open>The statistics and whether an error is returned beside them.\<close>

definition readCPUStat :: "kernel \<Rightarrow> cpuStat list \<times> bool" where
  "readCPUStat K =
     (case k_file K ''/proc/stat'' of
        None \<Rightarrow> ([], True)
      | Some s \<Rightarrow>
          (case scan_lines s of (ls, err) \<Rightarrow>
             let cpu = takeWhile (\<lambda>l. has_prefix l ''cpu'') ls
             in (List.map_filter cpu_line cpu, err \<and> cpu = ls)))"

definition cpuUsagePercent :: "cpuStat \<Rightarrow> cpuStat \<Rightarrow> rat" where
  "cpuUsagePercent prev cur =
     (let prevTotal = ct_user prev + ct_nice prev + ct_system prev + ct_idle prev + ct_iowait prev + ct_irq prev + ct_softirq prev;
          currTotal = ct_user cur + ct_nice cur + ct_system cur + ct_idle cur + ct_iowait cur + ct_irq cur + ct_softirq cur;
          prevIdle = ct_idle prev + ct_iowait prev;
          currIdle = ct_idle cur + ct_iowait cur;
          totalDelta = float_of (currTotal - prevTotal);
          idleDelta = float_of (currIdle - prevIdle)
      in if totalDelta = 0 then 0 else (1 - idleDelta / totalDelta) * 100)"

definition collectCPU :: "kernel \<Rightarrow> collector \<Rightarrow> CPUMetrics option \<times> collector" where
  "collectCPU K c =
     (case readCPUStat K of (current, err) \<Rightarrow>
        if err then (None, c)
        else if current = [] \<or> prevCPU c = []
        then (Some \<lparr>UsagePercent = 0, CoreUsagePercent = [], NumCores = k_cpus K\<rparr>, c\<lparr>prevCPU := current\<rparr>)
        else (Some \<lparr>UsagePercent = cpuUsagePercent (prevCPU c ! 0) (current ! 0),
                CoreUsagePercent = map (\<lambda>i. if i + 1 < length (prevCPU c)
                    then cpuUsagePercent (prevCPU c ! (i + 1)) (current ! (i + 1)) else 0) [0..<length current - 1],
                NumCores = k_cpus K\<rparr>,
              c\<lparr>prevCPU := current\<rparr>))"

section \<open>Memory, load and uptime\<close>

definition mem_line :: "(string \<Rightarrow> 64 word) \<Rightarrow> string \<Rightarrow> string \<Rightarrow> 64 word" where
  "mem_line mem l =
     (let fs = Prelude.fields l in
      if length fs < 2 then mem else mem(trim_suffix (fs ! 0) '':'' := parseUint (fs ! 1) * 1024))"

definition percent_of :: "64 word \<Rightarrow> 64 word \<Rightarrow> rat" where
  "percent_of part whole = float_of part / float_of whole * 100"

definition collectRAM :: "kernel \<Rightarrow> RAMMetrics \<times> bool" where
  "collectRAM K =
     (let zero = \<lparr>ram_TotalBytes = 0, ram_UsedBytes = 0, ram_FreeBytes = 0, AvailableBytes = 0, CachedBytes = 0,
            BuffersBytes = 0, SwapTotalBytes = 0, SwapUsedBytes = 0, ram_UsagePercent = 0\<rparr>
      in case k_file K ''/proc/meminfo'' of
           None \<Rightarrow> (zero, True)
         | Some s \<Rightarrow>
             (case scan_lines s of (ls, err) \<Rightarrow>
                let mem = foldl mem_line (\<lambda>_. 0) ls;
                    used = mem ''MemTotal'' - mem ''MemAvailable''
                in (\<lparr>ram_TotalBytes = mem ''MemTotal'', ram_UsedBytes = used, ram_FreeBytes = mem ''MemFree'',
                     AvailableBytes = mem ''MemAvailable'', CachedBytes = mem ''Cached'' + mem ''SReclaimable'',
                     BuffersBytes = mem ''Buffers'', SwapTotalBytes = mem ''SwapTotal'',
                     SwapUsedBytes = mem ''SwapTotal'' - mem ''SwapFree'',
                     ram_UsagePercent = (if mem ''MemTotal'' > 0 then percent_of used (mem ''MemTotal'') else 0)\<rparr>, err)))"

definition collectLoadAvg :: "kernel \<Rightarrow> LoadAvgMetrics option" where
  "collectLoadAvg K =
     (case k_file K ''/proc/loadavg'' of
        None \<Rightarrow> None
      | Some s \<Rightarrow>
          let fs = Prelude.fields s in
          if length fs < 3 then None
          else Some \<lparr>Load1 = float_value (fs ! 0), Load5 = float_value (fs ! 1), Load15 = float_value (fs ! 2)\<rparr>)"

definition collectUptime :: "kernel \<Rightarrow> rat option" where
  "collectUptime K =
     (case k_file K ''/proc/uptime'' of
        None \<Rightarrow> None
      | Some s \<Rightarrow> let fs = Prelude.fields s in if length fs < 1 then None else parse_float (fs ! 0))"

section \<open>Disks\<close>

record mountEntry =
  device :: string
  point :: string
  fstype :: string

definition mount_line :: "string \<Rightarrow> mountEntry option" where
  "mount_line l =
     (let fs = Prelude.fields l in
      if length fs < 3 then None else Some \<lparr>device = fs ! 0, point = fs ! 1, fstype = fs ! 2\<rparr>)"

definition readMounts :: "kernel \<Rightarrow> mountEntry list \<times> bool" where
  "readMounts K =
     (case k_file K ''/proc/mounts'' of
        None \<Rightarrow> ([], True)
      | Some s \<Rightarrow> (case scan_lines s of (ls, err) \<Rightarrow> (List.map_filter mount_line ls, err)))"

definition isRealFS :: "string \<Rightarrow> bool" where
  "isRealFS t = (t \<in> {''ext4'', ''ext3'', ''ext2'', ''xfs'', ''btrfs'', ''zfs'', ''vfat'', ''ntfs'', ''exfat'',
     ''tmpfs'', ''overlay''})"

definition diskstats_line :: "(string \<rightharpoonup> diskStat) \<Rightarrow> string \<Rightarrow> (string \<rightharpoonup> diskStat)" where
  "diskstats_line stats l =
     (let fs = Prelude.fields l in
      if length fs < 14 then stats
      else stats(fs ! 2 \<mapsto> \<lparr>readBytes = parseUint (fs ! 5) * 512, writeBytes = parseUint (fs ! 9) * 512\<rparr>))"

definition readDiskStats :: "kernel \<Rightarrow> (string \<rightharpoonup> diskStat) \<times> bool" where
  "readDiskStats K =
     (case k_file K ''/proc/diskstats'' of
        None \<Rightarrow> (Map.empty, True)
      | Some s \<Rightarrow> (case scan_lines s of (ls, err) \<Rightarrow> (foldl diskstats_line Map.empty ls, err)))"

definition disk_metrics :: "mountEntry \<Rightarrow> 64 word \<Rightarrow> 64 word \<Rightarrow> int \<Rightarrow> DiskMetrics" where
  "disk_metrics m blocks bfree bsize =
     (let total = blocks * of_int bsize; free = bfree * of_int bsize; used = total - free
      in \<lparr>Device = device m, MountPoint = point m, FSType = fstype m, disk_TotalBytes = total, disk_UsedBytes = used,
          disk_FreeBytes = free, disk_UsagePercent = (if total > 0 then percent_of used total else 0),
          ReadBytesPS = 0, WriteBytesPS = 0\<rparr>)"

text \<open>One mount: the metrics so far, the devices seen, the previous counters.\<close>

definition disk_step :: "kernel \<Rightarrow> (string \<rightharpoonup> diskStat) \<Rightarrow> rat \<Rightarrow>
    DiskMetrics list \<times> string set \<times> (string \<rightharpoonup> diskStat) \<Rightarrow> mountEntry \<Rightarrow>
    DiskMetrics list \<times> string set \<times> (string \<rightharpoonup> diskStat)" where
  "disk_step K ioStats elapsed st m =
     (case st of (disks, seen, prev) \<Rightarrow>
        if device m \<in> seen \<or> \<not> isRealFS (fstype m) then st
        else (case k_statfs K (point m) of
                None \<Rightarrow> st
              | Some (blocks, bfree, bsize) \<Rightarrow>
                  if bsize \<le> 0 then st
                  else let d = disk_metrics m blocks bfree bsize; devName = path_base (device m) in
                    (case ioStats devName of
                       None \<Rightarrow> (disks @ [d], insert (device m) seen, prev)
                     | Some io \<Rightarrow>
                         let d = (case prev devName of
                                    None \<Rightarrow> d
                                  | Some p \<Rightarrow> d\<lparr>ReadBytesPS := float_of (readBytes io - readBytes p) / elapsed,
                                                WriteBytesPS := float_of (writeBytes io - writeBytes p) / elapsed\<rparr>)
                         in (disks @ [d], insert (device m) seen, prev(devName \<mapsto> io)))))"

definition collectDisks :: "kernel \<Rightarrow> rat \<Rightarrow> collector \<Rightarrow> DiskMetrics list option \<times> collector" where
  "collectDisks K elapsed c =
     (case readDiskStats K of (ioStats, err) \<Rightarrow>
        if err then (None, c)
        else (case readMounts K of (mounts, err) \<Rightarrow>
          if err then (None, c)
          else (case foldl (disk_step K ioStats elapsed) ([], {}, prevDisk c) mounts of (disks, _, prev) \<Rightarrow>
            (Some disks, c\<lparr>prevDisk := prev\<rparr>))))"

section \<open>Network\<close>

definition ifaceType :: "string \<Rightarrow> string" where
  "ifaceType iface =
     (if iface = ''lo'' then ''loopback''
      else if has_prefix iface ''docker'' then ''bridge''
      else if has_prefix iface ''br-'' then ''bridge''
      else if has_prefix iface ''veth'' then ''veth''
      else if has_prefix iface ''tun'' \<or> has_prefix iface ''tap'' then ''tun''
      else if has_prefix iface ''virbr'' then ''bridge''
      else ''physical'')"

definition readLinkState :: "kernel \<Rightarrow> string \<Rightarrow> string" where
  "readLinkState K iface =
     (case k_file K (''/sys/class/net/'' @ iface @ ''/operstate'') of
        None \<Rightarrow> ''unknown'' | Some data \<Rightarrow> trim_space data)"

definition readMAC :: "kernel \<Rightarrow> string \<Rightarrow> string" where
  "readMAC K iface =
     (case k_file K (''/sys/class/net/'' @ iface @ ''/address'') of
        None \<Rightarrow> ''''
      | Some data \<Rightarrow> let mac = trim_space data in if mac = ''00:00:00:00:00:00'' then '''' else mac)"

definition format_ip6 :: "string \<Rightarrow> string" where
  "format_ip6 addr = join_with '':'' (map (\<lambda>i. take 4 (drop (4 * i) addr)) [0..<8])"

definition inet6_line :: "string \<Rightarrow> string \<Rightarrow> string option" where
  "inet6_line iface l =
     (let fs = Prelude.fields l in
      if length fs < 6 \<or> fs ! 5 \<noteq> iface \<or> length (fs ! 0) \<noteq> 32 then None
      else let ip = format_ip6 (fs ! 0) in if has_prefix ip ''fe80'' then None else Some ip)"

definition readIPAddresses :: "kernel \<Rightarrow> string \<Rightarrow> string list" where
  "readIPAddresses K iface =
     (case k_file K ''/proc/net/if_inet6'' of
        None \<Rightarrow> []
      | Some s \<Rightarrow> List.map_filter (inet6_line iface) (fst (scan_lines s)))"

definition net_step :: "kernel \<Rightarrow> rat \<Rightarrow> NetMetrics list \<times> (string \<rightharpoonup> netStat) \<Rightarrow> string \<Rightarrow>
    NetMetrics list \<times> (string \<rightharpoonup> netStat)" where
  "net_step K elapsed st l =
     (case st of (nets, prev) \<Rightarrow>
        (case str_index l '':'' of
           None \<Rightarrow> st
         | Some colonIdx \<Rightarrow>
             let iface = trim_space (take colonIdx l); fs = Prelude.fields (drop (colonIdx + 1) l) in
             if length fs < 9 then st
             else let rx = parseUint (fs ! 0); tx = parseUint (fs ! 8);
                      n = \<lparr>Interface = iface, IPAddresses = readIPAddresses K iface, MACAddress = readMAC K iface,
                           net_Type = ifaceType iface, LinkState = readLinkState K iface, RxBytesPS = 0, TxBytesPS = 0,
                           RxBytesTotal = rx, TxBytesTotal = tx\<rparr>;
                      n = (case prev iface of
                             None \<Rightarrow> n
                           | Some p \<Rightarrow> n\<lparr>RxBytesPS := float_of (rx - rxBytes p) / elapsed,
                                         TxBytesPS := float_of (tx - txBytes p) / elapsed\<rparr>)
                  in (nets @ [n], prev(iface \<mapsto> \<lparr>rxBytes = rx, txBytes = tx\<rparr>))))"

definition collectNetwork :: "kernel \<Rightarrow> rat \<Rightarrow> collector \<Rightarrow> NetMetrics list option \<times> collector" where
  "collectNetwork K elapsed c =
     (case k_file K ''/proc/net/dev'' of
        None \<Rightarrow> (None, c)
      | Some s \<Rightarrow>
          (case scan_lines s of (ls, err) \<Rightarrow>
             (case foldl (net_step K elapsed) ([], prevNet c) (drop 2 ls) of (nets, prev) \<Rightarrow>
                (if err then None else Some nets, c\<lparr>prevNet := prev\<rparr>))))"

section \<open>Processes\<close>

definition status_line :: "64 word \<Rightarrow> Process \<Rightarrow> string \<Rightarrow> Process" where
  "status_line totalRAM p l =
     (let fs = Prelude.fields l in
      if length fs < 2 then p
      else if trim_suffix (fs ! 0) '':'' = ''State'' then p\<lparr>proc_Status := fs ! 1\<rparr>
      else if trim_suffix (fs ! 0) '':'' = ''VmRSS''
      then (let mem = parseUint (fs ! 1) * 1024; p = p\<lparr>MemBytes := mem\<rparr>
            in if totalRAM > 0 then p\<lparr>MemPercent := percent_of mem totalRAM\<rparr> else p)
      else p)"

definition readProcess :: "kernel \<Rightarrow> int \<Rightarrow> 64 word \<Rightarrow> Process option" where
  "readProcess K pid totalRAM =
     (case k_file K (''/proc/'' @ int_text pid @ ''/comm'') of
        None \<Rightarrow> None
      | Some comm \<Rightarrow>
          (case k_file K (''/proc/'' @ int_text pid @ ''/status'') of
             None \<Rightarrow> None
           | Some st \<Rightarrow>
               Some (foldl (status_line totalRAM)
                 \<lparr>PID = pid, Name = trim_space comm, CPUPercent = 0, MemPercent = 0, MemBytes = 0, proc_Status = ''''\<rparr>
                 (split_on newline st))))"

definition collectProcesses :: "kernel \<Rightarrow> 64 word \<Rightarrow> Process list option" where
  "collectProcesses K totalRAM =
     (case k_proc K of
        None \<Rightarrow> None
      | Some entries \<Rightarrow>
          Some (List.map_filter (\<lambda>(nm, dir).
            if \<not> dir then None
            else (case parse_int64 nm of None \<Rightarrow> None | Some pid \<Rightarrow> readProcess K pid totalRAM)) entries))"

definition CollectProcesses :: "kernel \<Rightarrow> Process list option" where
  "CollectProcesses K =
     (case collectRAM K of (ram, err) \<Rightarrow> if err then None else collectProcesses K (ram_TotalBytes ram))"

section \<open>A collection\<close>

definition NewCollector :: "kernel \<Rightarrow> time \<Rightarrow> collector" where
  "NewCollector K now = \<lparr>prevCPU = fst (readCPUStat K), prevDisk = Map.empty, prevNet = Map.empty, prevTime = now\<rparr>"

definition elapsed_secs :: "time \<Rightarrow> time \<Rightarrow> rat" where
  "elapsed_secs now prev =
     (let s = of_int (max (- (2 ^ 63)) (min (2 ^ 63 - 1) (now - prev))) / 10 ^ 9 in if s < 1 / 10 then 1 / 10 else s)"

definition zero_snapshot :: "time \<Rightarrow> Snapshot" where
  "zero_snapshot now = \<lparr>Timestamp = now, CPU = \<lparr>UsagePercent = 0, CoreUsagePercent = [], NumCores = 0\<rparr>,
     RAM = \<lparr>ram_TotalBytes = 0, ram_UsedBytes = 0, ram_FreeBytes = 0, AvailableBytes = 0, CachedBytes = 0,
       BuffersBytes = 0, SwapTotalBytes = 0, SwapUsedBytes = 0, ram_UsagePercent = 0\<rparr>,
     Disks = [], Networks = [], LoadAvg = \<lparr>Load1 = 0, Load5 = 0, Load15 = 0\<rparr>, UptimeSec = 0\<rparr>"

definition Collect :: "kernel \<Rightarrow> time \<Rightarrow> collector \<Rightarrow> Snapshot \<times> collector" where
  "Collect K now c =
     (let elapsed = elapsed_secs now (prevTime c); snap = zero_snapshot now in
      case collectCPU K c of (cpu, c) \<Rightarrow>
      let snap = (case cpu of None \<Rightarrow> snap | Some x \<Rightarrow> snap\<lparr>CPU := x\<rparr>);
          snap = (case collectRAM K of (ram, err) \<Rightarrow> if err then snap else snap\<lparr>RAM := ram\<rparr>);
          snap = (case collectLoadAvg K of None \<Rightarrow> snap | Some x \<Rightarrow> snap\<lparr>LoadAvg := x\<rparr>);
          snap = (case collectUptime K of None \<Rightarrow> snap | Some x \<Rightarrow> snap\<lparr>UptimeSec := x\<rparr>) in
      case collectDisks K elapsed c of (disks, c) \<Rightarrow>
      let snap = (case disks of None \<Rightarrow> snap | Some x \<Rightarrow> snap\<lparr>Disks := x\<rparr>) in
      case collectNetwork K elapsed c of (nets, c) \<Rightarrow>
      let snap = (case nets of None \<Rightarrow> snap | Some x \<Rightarrow> snap\<lparr>Networks := x\<rparr>)
      in (snap, c\<lparr>prevTime := now\<rparr>))"

section \<open>Properties\<close>

lemma complement_share: "t \<noteq> 0 \<Longrightarrow> a + b = t \<Longrightarrow> 1 - of_nat a / of_nat t = (of_nat b / of_nat t :: rat)"
  by (auto simp: field_simps simp flip: of_nat_add)

lemma share_bounds:
  assumes "a \<le> t"
  shows "0 \<le> of_nat a / of_nat t * (100 :: rat) \<and> of_nat a / of_nat t * 100 \<le> (100 :: rat)"
proof -
  have "of_nat a / of_nat t \<le> (1 :: rat)" using assms by (cases "t = 0") (simp_all add: divide_le_eq)
  moreover have "0 \<le> (of_nat a / of_nat t :: rat)" by simp
  ultimately show ?thesis by (simp del: times_divide_eq_left)
qed

lemma percent_of_bounds: "part \<le> whole \<Longrightarrow> 0 \<le> percent_of part whole \<and> percent_of part whole \<le> 100"
  unfolding percent_of_def float_of_def word_le_nat_alt by (rule share_bounds)

lemma cpu_percent_advanced:
  assumes "ct_user q = ct_user p + of_nat us" "ct_nice q = ct_nice p + of_nat ni" "ct_system q = ct_system p + of_nat sy"
    "ct_idle q = ct_idle p + of_nat idl" "ct_iowait q = ct_iowait p + of_nat wa" "ct_irq q = ct_irq p + of_nat ir"
    "ct_softirq q = ct_softirq p + of_nat si"
    and "us + ni + sy + idl + wa + ir + si < 2 ^ 64"
  shows "cpuUsagePercent p q = (if us + ni + sy + idl + wa + ir + si = 0 then 0
      else of_nat (us + ni + sy + ir + si) / of_nat (us + ni + sy + idl + wa + ir + si) * 100)
    \<and> 0 \<le> cpuUsagePercent p q \<and> cpuUsagePercent p q \<le> 100"
proof -
  let ?t = "us + ni + sy + idl + wa + ir + si"
  have t: "float_of (ct_user q + ct_nice q + ct_system q + ct_idle q + ct_iowait q + ct_irq q + ct_softirq q
      - (ct_user p + ct_nice p + ct_system p + ct_idle p + ct_iowait p + ct_irq p + ct_softirq p)) = of_nat ?t"
  proof -
    have "ct_user q + ct_nice q + ct_system q + ct_idle q + ct_iowait q + ct_irq q + ct_softirq q
      - (ct_user p + ct_nice p + ct_system p + ct_idle p + ct_iowait p + ct_irq p + ct_softirq p) = of_nat ?t"
      by (simp add: assms(1-7))
    then show ?thesis using assms(8) by (simp add: float_of_def unat_of_nat del: of_nat_add)
  qed
  have i: "float_of (ct_idle q + ct_iowait q - (ct_idle p + ct_iowait p)) = of_nat (idl + wa)"
  proof -
    have "ct_idle q + ct_iowait q - (ct_idle p + ct_iowait p) = of_nat (idl + wa)" by (simp add: assms(4,5))
    then show ?thesis using assms(8) by (simp add: float_of_def unat_of_nat del: of_nat_add)
  qed
  have eq: "cpuUsagePercent p q = (if ?t = 0 then 0 else of_nat (us + ni + sy + ir + si) / of_nat ?t * 100)"
  proof (cases "?t = 0")
    case False
    have "1 - of_nat (idl + wa) / of_nat ?t = (of_nat (us + ni + sy + ir + si) / of_nat ?t :: rat)"
      using False by (intro complement_share) simp_all
    then show ?thesis using False unfolding cpuUsagePercent_def Let_def t i by (simp del: of_nat_add)
  qed (simp add: cpuUsagePercent_def Let_def t)
  have "us + ni + sy + ir + si \<le> ?t" by simp
  from share_bounds [OF this] show ?thesis unfolding eq by simp
qed

lemma cpu_percent_range:
  fixes p q :: cpuStat
  defines "ticks \<equiv> ct_user q + ct_nice q + ct_system q + ct_idle q + ct_iowait q + ct_irq q + ct_softirq q
      - (ct_user p + ct_nice p + ct_system p + ct_idle p + ct_iowait p + ct_irq p + ct_softirq p)"
    and "idl \<equiv> ct_idle q + ct_iowait q - (ct_idle p + ct_iowait p)"
  shows "0 \<le> cpuUsagePercent p q \<and> cpuUsagePercent p q \<le> 100 \<longleftrightarrow> ticks = 0 \<or> idl \<le> ticks"
proof (cases "ticks = 0")
  case True
  then show ?thesis unfolding ticks_def by (simp add: cpuUsagePercent_def Let_def float_of_def)
next
  case False
  then have "0 < unat ticks" by (simp add: unat_gt_0)
  then have t: "0 < (of_nat (unat ticks) :: rat)" by (simp only: of_nat_0_less_iff)
  define share :: rat where "share = of_nat (unat idl) / of_nat (unat ticks)"
  have "cpuUsagePercent p q = (1 - share) * 100" using t
    unfolding share_def cpuUsagePercent_def Let_def float_of_def ticks_def [symmetric] idl_def [symmetric] by simp
  moreover have "0 \<le> share" unfolding share_def by (intro divide_nonneg_nonneg of_nat_0_le_iff)
  moreover have "share \<le> 1 \<longleftrightarrow> idl \<le> ticks"
    unfolding share_def by (simp only: pos_divide_le_eq [OF t] word_le_nat_alt mult_1 of_nat_le_iff)
  ultimately show ?thesis using False by auto
qed

text \<open>C33: The utilisation between two readings. When every counter only advanced, by fewer than \<open>2 ^ 64\<close>
  ticks together, it is the share of busy ticks and so between 0 and 100 percent, also when counters or their
  64-bit sums wrapped around in between. In general it lies in that range exactly when the total, as a 64-bit
  number, did not change or the idle ticks (idle and iowait) are no more than it. When idle and iowait together fall while
  the total grows (the kernel's documentation allows iowait to fall), it leaves the range.\<close>

theorem cpu_percent_bounds:
  fixes p q :: cpuStat
  defines "ticks \<equiv> ct_user q + ct_nice q + ct_system q + ct_idle q + ct_iowait q + ct_irq q + ct_softirq q
      - (ct_user p + ct_nice p + ct_system p + ct_idle p + ct_iowait p + ct_irq p + ct_softirq p)"
  shows "(ct_user q = ct_user p + of_nat us \<and> ct_nice q = ct_nice p + of_nat ni \<and> ct_system q = ct_system p + of_nat sy
      \<and> ct_idle q = ct_idle p + of_nat idl \<and> ct_iowait q = ct_iowait p + of_nat wa \<and> ct_irq q = ct_irq p + of_nat ir
      \<and> ct_softirq q = ct_softirq p + of_nat si \<and> us + ni + sy + idl + wa + ir + si < 2 ^ 64 \<longrightarrow>
        cpuUsagePercent p q = (if us + ni + sy + idl + wa + ir + si = 0 then 0
          else of_nat (us + ni + sy + ir + si) / of_nat (us + ni + sy + idl + wa + ir + si) * 100)
        \<and> 0 \<le> cpuUsagePercent p q \<and> cpuUsagePercent p q \<le> 100)
    \<and> (0 \<le> cpuUsagePercent p q \<and> cpuUsagePercent p q \<le> 100 \<longleftrightarrow>
        ticks = 0 \<or> ct_idle q + ct_iowait q - (ct_idle p + ct_iowait p) \<le> ticks)"
  using cpu_percent_advanced [of q p us ni sy idl wa ir si] cpu_percent_range [of p q]
  unfolding ticks_def by blast

text \<open>The counters wrap on both sides of the first processor's reading.\<close>

definition demo_ticks :: cpuStat where
  "demo_ticks = \<lparr>ct_user = - 1, ct_nice = 0, ct_system = 5, ct_idle = - 2, ct_iowait = 0, ct_irq = 0, ct_softirq = 0\<rparr>"

theorem cpu_percent_bounds_witness:
  "cpuUsagePercent demo_ticks (demo_ticks\<lparr>ct_user := 2, ct_idle := - 1\<rparr>) = 75"
  using cpu_percent_bounds [of "demo_ticks\<lparr>ct_user := 2, ct_idle := - 1\<rparr>" demo_ticks 3 0 0 1 0 0 0]
  by (simp add: demo_ticks_def)

text \<open>The utilisation leaves that range when the kernel lets the iowait counter fall, which its documentation
  allows: the difference is taken in 64-bit unsigned arithmetic, so the idle share becomes astronomical and the
  reported utilisation is below -100 percent.\<close>

theorem cpu_percent_iowait_drop:
  assumes "ct_user q = ct_user p + of_nat us" "ct_iowait q = ct_iowait p - of_nat k"
    and "ct_nice q = ct_nice p" "ct_system q = ct_system p" "ct_idle q = ct_idle p" "ct_irq q = ct_irq p" "ct_softirq q = ct_softirq p"
    and "0 < k" "k < us" "us < 2 ^ 62"
  shows "cpuUsagePercent p q < - 100"
proof -
  have "ct_user q + ct_nice q + ct_system q + ct_idle q + ct_iowait q + ct_irq q + ct_softirq q
      - (ct_user p + ct_nice p + ct_system p + ct_idle p + ct_iowait p + ct_irq p + ct_softirq p) = of_nat us - of_nat k"
    by (simp add: assms(1-7))
  also have "\<dots> = of_nat (us - k)" using assms(9) by (simp add: of_nat_diff)
  finally have t: "float_of (ct_user q + ct_nice q + ct_system q + ct_idle q + ct_iowait q + ct_irq q + ct_softirq q
      - (ct_user p + ct_nice p + ct_system p + ct_idle p + ct_iowait p + ct_irq p + ct_softirq p)) = of_nat (us - k)"
    using assms(10) by (simp add: float_of_def unat_of_nat del: of_nat_diff)
  have "ct_idle q + ct_iowait q - (ct_idle p + ct_iowait p) = - (of_nat k :: 64 word)" by (simp add: assms(2,5))
  also have "\<dots> = of_nat (2 ^ 64 - k)" using assms(9,10) by (simp add: of_nat_diff)
  finally have i: "float_of (ct_idle q + ct_iowait q - (ct_idle p + ct_iowait p)) = of_nat (2 ^ 64 - k)"
    using assms(8-10) by (simp add: float_of_def unat_of_nat del: of_nat_diff)
  have "2 * (us - k) < 2 ^ 64 - k" "0 < us - k" using assms(8-10) by simp_all
  then have "2 * of_nat (us - k) < (of_nat (2 ^ 64 - k) :: rat)" "0 < (of_nat (us - k) :: rat)"
    by (metis of_nat_less_iff of_nat_mult of_nat_numeral, simp)
  then have "2 < of_nat (2 ^ 64 - k) / (of_nat (us - k) :: rat)" by (simp add: less_divide_eq del: of_nat_diff)
  then show ?thesis using assms(9) unfolding cpuUsagePercent_def Let_def t i by (simp del: of_nat_diff times_divide_eq_left)
qed

theorem cpu_percent_iowait_drop_witness:
  "cpuUsagePercent demo_ticks (demo_ticks\<lparr>ct_user := 2, ct_iowait := - 1\<rparr>) < - 100"
  using cpu_percent_iowait_drop [of "demo_ticks\<lparr>ct_user := 2, ct_iowait := - 1\<rparr>" demo_ticks 3 1]
  by (simp add: demo_ticks_def)

text \<open>The loop over the mounts.\<close>

definition disks_ok :: "kernel \<Rightarrow> DiskMetrics list \<times> string set \<times> (string \<rightharpoonup> diskStat) \<Rightarrow> bool" where
  "disks_ok K st = (case st of (disks, seen, _) \<Rightarrow>
     distinct (map Device disks) \<and> Device ` set disks = seen \<and> (\<forall>d \<in> set disks. isRealFS (FSType d))
     \<and> (\<forall>d \<in> set disks. disk_UsedBytes d + disk_FreeBytes d = disk_TotalBytes d))"

lemma disk_step_ok: "disks_ok K st \<Longrightarrow> disks_ok K (disk_step K io e st m)"
  by (auto simp: disks_ok_def disk_step_def disk_metrics_def Let_def split: prod.splits option.splits)

lemma disk_steps_ok: "disks_ok K st \<Longrightarrow> disks_ok K (foldl (disk_step K io e) st ms)"
  by (induction ms arbitrary: st) (simp_all add: disk_step_ok)

text \<open>The disk list has no duplicates and nothing but real file systems: each device is listed at most once
  however often it is mounted, and of every listed disk used and free bytes add up to the total (modulo \<open>2 ^ 64\<close>).\<close>

theorem disks_listed_once:
  assumes "collectDisks K e c = (Some disks, c')"
  shows "distinct (map Device disks) \<and> (\<forall>d \<in> set disks. isRealFS (FSType d)
    \<and> disk_UsedBytes d + disk_FreeBytes d = disk_TotalBytes d)"
proof -
  obtain io ms seen prev where "foldl (disk_step K io e) ([], {}, prevDisk c) ms = (disks, seen, prev)"
    using assms by (auto simp: collectDisks_def split: prod.splits if_splits)
  moreover have "disks_ok K ([], {}, prevDisk c)" by (simp add: disks_ok_def)
  ultimately show ?thesis using disk_steps_ok [of K "([], {}, prevDisk c)" io e ms] by (auto simp: disks_ok_def)
qed

text \<open>A disk mounted twice, and a file system that is no disk.\<close>

definition demo_kernel :: kernel where
  "demo_kernel = \<lparr>k_file = (\<lambda>p.
       if p = ''/proc/diskstats'' then Some ''''
       else if p = ''/proc/mounts'' then
         Some (''/dev/sda1 / ext4 rw'' @ [newline] @ ''proc /proc proc rw'' @ [newline] @ ''/dev/sda1 /mnt ext4 ro'' @ [newline])
       else None),
     k_proc = None, k_statfs = (\<lambda>p. Some (10, 4, 4096)), k_cpus = 1\<rparr>"

definition demo_collector :: collector where
  "demo_collector = \<lparr>prevCPU = [], prevDisk = Map.empty, prevNet = Map.empty, prevTime = 0\<rparr>"

lemma demo_mount_lines:
  "scan_lines (''/dev/sda1 / ext4 rw'' @ [newline] @ ''proc /proc proc rw'' @ [newline] @ ''/dev/sda1 /mnt ext4 ro'' @ [newline])
    = ([''/dev/sda1 / ext4 rw'', ''proc /proc proc rw'', ''/dev/sda1 /mnt ext4 ro''], False)"
  using scan_lines_join [of "[''/dev/sda1 / ext4 rw'', ''proc /proc proc rw'', ''/dev/sda1 /mnt ext4 ro'']"]
  by (simp add: newline_def MaxScanTokenSize_def)

lemma demo_mount_entries:
  "mount_line ''/dev/sda1 / ext4 rw'' = Some \<lparr>device = ''/dev/sda1'', point = ''/'', fstype = ''ext4''\<rparr>"
  "mount_line ''proc /proc proc rw'' = Some \<lparr>device = ''proc'', point = ''/proc'', fstype = ''proc''\<rparr>"
  "mount_line ''/dev/sda1 /mnt ext4 ro'' = Some \<lparr>device = ''/dev/sda1'', point = ''/mnt'', fstype = ''ext4''\<rparr>"
  by code_simp+

theorem disks_listed_once_witness:
  "\<exists>disks c'. collectDisks demo_kernel 1 demo_collector = (Some disks, c') \<and> map Device disks = [''/dev/sda1'']
    \<and> distinct (map Device disks)"
proof -
  have "map_option (map Device) (fst (collectDisks demo_kernel 1 demo_collector)) = Some [''/dev/sda1'']"
    by (simp add: demo_kernel_def demo_collector_def collectDisks_def readDiskStats_def readMounts_def
        demo_mount_lines [simplified] demo_mount_entries scan_lines_def [of "[]"] raw_lines_def
        map_filter_simps disk_step_def isRealFS_def disk_metrics_def Let_def)
  then obtain disks :: "DiskMetrics list" and c' :: collector
    where "collectDisks demo_kernel 1 demo_collector = (Some disks, c')" "map Device disks = [''/dev/sda1'']"
    by (cases "collectDisks demo_kernel 1 demo_collector") auto
  moreover from disks_listed_once [OF this(1)] have "distinct (map Device disks)" by simp
  ultimately show ?thesis by (metis (no_types, lifting))
qed

end
