(* ===== verification/Alerts.thy ===== *)
theory Alerts
  imports Collector Demo
begin

text \<open>
  The alert service (\<open>internal/alerts/service.go\<close>): thresholds, the count of consecutive violations per
  metric, opening and resolving of alerts, and the webhook message. A service is the record \<open>alert_svc\<close>; the
  goroutines that send webhooks are the list \<open>started\<close>, oldest first, and \<open>sendWebhook\<close> is the payload
  one of them posts when it runs (\<open>None\<close> without a configured address; the HTTP exchange is left out).
\<close>

section \<open>Data\<close>

record Threshold =
  th_Type :: string
  Warning :: rat
  Critical :: rat
  Enabled :: bool

definition DefaultThresholds :: "Threshold list" where
  "DefaultThresholds =
     [\<lparr>th_Type = ''cpu'', Warning = 80, Critical = 90, Enabled = True\<rparr>,
      \<lparr>th_Type = ''ram'', Warning = 85, Critical = 95, Enabled = True\<rparr>,
      \<lparr>th_Type = ''disk'', Warning = 80, Critical = 90, Enabled = True\<rparr>]"

record Alert =
  A_ID :: string
  A_Type :: string
  A_Severity :: string
  A_Threshold :: rat
  A_CurrentValue :: rat
  A_Message :: string
  A_TriggeredAt :: time
  A_ResolvedAt :: "time option"
  A_Notified :: bool

record AlertContext =
  Hostname :: string
  MetricLabel :: string
  ctx_Value :: string
  ctx_Threshold :: string
  Trend :: string
  LoadAvg1 :: rat

record WebhookPayload =
  wp_Event :: string
  wp_Alert :: Alert
  wp_Timestamp :: time
  wp_Context :: AlertContext

record alert_svc =
  thresholds :: "Threshold list"
  webhookURL :: string
  hostname :: string
  consecutiveViolations :: "string \<Rightarrow> int"
  lastValues :: "string \<rightharpoonup> rat"
  started :: "(Alert \<times> string \<times> Snapshot) list"

definition NewService :: "string \<Rightarrow> string \<Rightarrow> alert_svc" where
  "NewService url host = \<lparr>thresholds = DefaultThresholds, webhookURL = url, hostname = host,
     consecutiveViolations = (\<lambda>_. 0), lastValues = Map.empty, started = []\<rparr>"

section \<open>Messages\<close>

definition formatBytesShort :: "64 word \<Rightarrow> string" where
  "formatBytesShort b =
     (if b \<ge> 1073741824 then fmt_fixed 1 (float_of b / 1073741824) @ '' GB''
      else fmt_fixed 0 (float_of b / 1048576) @ '' MB'')"

text \<open>The dash and the umlaut are their UTF-8 bytes.\<close>

definition dash :: string where
  "dash = '' '' @ [CHR 0xE2, CHR 0x80, CHR 0x94] @ '' ''"

definition formatMessage :: "string \<Rightarrow> string \<Rightarrow> string \<Rightarrow> rat \<Rightarrow> rat \<Rightarrow> Snapshot \<Rightarrow> string" where
  "formatMessage alertType resource severity v threshold snap =
     (let label = (if alertType = ''cpu'' then ''CPU-Auslastung'' else if alertType = ''ram'' then ''RAM-Auslastung''
                   else if alertType = ''disk'' then ''Disk-Auslastung'' else '''');
          label = (if resource \<noteq> '''' then label @ '' ('' @ resource @ '')'' else label);
          base = label @ '' bei '' @ fmt_fixed 1 v @ ''% (Schwellwert: '' @ fmt_fixed 0 threshold @ ''%)''
      in if alertType = ''cpu''
         then base @ dash @ ''Load: '' @ fmt_fixed 2 (Load1 (LoadAvg snap)) @ ''/'' @ fmt_fixed 2 (Load5 (LoadAvg snap))
           @ ''/'' @ fmt_fixed 2 (Load15 (LoadAvg snap))
         else if alertType = ''ram''
         then base @ dash @ ''Verf'' @ [CHR 0xC3, CHR 0xBC] @ ''gbar: '' @ formatBytesShort (AvailableBytes (RAM snap))
         else base)"

definition sendWebhook :: "alert_svc \<Rightarrow> time \<Rightarrow> Alert \<Rightarrow> string \<Rightarrow> Snapshot \<Rightarrow> WebhookPayload option" where
  "sendWebhook s now alert event snap =
     (if webhookURL s = '''' then None
      else let trend = (case lastValues s (A_Type alert) of
                          None \<Rightarrow> ''stable''
                        | Some prev \<Rightarrow> if A_CurrentValue alert > prev + 1 then ''rising''
                                       else if A_CurrentValue alert < prev - 1 then ''falling'' else ''stable'')
           in Some \<lparr>wp_Event = event, wp_Alert = alert, wp_Timestamp = now,
                wp_Context = \<lparr>Hostname = hostname s, MetricLabel = A_Type alert,
                  ctx_Value = fmt_fixed 1 (A_CurrentValue alert) @ ''%'', ctx_Threshold = fmt_fixed 0 (A_Threshold alert) @ ''%'',
                  Trend = trend, LoadAvg1 = Load1 (LoadAvg snap)\<rparr>\<rparr>)"

section \<open>Evaluation\<close>

definition thresholdFor :: "alert_svc \<Rightarrow> string \<Rightarrow> Threshold option" where
  "thresholdFor s ty = find (\<lambda>t. th_Type t = ty) (thresholds s)"

definition q_FindActiveAlert :: "string \<Rightarrow> string query" where
  "q_FindActiveAlert ty d =
     (case first_row (\<lambda>a. al_type a = ty \<and> al_resolved_at a = None) (alerts d) of
        Inl e \<Rightarrow> Inl e | Inr a \<Rightarrow> Inr (al_id a))"

definition findActiveAlert :: "string \<Rightarrow> string \<Rightarrow> string option action" where
  "findActiveAlert ty resource = do {
     r \<leftarrow> db_read (q_FindActiveAlert ty);
     ret (case r of Inl _ \<Rightarrow> None | Inr i \<Rightarrow> Some i)
   }"

definition triggerAlert :: "ext \<Rightarrow> alert_svc \<Rightarrow> Snapshot \<Rightarrow> string \<Rightarrow> string \<Rightarrow> string \<Rightarrow> rat \<Rightarrow> rat \<Rightarrow> alert_svc action" where
  "triggerAlert E s snap ty resource severity threshold v = do {
     now \<leftarrow> reads clock;
     let msg = formatMessage ty resource severity v threshold snap;
     i \<leftarrow> new_uuid E;
     r \<leftarrow> db_write (q_CreateAlert i ty threshold v severity (nullstr resource));
     (case r of
        Inl _ \<Rightarrow> ret s
      | Inr row \<Rightarrow>
          ret (s\<lparr>started := started s @ [(\<lparr>A_ID = al_id row, A_Type = ty, A_Severity = severity, A_Threshold = threshold,
            A_CurrentValue = v, A_Message = msg, A_TriggeredAt = now, A_ResolvedAt = None, A_Notified = False\<rparr>,
            ''triggered'', snap)]\<rparr>))
   }"

definition resolveAlert :: "alert_svc \<Rightarrow> Snapshot \<Rightarrow> string \<Rightarrow> rat \<Rightarrow> alert_svc action" where
  "resolveAlert s snap alertID v = do {
     now \<leftarrow> reads clock;
     r \<leftarrow> db_write (q_ResolveAlert alertID);
     (case r of
        Inl _ \<Rightarrow> ret s
      | Inr _ \<Rightarrow>
          ret (s\<lparr>started := started s @ [(\<lparr>A_ID = alertID, A_Type = '''', A_Severity = '''', A_Threshold = 0,
            A_CurrentValue = v, A_Message = '''', A_TriggeredAt = zero_time, A_ResolvedAt = Some now, A_Notified = False\<rparr>,
            ''resolved'', snap)]\<rparr>))
   }"

text \<open>The severity a value has and the threshold it passes.\<close>

definition classify :: "Threshold \<Rightarrow> rat \<Rightarrow> (string \<times> rat) option" where
  "classify t v =
     (if v \<ge> Critical t then Some (''critical'', Critical t)
      else if v \<ge> Warning t then Some (''warning'', Warning t) else None)"

definition metric_key :: "string \<Rightarrow> string \<Rightarrow> string" where
  "metric_key ty resource = (if resource \<noteq> '''' then ty @ '':'' @ resource else ty)"

definition evaluateMetric :: "ext \<Rightarrow> Snapshot \<Rightarrow> string \<Rightarrow> rat \<Rightarrow> string \<Rightarrow> alert_svc \<Rightarrow> alert_svc action" where
  "evaluateMetric E snap ty v resource s =
     (let key = metric_key ty resource in
      case thresholdFor s ty of
        None \<Rightarrow> ret s
      | Some t \<Rightarrow>
          if \<not> Enabled t then ret s
          else (case classify t v of
             Some (severity, alertThreshold) \<Rightarrow>
               let s = s\<lparr>consecutiveViolations := (consecutiveViolations s)(key := sw64 (consecutiveViolations s key + 1))\<rparr>
               in if consecutiveViolations s key < 2 then ret (s\<lparr>lastValues := (lastValues s)(key \<mapsto> v)\<rparr>)
                  else do {
                    existing \<leftarrow> findActiveAlert ty resource;
                    s \<leftarrow> (case existing of
                       None \<Rightarrow> triggerAlert E s snap ty resource severity alertThreshold v
                     | Some _ \<Rightarrow> ret s);
                    ret (s\<lparr>lastValues := (lastValues s)(key \<mapsto> v)\<rparr>)
                  }
           | None \<Rightarrow> do {
               let s = s\<lparr>consecutiveViolations := (consecutiveViolations s)(key := 0)\<rparr>;
               active \<leftarrow> findActiveAlert ty resource;
               s \<leftarrow> (case active of None \<Rightarrow> ret s | Some i \<Rightarrow> resolveAlert s snap i v);
               ret (s\<lparr>lastValues := (lastValues s)(key \<mapsto> v)\<rparr>)
             }))"

fun evaluate_disks :: "ext \<Rightarrow> Snapshot \<Rightarrow> DiskMetrics list \<Rightarrow> alert_svc \<Rightarrow> alert_svc action" where
  "evaluate_disks E snap [] s = ret s"
| "evaluate_disks E snap (d # ds) s = do {
     s \<leftarrow> evaluateMetric E snap ''disk'' (disk_UsagePercent d) (MountPoint d) s;
     evaluate_disks E snap ds s
   }"

definition Evaluate :: "ext \<Rightarrow> Snapshot \<Rightarrow> alert_svc \<Rightarrow> alert_svc action" where
  "Evaluate E snap s = do {
     s \<leftarrow> evaluateMetric E snap ''cpu'' (UsagePercent (CPU snap)) '''' s;
     s \<leftarrow> evaluateMetric E snap ''ram'' (ram_UsagePercent (RAM snap)) '''' s;
     evaluate_disks E snap (Disks snap) s
   }"

section \<open>Lists and thresholds\<close>

definition q_ListAlerts :: "bool \<Rightarrow> alert_row list query" where
  "q_ListAlerts includeResolved d =
     Inr (if includeResolved then take 100 (newest_first al_triggered_at (alerts d))
          else newest_first al_triggered_at (filter (\<lambda>a. al_resolved_at a = None) (alerts d)))"

definition time_or_zero :: "string \<Rightarrow> time" where
  "time_or_zero s = (case parse_rfc3339 s of None \<Rightarrow> zero_time | Some t \<Rightarrow> t)"

definition toAlert :: "ext \<Rightarrow> alert_row \<Rightarrow> Alert" where
  "toAlert E a = \<lparr>A_ID = al_id a, A_Type = al_type a, A_Severity = al_severity a, A_Threshold = al_threshold a,
     A_CurrentValue = al_current_value a, A_Message = str_of_null (al_resource a),
     A_TriggeredAt = time_or_zero (datetime_text E (al_triggered_at a)),
     A_ResolvedAt = map_option (\<lambda>r. time_or_zero (datetime_text E r)) (al_resolved_at a), A_Notified = (al_notified a \<noteq> 0)\<rparr>"

definition listAlerts :: "ext \<Rightarrow> bool \<Rightarrow> (sql_error + Alert list) action" where
  "listAlerts E includeResolved = do {
     rows \<leftarrow> db_read (q_ListAlerts includeResolved);
     ret (case rows of Inl e \<Rightarrow> Inl e | Inr rows \<Rightarrow> Inr (map (toAlert E) rows))
   }"

definition ListActive :: "ext \<Rightarrow> (sql_error + Alert list) action" where "ListActive E = listAlerts E False"

definition ListAll :: "ext \<Rightarrow> int \<Rightarrow> (sql_error + Alert list) action" where "ListAll E limit = listAlerts E True"

definition UpdateThresholds :: "Threshold list \<Rightarrow> alert_svc \<Rightarrow> alert_svc" where
  "UpdateThresholds ts s = s\<lparr>thresholds := ts\<rparr>"

definition GetThresholds :: "alert_svc \<Rightarrow> Threshold list" where "GetThresholds s = thresholds s"

section \<open>Statements only\<close>

lemma findActiveAlert_silent [silent_intros]: "silent (findActiveAlert ty re)"
  unfolding findActiveAlert_def by (intro silent_intros)

lemmas findActiveAlert_steady [steady_intros] = findActiveAlert_silent [THEN silent_steady]

lemma alert_steps [steady_intros]:
  "steady (triggerAlert E s sn ty re sv th v)" "steady (resolveAlert s sn i v)"
  unfolding triggerAlert_def resolveAlert_def Let_def by (intro steady_intros)+

lemma evaluateMetric_steady [steady_intros]: "steady (evaluateMetric E sn ty v re s)"
  unfolding evaluateMetric_def Let_def by (intro steady_intros)

lemma evaluate_disks_steady [steady_intros]: "steady (evaluate_disks E sn ds s)"
  by (induction ds arbitrary: s) (simp_all, intro steady_intros, intro steady_intros)

lemma Evaluate_steady [steady_intros]: "steady (Evaluate E sn s)"
  unfolding Evaluate_def by (intro steady_intros)

section \<open>One evaluation without driver faults\<close>

definition open_alerts :: "string \<Rightarrow> database \<Rightarrow> alert_row list" where
  "open_alerts ty d = filter (\<lambda>a. al_type a = ty \<and> al_resolved_at a = None) (alerts d)"

definition alerts_ok :: "ext \<Rightarrow> world \<Rightarrow> bool" where
  "alerts_ok E w = (faults w = [] \<and> inj (uuid E) \<and> distinct (map al_id (alerts (db w)))
     \<and> (\<forall>n \<ge> uuid_ctr w. uuid E n \<notin> al_id ` set (alerts (db w)))
     \<and> (\<forall>ty. length (open_alerts ty (db w)) \<le> 1))"

lemma filter_map_keeps:
  "(\<And>x. x \<in> set xs \<Longrightarrow> P (f x) = P x \<and> (P x \<longrightarrow> f x = x)) \<Longrightarrow> filter P (map f xs) = filter P xs"
  by (induction xs) auto

lemma run_findActiveAlert: "faults w = [] \<Longrightarrow> run_state (findActiveAlert ty re) w
    = (case open_alerts ty (db w) of [] \<Rightarrow> None | a # _ \<Rightarrow> Some (al_id a), w)"
  by (auto simp: findActiveAlert_def q_FindActiveAlert_def first_row_def find_filter open_alerts_def split: list.splits)

lemma run_triggerAlert:
  assumes ok: "alerts_ok E w" and ty: "ty \<in> {''cpu'', ''ram'', ''disk''}" "sv \<in> {''warning'', ''critical''}"
    and none: "open_alerts ty (db w) = []" and run: "run_state (triggerAlert E s sn ty re sv th v) w = (s', w')"
  shows "alerts_ok E w' \<and> open_alerts ty (db w') \<noteq> [] \<and> (\<forall>u. u \<noteq> ty \<longrightarrow> open_alerts u (db w') = open_alerts u (db w))
    \<and> thresholds s' = thresholds s \<and> consecutiveViolations s' = consecutiveViolations s"
proof -
  have "uuid E (uuid_ctr w) \<notin> al_id ` set (alerts (db w))" using ok by (simp add: alerts_ok_def)
  moreover define r where "r = \<lparr>al_id = uuid E (uuid_ctr w), al_type = ty, al_threshold = th, al_current_value = v,
      al_severity = sv, al_resource = nullstr re, al_triggered_at = current_timestamp (clock w), al_resolved_at = None, al_notified = 0\<rparr>"
  moreover have "\<not> (ty \<notin> {''cpu'', ''ram'', ''disk''} \<or> sv \<notin> {''warning'', ''critical''})" using ty by blast
  ultimately have "q_CreateAlert (uuid E (uuid_ctr w)) ty th v sv (nullstr re) (current_timestamp (clock w)) (db w)
      = Inr (r, (db w)\<lparr>alerts := alerts (db w) @ [r]\<rparr>)"
    by (simp only: q_CreateAlert_def if_False insert_row_def) simp
  moreover have "faults w = []" using ok by (simp add: alerts_ok_def)
  ultimately have "w' = w\<lparr>uuid_ctr := uuid_ctr w + 1, db := (db w)\<lparr>alerts := alerts (db w) @ [r]\<rparr>\<rparr>"
      "\<exists>a. s' = s\<lparr>started := started s @ [a]\<rparr>"
    using run by (auto simp: triggerAlert_def Let_def)
  then obtain a where r: "w' = w\<lparr>uuid_ctr := uuid_ctr w + 1, db := (db w)\<lparr>alerts := alerts (db w) @ [r]\<rparr>\<rparr>"
      "s' = s\<lparr>started := started s @ [a]\<rparr>" "al_id r = uuid E (uuid_ctr w)" "al_type r = ty" "al_resolved_at r = None"
    by (auto simp: r_def)
  have "\<forall>n > uuid_ctr w. uuid E n \<noteq> uuid E (uuid_ctr w)" using ok by (auto simp: alerts_ok_def dest: injD)
  then show ?thesis using ok none r by (auto simp: alerts_ok_def open_alerts_def)
qed

lemma run_resolveAlert:
  assumes ok: "alerts_ok E w" and one: "open_alerts ty (db w) = a # as" and run: "run_state (resolveAlert s sn (al_id a) v) w = (s', w')"
  shows "alerts_ok E w' \<and> open_alerts ty (db w') = [] \<and> (\<forall>u. u \<noteq> ty \<longrightarrow> open_alerts u (db w') = open_alerts u (db w))
    \<and> thresholds s' = thresholds s \<and> consecutiveViolations s' = consecutiveViolations s"
proof -
  let ?f = "\<lambda>b. if al_id b = al_id a \<and> al_resolved_at b = None then b\<lparr>al_resolved_at := Some (current_timestamp (clock w))\<rparr> else b"
  have w': "w' = w\<lparr>db := (db w)\<lparr>alerts := map ?f (alerts (db w))\<rparr>\<rparr>"
    and s': "\<exists>x. s' = s\<lparr>started := started s @ [x]\<rparr>"
    using run ok by (auto simp: resolveAlert_def q_ResolveAlert_def update_rows_def alerts_ok_def)
  have "a \<in> set (open_alerts ty (db w))" using one by simp
  then have a: "a \<in> set (alerts (db w))" "al_type a = ty" "al_resolved_at a = None" by (auto simp: open_alerts_def)
  have only: "b = a" if "b \<in> set (alerts (db w))" "al_id b = al_id a" for b
    using ok that a(1) by (auto simp: alerts_ok_def distinct_map dest: inj_onD)
  have ids: "map al_id (alerts (db w')) = map al_id (alerts (db w))" by (simp add: w')
  from arg_cong [OF this, of set] have idset: "al_id ` set (alerts (db w')) = al_id ` set (alerts (db w))"
    by (simp only: set_map)
  have others: "open_alerts u (db w') = open_alerts u (db w)" if "u \<noteq> ty" for u
  proof -
    have ty: "al_type b = ty" if "b \<in> set (alerts (db w))" "al_id b = al_id a" for b using only [OF that] a(2) by simp
    have "filter (\<lambda>b. al_type b = u \<and> al_resolved_at b = None) (map ?f (alerts (db w)))
        = filter (\<lambda>b. al_type b = u \<and> al_resolved_at b = None) (alerts (db w))"
    proof (rule filter_map_keeps)
      fix b assume "b \<in> set (alerts (db w))"
      from ty [OF this] that show "(al_type (?f b) = u \<and> al_resolved_at (?f b) = None) = (al_type b = u \<and> al_resolved_at b = None)
          \<and> (al_type b = u \<and> al_resolved_at b = None \<longrightarrow> ?f b = b)"
        by (cases "al_id b = al_id a") auto
    qed
    then show ?thesis by (simp add: w' open_alerts_def)
  qed
  have single: "b = a" if "b \<in> set (alerts (db w))" "al_type b = ty" "al_resolved_at b = None" for b
  proof -
    have "as = []" using ok one by (auto simp: alerts_ok_def dest: spec [of _ ty])
    with one have "set (open_alerts ty (db w)) = {a}" by simp
    with that show ?thesis unfolding open_alerts_def by (metis (mono_tags, lifting) mem_Collect_eq set_filter singletonD)
  qed
  have none: "open_alerts ty (db w') = []"
    unfolding w' open_alerts_def by (auto simp: filter_empty_conv dest!: single)
  have "length (open_alerts u (db w')) \<le> 1" for u
    using ok others [of u] none by (cases "u = ty") (auto simp: alerts_ok_def)
  moreover have "faults w' = faults w" "uuid_ctr w' = uuid_ctr w" by (simp_all add: w')
  ultimately have "alerts_ok E w'" using ok unfolding alerts_ok_def ids idset by metis
  with none others s' show ?thesis by auto
qed

definition metric_types :: "string set" where "metric_types = {''cpu'', ''ram'', ''disk''}"

definition watched :: "alert_svc \<Rightarrow> string \<Rightarrow> Threshold option" where
  "watched s ty = (case thresholdFor s ty of None \<Rightarrow> None | Some t \<Rightarrow> if Enabled t then Some t else None)"

text \<open>What one evaluation does to the counters and to the open alerts of its type.\<close>

definition metric_effect :: "Threshold option \<Rightarrow> rat \<Rightarrow> int \<Rightarrow> bool \<Rightarrow> int \<times> bool" where
  "metric_effect t v n is_open =
     (case t of
        None \<Rightarrow> (n, is_open)
      | Some t \<Rightarrow> if classify t v = None then (0, False) else (sw64 (n + 1), is_open \<or> 2 \<le> sw64 (n + 1)))"

lemma classify_severity: "classify t v = Some (sv, th) \<Longrightarrow> sv \<in> {''warning'', ''critical''}"
  by (auto simp: classify_def split: if_splits)

lemma evaluateMetric_step:
  assumes ok: "alerts_ok E w" and ty: "ty \<in> metric_types"
    and run: "run_state (evaluateMetric E sn ty v re s) w = (s', w')"
  shows "alerts_ok E w' \<and> thresholds s' = thresholds s \<and> (\<forall>u. u \<noteq> ty \<longrightarrow> open_alerts u (db w') = open_alerts u (db w))
    \<and> (\<forall>k. k \<noteq> metric_key ty re \<longrightarrow> consecutiveViolations s' k = consecutiveViolations s k)
    \<and> (consecutiveViolations s' (metric_key ty re), open_alerts ty (db w') \<noteq> [])
      = metric_effect (watched s ty) v (consecutiveViolations s (metric_key ty re)) (open_alerts ty (db w) \<noteq> [])"
proof (cases "watched s ty")
  case None
  then show ?thesis using ok run
    by (auto simp: watched_def evaluateMetric_def Let_def metric_effect_def split: option.splits if_splits)
next
  case (Some t)
  then have t: "thresholdFor s ty = Some t" "Enabled t" by (auto simp: watched_def split: option.splits if_splits)
  let ?k = "metric_key ty re"
  have faults: "faults w = []" using ok by (simp add: alerts_ok_def)
  show ?thesis
  proof (cases "classify t v")
    case None
    define s1 where "s1 = s\<lparr>consecutiveViolations := (consecutiveViolations s)(?k := 0)\<rparr>"
    show ?thesis
    proof (cases "open_alerts ty (db w)")
      case Nil
      then show ?thesis using run t None Some ok faults
        by (auto simp: evaluateMetric_def Let_def run_findActiveAlert metric_effect_def)
    next
      case (Cons a as)
      obtain s2 where r: "run_state (resolveAlert s1 sn (al_id a) v) w = (s2, w')"
        and s': "s' = s2\<lparr>lastValues := (lastValues s2)(?k \<mapsto> v)\<rparr>"
        using run t None Cons faults by (auto simp: evaluateMetric_def Let_def run_findActiveAlert s1_def split: prod.splits)
      from run_resolveAlert [OF ok Cons r] show ?thesis
        using None Some by (auto simp: s' s1_def metric_effect_def)
    qed
  next
    case (Some c)
    obtain sv th where c: "c = (sv, th)" by (cases c)
    define n where "n = sw64 (consecutiveViolations s ?k + 1)"
    define s1 where "s1 = s\<lparr>consecutiveViolations := (consecutiveViolations s)(?k := n)\<rparr>"
    consider "n < 2" | "2 \<le> n" "open_alerts ty (db w) \<noteq> []" | "2 \<le> n" "open_alerts ty (db w) = []" by linarith
    then show ?thesis
    proof cases
      case 1
      then show ?thesis using run t Some c ok \<open>watched s ty = Some t\<close>
        by (auto simp: evaluateMetric_def Let_def n_def [symmetric] metric_effect_def)
    next
      case 2
      then show ?thesis using run t Some c ok faults \<open>watched s ty = Some t\<close>
        by (auto simp: evaluateMetric_def Let_def n_def [symmetric] metric_effect_def run_findActiveAlert neq_Nil_conv)
    next
      case 3
      obtain s2 where r: "run_state (triggerAlert E s1 sn ty re sv th v) w = (s2, w')"
        and s': "s' = s2\<lparr>lastValues := (lastValues s2)(?k \<mapsto> v)\<rparr>"
        using run t Some c 3 faults
        by (auto simp: evaluateMetric_def Let_def n_def [symmetric] run_findActiveAlert s1_def split: prod.splits)
      from run_triggerAlert [OF ok _ classify_severity 3(2) r] Some c ty
      show ?thesis using 3 \<open>watched s ty = Some t\<close>
        by (auto simp: s' s1_def metric_effect_def n_def [symmetric] metric_types_def)
    qed
  qed
qed

section \<open>Sequences of evaluations\<close>

lemma evaluate_disks_append:
  "run_state (evaluate_disks E sn (ds @ es) s) w = (case run_state (evaluate_disks E sn ds s) w of
     (s', w') \<Rightarrow> run_state (evaluate_disks E sn es s') w')"
  by (induction ds arbitrary: s w) (simp_all split: prod.splits)

text \<open>Evaluations at given instants, one after the other (\<open>Evaluate\<close> holds the service's lock).\<close>

fun measurements :: "ext \<Rightarrow> (time \<times> Snapshot) list \<Rightarrow> alert_svc \<Rightarrow> alert_svc action" where
  "measurements E [] s = ret s"
| "measurements E ((t, sn) # xs) s = do {
     modifies (\<lambda>w. w\<lparr>clock := t\<rparr>);
     s \<leftarrow> Evaluate E sn s;
     measurements E xs s
   }"

lemma metric_key_disk: "metric_key ''disk'' re \<noteq> ''cpu''" "metric_key ''disk'' re \<noteq> ''ram''"
  by (simp_all add: metric_key_def)

lemma watched_thresholds: "thresholds s' = thresholds s \<Longrightarrow> watched s' ty = watched s ty"
  by (simp add: watched_def thresholdFor_def)

lemma evaluate_disks_step:
  assumes "alerts_ok E w" "run_state (evaluate_disks E sn ds s) w = (s', w')"
  shows "alerts_ok E w' \<and> thresholds s' = thresholds s \<and> (\<forall>u. u \<noteq> ''disk'' \<longrightarrow> open_alerts u (db w') = open_alerts u (db w))
    \<and> consecutiveViolations s' ''cpu'' = consecutiveViolations s ''cpu''
    \<and> consecutiveViolations s' ''ram'' = consecutiveViolations s ''ram''"
  using assms
proof (induction ds arbitrary: s w)
  case (Cons d ds)
  obtain s1 w1 where s1: "run_state (evaluateMetric E sn ''disk'' (disk_UsagePercent d) (MountPoint d) s) w = (s1, w1)"
    by (metis surj_pair)
  with Cons.prems(2) have rest: "run_state (evaluate_disks E sn ds s1) w1 = (s', w')" by simp
  from evaluateMetric_step [OF Cons.prems(1) _ s1]
  have step: "alerts_ok E w1" "thresholds s1 = thresholds s" "\<forall>u. u \<noteq> ''disk'' \<longrightarrow> open_alerts u (db w1) = open_alerts u (db w)"
      "consecutiveViolations s1 ''cpu'' = consecutiveViolations s ''cpu''"
      "consecutiveViolations s1 ''ram'' = consecutiveViolations s ''ram''"
    by (simp_all add: metric_types_def metric_key_disk [symmetric])
  from Cons.IH [OF step(1) rest] step(2-5) show ?case by simp
qed simp

definition metric_value :: "string \<Rightarrow> Snapshot \<Rightarrow> rat" where
  "metric_value ty sn = (if ty = ''cpu'' then UsagePercent (CPU sn) else ram_UsagePercent (RAM sn))"

lemma Evaluate_step:
  assumes "alerts_ok E w" "ty \<in> {''cpu'', ''ram''}" "run_state (Evaluate E sn s) w = (s', w')"
  shows "alerts_ok E w' \<and> thresholds s' = thresholds s \<and> (consecutiveViolations s' ty, open_alerts ty (db w') \<noteq> [])
    = metric_effect (watched s ty) (metric_value ty sn) (consecutiveViolations s ty) (open_alerts ty (db w) \<noteq> [])"
proof -
  obtain s1 w1 where r1: "run_state (evaluateMetric E sn ''cpu'' (UsagePercent (CPU sn)) '''' s) w = (s1, w1)" by (metis surj_pair)
  obtain s2 w2 where r2: "run_state (evaluateMetric E sn ''ram'' (ram_UsagePercent (RAM sn)) '''' s1) w1 = (s2, w2)" by (metis surj_pair)
  have r3: "run_state (evaluate_disks E sn (Disks sn) s2) w2 = (s', w')" using assms(3) r1 r2 by (simp add: Evaluate_def)
  have key: "metric_key u '''' = u" for u by (simp add: metric_key_def)
  note e1 = evaluateMetric_step [OF assms(1) _ r1, unfolded key]
  have ok1: "alerts_ok E w1" using e1 by (simp add: metric_types_def)
  note e2 = evaluateMetric_step [OF ok1 _ r2, unfolded key]
  have ok2: "alerts_ok E w2" using e2 by (simp add: metric_types_def)
  note e3 = evaluate_disks_step [OF ok2 r3]
  have "watched s1 ''ram'' = watched s ''ram''" using e1 by (intro watched_thresholds) (simp add: metric_types_def)
  with e1 e2 e3 assms(2) show ?thesis by (auto simp: metric_types_def metric_value_def)
qed

lemma measurements_run:
  assumes "alerts_ok E w" "ty \<in> {''cpu'', ''ram''}" "run_state (measurements E xs s) w = (s', w')"
  shows "alerts_ok E w' \<and> (consecutiveViolations s' ty, open_alerts ty (db w') \<noteq> [])
    = foldl (\<lambda>(n, p) x. metric_effect (watched s ty) (metric_value ty (snd x)) n p)
        (consecutiveViolations s ty, open_alerts ty (db w) \<noteq> []) xs"
  using assms
proof (induction xs arbitrary: s w)
  case (Cons x xs)
  obtain t sn where x: "x = (t, sn)" by (cases x)
  obtain s1 w1 where r1: "run_state (Evaluate E sn s) (w\<lparr>clock := t\<rparr>) = (s1, w1)" by (metis surj_pair)
  with Cons.prems(3) x have rest: "run_state (measurements E xs s1) w1 = (s', w')" by simp
  have "alerts_ok E (w\<lparr>clock := t\<rparr>)" using Cons.prems(1) by (simp add: alerts_ok_def)
  from Evaluate_step [OF this Cons.prems(2) r1]
  have e: "alerts_ok E w1" "thresholds s1 = thresholds s"
      "(consecutiveViolations s1 ty, open_alerts ty (db w1) \<noteq> []) = metric_effect (watched s ty) (metric_value ty sn)
         (consecutiveViolations s ty) (open_alerts ty (db w) \<noteq> [])" by simp_all
  from Cons.IH [OF e(1) Cons.prems(2) rest] watched_thresholds [OF e(2)] e(3) x show ?case by simp
qed simp

text \<open>The violations in a row at the end of a sequence of values.\<close>

definition trailing :: "Threshold \<Rightarrow> rat list \<Rightarrow> nat" where
  "trailing t vs = length (takeWhile (\<lambda>v. classify t v \<noteq> None) (rev vs))"

lemma effect_fold:
  "length vs < 2 ^ 62 \<Longrightarrow> foldl (\<lambda>(n, p) v. metric_effect (Some t) v n p) (0, False) vs
     = (int (trailing t vs), 2 \<le> trailing t vs)"
proof (induction vs rule: rev_induct)
  case (snoc v vs)
  have "trailing t vs \<le> length vs" unfolding trailing_def by (metis length_rev length_takeWhile_le)
  with snoc.prems have "sw64 (int (trailing t vs) + 1) = int (trailing t vs) + 1" by (intro sw64_id) simp_all
  with snoc show ?case by (auto simp: metric_effect_def trailing_def)
qed (simp add: trailing_def)

lemma trailing_two: "2 \<le> trailing t vs \<longleftrightarrow>
    2 \<le> length vs \<and> classify t (last vs) \<noteq> None \<and> classify t (last (butlast vs)) \<noteq> None"
  by (cases vs rule: rev_cases; cases "butlast vs" rule: rev_cases) (auto simp: trailing_def Suc_le_eq butlast_append)

section \<open>Properties\<close>

lemma classify_iff: "classify t v \<noteq> None \<longleftrightarrow> Warning t \<le> v \<or> Critical t \<le> v"
  by (auto simp: classify_def)

text \<open>C32: When an alert for the processor or the memory is open. Over any sequence of measurements without driver
  faults, with the type's threshold enabled and no violation counted before, an alert of the type is open exactly when
  each of the last two measurements is at or above its warning threshold (or its critical one), and never are two open
  at once. A value equal to the threshold counts; the package's acceptance criteria speak of values above it.\<close>

theorem alert_open_iff_two_in_a_row:
  assumes "alerts_ok E w" "open_alerts ty (db w) = []" "ty \<in> {''cpu'', ''ram''}"
    and "thresholdFor s ty = Some t" "Enabled t" "consecutiveViolations s ty = 0"
    and "length xs < 2 ^ 62" "run_state (measurements E xs s) w = (s', w')"
  shows "(open_alerts ty (db w') \<noteq> []) = (2 \<le> length xs
      \<and> (\<forall>v \<in> {metric_value ty (snd (last xs)), metric_value ty (snd (last (butlast xs)))}.
           Warning t \<le> v \<or> Critical t \<le> v))
    \<and> length (open_alerts ty (db w')) \<le> 1"
proof -
  let ?vs = "map (\<lambda>x. metric_value ty (snd x)) xs"
  have "watched s ty = Some t" using assms(4,5) by (simp add: watched_def)
  with measurements_run [OF assms(1,3,8)] assms(2,6) have ok: "alerts_ok E w'"
    and run: "(consecutiveViolations s' ty, open_alerts ty (db w') \<noteq> []) = foldl (\<lambda>(n, p) v. metric_effect (Some t) v n p) (0, False) ?vs"
    by (auto simp: foldl_map case_prod_beta')
  have "(open_alerts ty (db w') \<noteq> []) = (2 \<le> trailing t ?vs)"
    using run effect_fold [of ?vs t] assms(7) by simp
  also have "\<dots> = (2 \<le> length xs \<and> classify t (metric_value ty (snd (last xs))) \<noteq> None
      \<and> classify t (metric_value ty (snd (last (butlast xs)))) \<noteq> None)"
  proof (cases "2 \<le> length xs")
    case True
    then have "xs \<noteq> []" "butlast xs \<noteq> []" by (cases xs; simp; cases "tl xs"; simp)+
    then show ?thesis unfolding trailing_two by (simp add: last_map flip: map_butlast)
  qed (simp add: trailing_two)
  finally show ?thesis using ok unfolding classify_iff by (simp add: alerts_ok_def)
qed

text \<open>Disk alerts ignore the mount point. Whatever the other disks report, one evaluation (no driver fault)
  whose last listed disk is below its thresholds leaves no disk alert open: it resolves the alert of a full disk,
  which is opened again, with a new webhook, at the next evaluation.\<close>

theorem disk_alert_follows_last_mount:
  assumes "alerts_ok E w" "watched s ''disk'' = Some t" "Disks sn = ds @ [d]" "classify t (disk_UsagePercent d) = None"
    and run: "run_state (Evaluate E sn s) w = (s', w')"
  shows "open_alerts ''disk'' (db w') = []"
proof -
  obtain s1 w1 where r1: "run_state (evaluateMetric E sn ''cpu'' (UsagePercent (CPU sn)) '''' s) w = (s1, w1)" by (metis surj_pair)
  obtain s2 w2 where r2: "run_state (evaluateMetric E sn ''ram'' (ram_UsagePercent (RAM sn)) '''' s1) w1 = (s2, w2)" by (metis surj_pair)
  obtain s3 w3 where r3: "run_state (evaluate_disks E sn ds s2) w2 = (s3, w3)" by (metis surj_pair)
  have "run_state (evaluate_disks E sn (ds @ [d]) s2) w2 = (s', w')" using run r1 r2 assms(3) by (simp add: Evaluate_def)
  then have r4: "run_state (evaluateMetric E sn ''disk'' (disk_UsagePercent d) (MountPoint d) s3) w3 = (s', w')"
    by (simp add: evaluate_disks_append r3 split: prod.splits)
  note e1 = evaluateMetric_step [OF assms(1) _ r1]
  then have ok1: "alerts_ok E w1" by (simp add: metric_types_def)
  note e2 = evaluateMetric_step [OF ok1 _ r2]
  then have ok2: "alerts_ok E w2" by (simp add: metric_types_def)
  note e3 = evaluate_disks_step [OF ok2 r3]
  then have ok3: "alerts_ok E w3" by simp
  note e4 = evaluateMetric_step [OF ok3 _ r4]
  have "thresholds s3 = thresholds s" using e1 e2 e3 by (simp add: metric_types_def)
  from watched_thresholds [OF this] have "watched s3 ''disk'' = Some t" using assms(2) by simp
  with e4 assms(4) show ?thesis by (simp add: metric_types_def metric_effect_def)
qed

definition demo_snap :: "rat \<Rightarrow> DiskMetrics list \<Rightarrow> Snapshot" where
  "demo_snap v ds = (zero_snapshot second)\<lparr>CPU := \<lparr>UsagePercent = v, CoreUsagePercent = [], NumCores = 4\<rparr>, Disks := ds\<rparr>"

definition demo_disk :: "string \<Rightarrow> rat \<Rightarrow> DiskMetrics" where
  "demo_disk mp v = (disk_metrics \<lparr>device = mp, point = mp, fstype = ''ext4''\<rparr> 0 0 0)\<lparr>disk_UsagePercent := v\<rparr>"

lemma demo_alerts_ok: "alerts_ok demo_ext demo_world"
proof -
  have "inj (uuid demo_ext)" by (rule injI) (simp add: replicate_eq_replicate)
  then show ?thesis by (simp add: alerts_ok_def open_alerts_def)
qed

lemma demo_threshold: "thresholdFor (NewService u h) ty = find (\<lambda>t. th_Type t = ty) DefaultThresholds"
  by (simp add: thresholdFor_def NewService_def)

theorem alert_open_iff_two_in_a_row_witness:
  "\<exists>s' w'. run_state (measurements demo_ext [(second, demo_snap 85 []), (2 * second, demo_snap 95 [])] (NewService '''' ''h''))
      demo_world = (s', w') \<and> length (open_alerts ''cpu'' (db w')) = 1"
proof -
  obtain s' w' where run: "run_state (measurements demo_ext [(second, demo_snap 85 []), (2 * second, demo_snap 95 [])]
      (NewService '''' ''h'')) demo_world = (s', w')" by (metis surj_pair)
  have "thresholdFor (NewService '''' ''h'') ''cpu'' = Some \<lparr>th_Type = ''cpu'', Warning = 80, Critical = 90, Enabled = True\<rparr>"
    by (simp add: demo_threshold DefaultThresholds_def)
  from alert_open_iff_two_in_a_row [OF demo_alerts_ok _ _ this _ _ _ run]
  have "open_alerts ''cpu'' (db w') \<noteq> [] \<and> length (open_alerts ''cpu'' (db w')) \<le> 1"
    by (simp add: open_alerts_def NewService_def metric_value_def demo_snap_def classify_def)
  then show ?thesis using run by (cases "open_alerts ''cpu'' (db w')") auto
qed

theorem disk_alert_follows_last_mount_witness:
  "\<exists>s' w'. run_state (Evaluate demo_ext (demo_snap 0 [demo_disk ''/'' 100, demo_disk ''/boot'' 10]) (NewService '''' ''h''))
      demo_world = (s', w') \<and> open_alerts ''disk'' (db w') = []"
proof -
  obtain s' w' where run: "run_state (Evaluate demo_ext (demo_snap 0 [demo_disk ''/'' 100, demo_disk ''/boot'' 10])
      (NewService '''' ''h'')) demo_world = (s', w')" by (metis surj_pair)
  have "watched (NewService '''' ''h'') ''disk'' = Some \<lparr>th_Type = ''disk'', Warning = 80, Critical = 90, Enabled = True\<rparr>"
    by (simp add: watched_def demo_threshold DefaultThresholds_def)
  from disk_alert_follows_last_mount [OF demo_alerts_ok this _ _ run, of "[demo_disk ''/'' 100]" "demo_disk ''/boot'' 10"] run
  show ?thesis by (simp add: demo_snap_def demo_disk_def classify_def)
qed

end
