(* ===== verification/Decode.thy ===== *)
theory Decode
  imports Json Scan "HOL-Library.Monad_Syntax"
begin

text \<open>
  Storing JSON values into Go structs, as \<open>json.Unmarshal\<close> does, and running commands.

  Struct fields are matched without regard to case, later members overwrite earlier ones, \<open>null\<close> leaves a
  field alone, unknown members are skipped, and a member of the wrong type makes the whole call fail.
\<close>

section \<open>Structs\<close>

text \<open>A field: its name and how a value is stored into it (\<open>None\<close> for a type error).\<close>

type_synonym 'a field = "string \<times> (json \<Rightarrow> 'a \<Rightarrow> 'a option)"

fun string_value :: "(string \<Rightarrow> 'a \<Rightarrow> 'a) \<Rightarrow> json \<Rightarrow> 'a \<Rightarrow> 'a option" where
  "string_value put (JStr s) r = Some (put s r)"
| "string_value put JNull r = Some r"
| "string_value put _ r = None"

fun bool_value :: "(bool \<Rightarrow> 'a \<Rightarrow> 'a) \<Rightarrow> json \<Rightarrow> 'a \<Rightarrow> 'a option" where
  "bool_value put (JBool b) r = Some (put b r)"
| "bool_value put JNull r = Some r"
| "bool_value put _ r = None"

fun int_value :: "(int \<Rightarrow> 'a \<Rightarrow> 'a) \<Rightarrow> json \<Rightarrow> 'a \<Rightarrow> 'a option" where
  "int_value put (JNum s) r = map_option (\<lambda>n. put n r) (parse_int64 s)"
| "int_value put JNull r = Some r"
| "int_value put _ r = None"

definition store_member :: "'a field list \<Rightarrow> string \<times> json \<Rightarrow> 'a \<Rightarrow> 'a option" where
  "store_member fs m r =
     (case find (\<lambda>f. equal_fold (fst f) (fst m)) fs of None \<Rightarrow> Some r | Some f \<Rightarrow> snd f (snd m) r)"

fun store_members :: "'a field list \<Rightarrow> (string \<times> json) list \<Rightarrow> 'a \<Rightarrow> 'a option" where
  "store_members fs [] r = Some r"
| "store_members fs (m # ms) r = (case store_member fs m r of None \<Rightarrow> None | Some r' \<Rightarrow> store_members fs ms r')"

fun store_struct :: "'a field list \<Rightarrow> 'a \<Rightarrow> json \<Rightarrow> 'a option" where
  "store_struct fs r (JObj ms) = store_members fs ms r"
| "store_struct fs r JNull = Some r"
| "store_struct fs r _ = None"

fun store_array :: "(json \<Rightarrow> 'a option) \<Rightarrow> json \<Rightarrow> 'a list option" where
  "store_array f (JArr vs) = those (map f vs)"
| "store_array f JNull = Some []"
| "store_array f _ = None"

text \<open>\<open>json.Unmarshal(data, &r)\<close>, and \<open>json.NewDecoder\<close>, which reads one value and leaves the rest.\<close>

definition unmarshal :: "'a field list \<Rightarrow> 'a \<Rightarrow> string \<Rightarrow> 'a option" where
  "unmarshal fs zero s = (case parse_json s of None \<Rightarrow> None | Some v \<Rightarrow> store_struct fs zero v)"

definition first_json :: "string \<Rightarrow> json option" where
  "first_json s = map_option fst (read_value (Suc (Suc (length s))) s)"

section \<open>Times and numbers\<close>

text \<open>
  RFC 3339 with a fraction and a zone: the instant and the zone's distance from UTC. \<open>strict\<close> is what
  \<open>time.Time\<close>'s JSON reader demands; \<open>time.Parse\<close> also takes a one-digit hour, a comma before the fraction
  and distances up to 24:60. Years before 1 are not read.
\<close>

definition zone_offset :: "bool \<Rightarrow> string \<Rightarrow> int option" where
  "zone_offset strict z =
     (if z = ''Z'' then Some 0
      else if length z = 6 \<and> (z ! 0 = CHR ''+'' \<or> z ! 0 = CHR ''-'') \<and> z ! 3 = CHR '':''
      then (case (unpad (take 2 (drop 1 z)), unpad (drop 4 z)) of
              (Some h, Some m) \<Rightarrow>
                if (if strict then h < 24 \<and> m < 60 else h \<le> 24 \<and> m \<le> 60)
                then Some ((if z ! 0 = CHR ''-'' then - 1 else 1) * (int h * hour + int m * minute)) else None
            | _ \<Rightarrow> None)
      else None)"

definition parse_time :: "bool \<Rightarrow> string \<Rightarrow> (time \<times> int) option" where
  "parse_time strict s =
     (let s = (if \<not> strict \<and> length s > 12 \<and> s ! 12 = CHR '':'' then take 11 s @ ''0'' @ drop 11 s else s);
          rest = drop 19 s;
          frac = (length rest > 1 \<and> (hd rest = CHR ''.'' \<or> \<not> strict \<and> hd rest = CHR '','') \<and> is_digit (rest ! 1));
          ds = (if frac then takeWhile is_digit (tl rest) else '''');
          zone = (if frac then dropWhile is_digit (tl rest) else rest);
          nanos = int (digits_value (take 9 (ds @ replicate 9 (CHR ''0''))))
      in case (parse_rfc3339 (take 19 s @ ''Z''), zone_offset strict zone) of
           (Some t, Some off) \<Rightarrow> Some (t + nanos - off, off)
         | _ \<Rightarrow> None)"

text \<open>A JSON number read into a \<open>float64\<close>: its exact value; \<open>None\<close> beyond the largest finite one.\<close>

definition json_float :: "string \<Rightarrow> rat option" where
  "json_float s =
     (let m = takeWhile (\<lambda>c. c \<notin> {CHR ''e'', CHR ''E''}) s; x = dropWhile (\<lambda>c. c \<notin> {CHR ''e'', CHR ''E''}) s;
          ds = filter is_digit x; k = digits_value ds
      in case parse_float m of
           None \<Rightarrow> None
         | Some v \<Rightarrow>
             let w = (if x = '''' then v else if has_prefix (tl x) ''-'' then v / 10 ^ k else v * 10 ^ k)
             in if \<bar>w\<bar> < 2 ^ 1024 - 2 ^ 970 then Some w else None)"

fun float_value_of :: "(rat \<Rightarrow> 'a \<Rightarrow> 'a) \<Rightarrow> json \<Rightarrow> 'a \<Rightarrow> 'a option" where
  "float_value_of put (JNum s) r = map_option (\<lambda>x. put x r) (json_float s)"
| "float_value_of put JNull r = Some r"
| "float_value_of put _ r = None"

section \<open>Commands\<close>

text \<open>\<open>exec.Command\<close>: the output of a command line and the text of the error, if there is one.\<close>

type_synonym commands = "string list \<Rightarrow> string \<times> string option"

lemma store_member_string [simp]:
  "store_member ((k, string_value put) # fs) (k', JStr s) r
     = (if equal_fold k k' then Some (put s r) else store_member fs (k', JStr s) r)"
  by (simp add: store_member_def)

lemma store_member_none [simp]: "store_member [] m r = Some r"
  by (simp add: store_member_def)

end
