(* ===== verification/Systemd.thy ===== *)
theory Systemd
  imports Decode World
begin

text \<open>
  Systemd services (\<open>internal/services/service.go\<close>): the lists systemctl prints, the actions, and the services
  that may not be stopped. What a command returns is a parameter; every command run is recorded in the world.
  \<open>Execute_command\<close> is the command line an action comes to.
\<close>

section \<open>Data\<close>

record Service =
  sv_Name :: string
  sv_Description :: string
  sv_LoadState :: string
  sv_ActiveState :: string
  sv_SubState :: string
  sv_Enabled :: bool
  sv_IsProtected :: bool

type_synonym Action = string

definition valid_actions :: "Action list" where
  "valid_actions = [''start'', ''stop'', ''restart'', ''enable'', ''disable'', ''reload'']"

definition protectedServices :: "string list" where
  "protectedServices = [''ssh.service'', ''sshd.service'', ''ctrld.service'', ''systemd-journald.service'', ''dbus.service'',
     ''network.service'', ''NetworkManager.service'', ''systemd-networkd.service'']"

definition isProtected :: "string \<Rightarrow> bool" where
  "isProtected name = (name \<in> set protectedServices)"

definition isNotFound :: "string \<Rightarrow> bool" where
  "isNotFound err = (contains err ''not found'' \<or> contains err ''executable file not found'')"

datatype services_error = ListFailed | ServiceNotFound | GetFailed | CriticalService | InvalidAction | ActionFailed string
  | ServiceLogsFailed

section \<open>Reading\<close>

definition demo_service :: "string \<Rightarrow> string \<Rightarrow> string \<Rightarrow> string \<Rightarrow> bool \<Rightarrow> bool \<Rightarrow> Service" where
  "demo_service nm d act sub en pr = \<lparr>sv_Name = nm, sv_Description = d, sv_LoadState = ''loaded'', sv_ActiveState = act,
     sv_SubState = sub, sv_Enabled = en, sv_IsProtected = pr\<rparr>"

definition demoServices :: "Service list" where
  "demoServices =
     [demo_service ''nginx.service'' ''A high performance web server'' ''active'' ''running'' True False,
      demo_service ''sshd.service'' ''OpenSSH server daemon'' ''active'' ''running'' True True,
      demo_service ''cron.service'' ''Regular background program processing daemon'' ''active'' ''running'' True False,
      demo_service ''docker.service'' ''Docker Application Container Engine'' ''active'' ''running'' True False,
      demo_service ''ufw.service'' ''Uncomplicated firewall'' ''active'' ''exited'' True False,
      demo_service ''postgresql.service'' ''PostgreSQL RDBMS'' ''inactive'' ''dead'' False False,
      demo_service ''redis.service'' ''Advanced key-value store'' ''active'' ''running'' True False,
      demo_service ''fail2ban.service'' ''Fail2Ban Service'' ''active'' ''running'' True False]"

definition service_line :: "string \<Rightarrow> Service option" where
  "service_line l =
     (if trim_space l = '''' then None
      else let fs = Prelude.fields l in
        if length fs < 4 then None
        else if \<not> has_suffix (fs ! 0) ''.service'' then None
        else Some \<lparr>sv_Name = fs ! 0, sv_Description = (if length fs > 4 then join_with '' '' (drop 4 fs) else ''''),
               sv_LoadState = fs ! 1, sv_ActiveState = fs ! 2, sv_SubState = fs ! 3, sv_Enabled = False,
               sv_IsProtected = isProtected (fs ! 0)\<rparr>)"

definition parseServiceList :: "string \<Rightarrow> Service list" where
  "parseServiceList output = List.map_filter service_line (fst (scan_lines output))"

definition show_line :: "Service \<Rightarrow> string \<Rightarrow> Service" where
  "show_line svc l =
     (let parts = split_n2 (CHR ''='') l in
      if length parts \<noteq> 2 then svc
      else let key = parts ! 0; val = parts ! 1 in
        if key = ''Id'' then svc\<lparr>sv_Name := val, sv_IsProtected := isProtected val\<rparr>
        else if key = ''Description'' then svc\<lparr>sv_Description := val\<rparr>
        else if key = ''LoadState'' then svc\<lparr>sv_LoadState := val\<rparr>
        else if key = ''ActiveState'' then svc\<lparr>sv_ActiveState := val\<rparr>
        else if key = ''SubState'' then svc\<lparr>sv_SubState := val\<rparr>
        else if key = ''UnitFileState'' then svc\<lparr>sv_Enabled := (val = ''enabled'' \<or> val = ''static'')\<rparr>
        else svc)"

definition parseServiceShow :: "string \<Rightarrow> Service" where
  "parseServiceShow output =
     foldl show_line \<lparr>sv_Name = '''', sv_Description = '''', sv_LoadState = '''', sv_ActiveState = '''', sv_SubState = '''',
       sv_Enabled = False, sv_IsProtected = False\<rparr> (fst (scan_lines output))"

definition services_List :: "commands \<Rightarrow> (services_error + Service list) action" where
  "services_List X = do {
     res \<leftarrow> os_exec X [''systemctl'', ''list-units'', ''--type=service'', ''--all'', ''--no-pager'', ''--no-legend'', ''--plain''];
     ret (case res of
            (_, Some err) \<Rightarrow> if isNotFound err then Inr demoServices else Inl ListFailed
          | (out, None) \<Rightarrow> Inr (parseServiceList out))
   }"

definition services_Get :: "commands \<Rightarrow> string \<Rightarrow> (services_error + Service) action" where
  "services_Get X name = do {
     res \<leftarrow> os_exec X
       [''systemctl'', ''show'', name, ''--property=Id,Description,LoadState,ActiveState,SubState,UnitFileState'', ''--no-pager''];
     ret (case res of
            (_, Some err) \<Rightarrow>
              if isNotFound err
              then (case find (\<lambda>s. sv_Name s = name) demoServices of None \<Rightarrow> Inl ServiceNotFound | Some s \<Rightarrow> Inr s)
              else Inl GetFailed
          | (out, None) \<Rightarrow> Inr (parseServiceShow out))
   }"

section \<open>Actions\<close>

definition Execute_command :: "string \<Rightarrow> Action \<Rightarrow> services_error + string list" where
  "Execute_command name action =
     (if isProtected name \<and> (action = ''stop'' \<or> action = ''disable'') then Inl CriticalService
      else if action \<notin> set valid_actions then Inl InvalidAction
      else Inr [''systemctl'', action, name])"

definition Execute :: "commands \<Rightarrow> string \<Rightarrow> Action \<Rightarrow> (services_error + unit) action" where
  "Execute X name action =
     (case Execute_command name action of
        Inl e \<Rightarrow> ret (Inl e)
      | Inr cmd \<Rightarrow> do {
          res \<leftarrow> os_exec X cmd;
          ret (case res of
                 (_, None) \<Rightarrow> Inr ()
               | (out, Some err) \<Rightarrow> if isNotFound err then Inr () else Inl (ActionFailed (trim_space out)))
        })"

definition demoLogs :: "string \<Rightarrow> string list" where
  "demoLogs name =
     [''2026-06-22T10:00:00+0000 host systemd[1]: Started '' @ name @ ''.'',
      ''2026-06-22T10:00:01+0000 host '' @ trim_suffix name ''.service'' @ ''[1234]: Service initialized'',
      ''2026-06-22T10:00:02+0000 host '' @ trim_suffix name ''.service'' @ ''[1234]: Listening on port 80'']"

definition services_GetLogs :: "commands \<Rightarrow> string \<Rightarrow> int \<Rightarrow> (services_error + string list) action" where
  "services_GetLogs X name lines = do {
     let lines = (if lines \<le> 0 then 50 else lines);
     res \<leftarrow> os_exec X
       [''journalctl'', ''--unit='' @ name, ''--lines='' @ int_text lines, ''--no-pager'', ''--output=short-iso''];
     ret (case res of
            (_, Some err) \<Rightarrow> if isNotFound err then Inr (demoLogs name) else Inl ServiceLogsFailed
          | (out, None) \<Rightarrow> Inr (fst (scan_lines out)))
   }"

section \<open>Property\<close>

text \<open>A critical service is never stopped or disabled under its unit name: whatever is requested, no command
  line with these actions names one, and only the six known actions reach systemctl. (An alias does: systemctl
  resolves \<open>sshd\<close> to \<open>sshd.service\<close>, but only the latter is on the list.)\<close>

theorem protected_not_stopped:
  "(\<forall>cmd. Execute_command name action = Inr cmd \<longrightarrow>
      cmd = [''systemctl'', action, name] \<and> action \<in> set valid_actions
      \<and> \<not> (action \<in> {''stop'', ''disable''} \<and> name \<in> set protectedServices))
   \<and> Execute_command ''sshd'' ''stop'' = Inr [''systemctl'', ''stop'', ''sshd'']"
  by (auto simp: Execute_command_def isProtected_def protectedServices_def valid_actions_def split: if_splits)

theorem protected_not_stopped_witness:
  "\<exists>cmd. Execute_command ''sshd.service'' ''restart'' = Inr cmd \<and> cmd = [''systemctl'', ''restart'', ''sshd.service'']"
proof -
  have "Execute_command ''sshd.service'' ''restart'' = Inr [''systemctl'', ''restart'', ''sshd.service'']" by code_simp
  with protected_not_stopped [of "''sshd.service''" "''restart''"] show ?thesis by blast
qed

end
