(* ===== verification/Buffer.thy ===== *)
theory Buffer
  imports Collector
begin

text \<open>
  The rolling buffer of the last sixty snapshots (\<open>internal/metrics/buffer.go\<close>) and the service that
  fills it (\<open>internal/metrics/service.go\<close>). \<open>rolling\<close> is what readers of a bounded history rely on; the
  array of the code, with its head and count, is shown to be one.
\<close>

section \<open>A bounded history\<close>

locale rolling =
  fixes new :: 'b and push :: "'b \<Rightarrow> 'a \<Rightarrow> 'b" and hist :: "'b \<Rightarrow> 'a list" and invar :: "'b \<Rightarrow> bool" and cap :: nat
  assumes invar_new: "invar new" and invar_push: "invar b \<Longrightarrow> invar (push b x)"
    and hist_new: "hist new = []" and hist_push: "invar b \<Longrightarrow> hist (push b x) = drop (Suc (length (hist b)) - cap) (hist b @ [x])"
begin

lemma invar_pushes: "invar (foldl push new xs)"
  by (induction xs rule: rev_induct) (simp_all add: invar_new invar_push)

lemma hist_pushes: "hist (foldl push new xs) = drop (length xs - cap) xs"
proof (induction xs rule: rev_induct)
  case (snoc x xs)
  have "drop (Suc (length xs - (length xs - cap)) - cap) (drop (length xs - cap) xs @ [x])
      = drop (Suc (length xs) - cap) (xs @ [x])"
    by (cases "length xs < cap") (simp_all, simp add: Suc_diff_le)
  with snoc show ?case by (simp add: hist_push invar_pushes)
qed (simp add: hist_new)

lemma hist_bounded: "length (hist (foldl push new xs)) = min cap (length xs)"
  by (simp add: hist_pushes)

end

locale rolling_latest = rolling +
  fixes latest :: "'b \<Rightarrow> 'a option"
  assumes latest_hist: "invar b \<Longrightarrow> latest b = (if hist b = [] then None else Some (last (hist b)))"
begin

lemma latest_pushes: "0 < cap \<Longrightarrow> latest (foldl push new xs) = (if xs = [] then None else Some (last xs))"
proof (cases "xs = []")
  case False
  moreover assume "0 < cap"
  ultimately have "length xs - cap < length xs" by simp
  with False show ?thesis unfolding latest_hist [OF invar_pushes, of xs] hist_pushes by (simp add: last_drop)
qed (simp add: latest_hist invar_new hist_new)

end

section \<open>The code\<close>

definition BufferSize :: nat where "BufferSize = 60"

record buffer =
  data :: "Snapshot option list"
  head :: nat
  size_count :: nat

definition NewBuffer :: buffer where
  "NewBuffer = \<lparr>data = replicate BufferSize None, head = 0, size_count = 0\<rparr>"

definition Push :: "buffer \<Rightarrow> Snapshot \<Rightarrow> buffer" where
  "Push b s =
     (let b = b\<lparr>data := (data b)[head b := Some s]\<rparr>; b = b\<lparr>head := (head b + 1) mod BufferSize\<rparr>
      in if size_count b < BufferSize then b\<lparr>size_count := size_count b + 1\<rparr> else b)"

definition Latest :: "buffer \<Rightarrow> Snapshot option" where
  "Latest b = (if size_count b = 0 then None else data b ! ((head b + BufferSize - 1) mod BufferSize))"

definition History :: "buffer \<Rightarrow> Snapshot option list" where
  "History b =
     (if size_count b = 0 then []
      else let start = (head b + BufferSize - size_count b) mod BufferSize
           in map (\<lambda>i. data b ! ((start + i) mod BufferSize)) [0..<size_count b])"

definition Since :: "buffer \<Rightarrow> time \<Rightarrow> Snapshot list" where
  "Since b t = List.map_filter (\<lambda>s. case s of None \<Rightarrow> None | Some s \<Rightarrow> if Timestamp s > t then Some s else None) (History b)"

text \<open>One tick of the service: \<open>Service.collect\<close> (\<open>Collect\<close> returns no error).\<close>

definition metrics_collect :: "kernel \<Rightarrow> time \<Rightarrow> collector \<times> buffer \<Rightarrow> collector \<times> buffer" where
  "metrics_collect K now st =
     (case st of (c, b) \<Rightarrow> case Collect K now c of (snap, c) \<Rightarrow> (c, Push b snap))"

section \<open>The array is a bounded history\<close>

definition buffer_ok :: "buffer \<Rightarrow> bool" where
  "buffer_ok b = (length (data b) = BufferSize \<and> head b < BufferSize \<and> size_count b \<le> BufferSize
     \<and> None \<notin> set (History b))"

lemma wrap60: "x < 120 \<Longrightarrow> x mod 60 = (if x < 60 then x else x - 60)" for x :: nat
  by (simp add: mod_if)

text \<open>The place of the i-th oldest of n snapshots behind the head.\<close>

definition slot :: "nat \<Rightarrow> nat \<Rightarrow> nat \<Rightarrow> nat" where
  "slot h n i = ((h + 60 - n) mod 60 + i) mod 60"

lemma slot_eq: "h < 60 \<Longrightarrow> n \<le> 60 \<Longrightarrow> i < 60 \<Longrightarrow> i \<le> n \<Longrightarrow> slot h n i = (if h + i < n then h + i + 60 - n else h + i - n)"
  unfolding slot_def by (cases "h < n") (auto simp: wrap60)

lemma History_slots: "History b = map (\<lambda>i. data b ! slot (head b) (size_count b) i) [0..<size_count b]"
  by (simp add: History_def slot_def BufferSize_def)

lemma Push_fields:
  "data (Push b s) = (data b)[head b := Some s]" "head (Push b s) = Suc (head b) mod 60"
  "size_count (Push b s) = (if size_count b < 60 then Suc (size_count b) else size_count b)"
  by (simp_all add: Push_def BufferSize_def Let_def)

lemma slot_Suc: "h < 60 \<Longrightarrow> n < 60 \<Longrightarrow> i \<le> n \<Longrightarrow> slot (Suc h mod 60) (Suc n) i = slot h n i"
  by (cases "h = 59") (auto simp: slot_eq)

lemma slot_full: "h < 60 \<Longrightarrow> i < 59 \<Longrightarrow> slot (Suc h mod 60) 60 i = slot h 60 (Suc i)"
  by (cases "h = 59") (auto simp: slot_eq)

lemma History_Push:
  assumes "length (data b) = BufferSize" "head b < BufferSize" "size_count b \<le> BufferSize"
  shows "History (Push b s) = drop (Suc (length (History b)) - BufferSize) (History b @ [Some s])"
proof (cases "size_count b = 60")
  case False
  define h n where hn: "h = head b" "n = size_count b"
  have n: "h < 60" "n < 60" "length (data b) = 60" using assms False by (simp_all add: BufferSize_def hn)
  have "map (\<lambda>i. (data b)[h := Some s] ! slot (Suc h mod 60) (Suc n) i) [0..<n] = History b"
    unfolding History_slots hn [symmetric] using n by (intro map_cong) (auto simp: slot_Suc, auto simp: slot_eq)
  moreover have "slot (Suc h mod 60) (Suc n) n = h" using n by (simp add: slot_Suc) (simp add: slot_eq)
  ultimately have "History (Push b s) = History b @ [Some s]"
    using n hn by (simp add: History_slots [of "Push b s"] Push_fields)
  then show ?thesis using n hn by (simp add: History_slots BufferSize_def)
next
  case True
  define h where h: "h = head b"
  have n: "h < 60" "length (data b) = 60" using assms by (simp_all add: BufferSize_def h)
  have upto: "[0..<60] = [0..<59] @ [59 :: nat]" using upt_Suc_append [of 0 59] by simp
  have "map (\<lambda>i. (data b)[h := Some s] ! slot (Suc h mod 60) 60 i) [0..<59] = tl (History b)"
  proof -
    have "tl [0..<60] = map Suc [0..<59]" by (simp add: map_Suc_upt tl_upt)
    then show ?thesis unfolding History_slots True h [symmetric] map_tl [symmetric] using n
      by (auto simp: slot_full, auto simp: slot_eq)
  qed
  moreover have "slot (Suc h mod 60) 60 59 = h" using n by (cases "h = 59") (auto simp: slot_eq)
  ultimately have "History (Push b s) = tl (History b) @ [Some s]"
    using n h True by (simp add: History_slots [of "Push b s"] Push_fields upto)
  moreover have "length (History b) = 60" using True by (simp add: History_slots)
  ultimately show ?thesis by (cases "History b") (simp_all add: BufferSize_def)
qed

text \<open>The snapshots it holds: nothing but snapshots is ever pushed.\<close>

definition snapshots :: "buffer \<Rightarrow> Snapshot list" where
  "snapshots b = map the (History b)"

interpretation bf: rolling_latest NewBuffer Push snapshots buffer_ok BufferSize Latest
proof unfold_locales
  show "buffer_ok NewBuffer" "snapshots NewBuffer = []"
    by (simp_all add: buffer_ok_def snapshots_def NewBuffer_def History_def BufferSize_def)
next
  fix b x assume ok: "buffer_ok b"
  then have push: "History (Push b x) = drop (Suc (length (History b)) - BufferSize) (History b @ [Some x])"
    by (intro History_Push) (auto simp: buffer_ok_def)
  have "None \<notin> set (History (Push b x))"
    using ok unfolding push by (auto simp: buffer_ok_def dest!: in_set_dropD)
  then show "buffer_ok (Push b x)" using ok by (auto simp: buffer_ok_def Push_fields BufferSize_def)
  show "snapshots (Push b x) = drop (Suc (length (snapshots b)) - BufferSize) (snapshots b @ [x])"
    by (simp add: snapshots_def push drop_map [symmetric] BufferSize_def)
next
  fix b assume ok: "buffer_ok b"
  show "Latest b = (if snapshots b = [] then None else Some (last (snapshots b)))"
  proof (cases "size_count b = 0")
    case False
    let ?i = "slot (head b) (size_count b) (size_count b - 1)"
    have "?i = (head b + 59) mod 60" using ok False by (auto simp: buffer_ok_def BufferSize_def slot_eq wrap60)
    moreover have last: "last (History b) = data b ! ?i" using False by (simp add: History_slots last_map)
    moreover have "History b \<noteq> []" using False by (simp add: History_slots)
    moreover from this have "last (History b) \<in> set (History b)" by simp
    moreover have "None \<notin> set (History b)" using ok by (simp add: buffer_ok_def)
    ultimately have "Some (the (last (History b))) = last (History b)" "History b \<noteq> []"
        "last (History b) = data b ! ((head b + 59) mod 60)"
      by (metis option.collapse, simp_all)
    then show ?thesis using False by (simp add: Latest_def BufferSize_def snapshots_def last_map add.commute)
  qed (simp add: Latest_def snapshots_def History_def)
qed

lemma map_Some_the: "None \<notin> set xs \<Longrightarrow> map Some (map the xs) = xs"
  by (induction xs) auto

lemma History_pushes: "History (foldl Push NewBuffer xs) = map Some (snapshots (foldl Push NewBuffer xs))"
  using bf.invar_pushes [of xs] by (simp add: buffer_ok_def snapshots_def map_Some_the del: map_map)

section \<open>Property\<close>

text \<open>C31: The array implements a bounded history: whatever snapshots are pushed, the history is the last sixty
  of them in order, the latest is the last one pushed, and a query by time keeps exactly those of the
  last sixty that are younger.\<close>

theorem buffer_keeps_last_60:
  "History (foldl Push NewBuffer xs) = map Some (drop (length xs - 60) xs)
   \<and> Latest (foldl Push NewBuffer xs) = (if xs = [] then None else Some (last xs))
   \<and> Since (foldl Push NewBuffer xs) t = filter (\<lambda>s. t < Timestamp s) (drop (length xs - 60) xs)"
proof -
  have "List.map_filter (\<lambda>s. case s of None \<Rightarrow> None | Some s \<Rightarrow> if Timestamp s > t then Some s else None) (map Some ys)
      = filter (\<lambda>s. t < Timestamp s) ys" for ys
    by (induction ys) (auto simp: List.map_filter_def)
  then show ?thesis
    using bf.hist_pushes [of xs] bf.latest_pushes [of xs] by (simp add: Since_def History_pushes BufferSize_def)
qed

end
