(* ===== verification/Updater.thy ===== *)
theory Updater
  imports Decode
begin

text \<open>
  The update checker (\<open>internal/updater/updater.go\<close>): decoding of GitHub's answer, the status it keeps, and the
  comparison of versions. The HTTP exchange is a parameter: the status code and body, or \<open>None\<close> for an error.
\<close>

section \<open>Versions\<close>

text \<open>The digits of a part, the other characters skipped; the product and sum wrap.\<close>

definition partToInt :: "string list \<Rightarrow> nat \<Rightarrow> int" where
  "partToInt parts i =
     (if i \<ge> length parts then 0
      else foldl (\<lambda>n c. case undigit c of None \<Rightarrow> n | Some d \<Rightarrow> sw64 (n * 10 + int d)) 0 (parts ! i))"

text \<open>The loop from index \<open>i\<close> on, for \<open>k\<close> more indices.\<close>

fun newer_from :: "string list \<Rightarrow> string list \<Rightarrow> nat \<Rightarrow> nat \<Rightarrow> bool" where
  "newer_from l c i 0 = False"
| "newer_from l c i (Suc k) =
     (if partToInt l i > partToInt c i then True else if partToInt l i < partToInt c i then False
      else newer_from l c (i + 1) k)"

definition isNewerVersion :: "string \<Rightarrow> string \<Rightarrow> bool" where
  "isNewerVersion latest current =
     (let l = trim_prefix latest ''v''; c = trim_prefix current ''v'' in
      if c = ''dev'' \<or> c = '''' \<or> c = ''0.0.0'' then False
      else let lParts = split_on (CHR ''.'') l; cParts = split_on (CHR ''.'') c;
               maxLen = length lParts; maxLen = (if length cParts > maxLen then length cParts else maxLen)
           in newer_from lParts cParts 0 maxLen)"

section \<open>The checker\<close>

record ReleaseInfo =
  ri_Version :: string
  ri_URL :: string
  ri_PublishedAt :: time
  ri_Body :: string
  ri_IsPrerelease :: bool

record UpdateStatus =
  CurrentVersion :: string
  LatestVersion :: string
  HasUpdate :: bool
  LastChecked :: time
  Release :: "ReleaseInfo option"

definition NewChecker :: "string \<Rightarrow> UpdateStatus" where
  "NewChecker version = \<lparr>CurrentVersion = version, LatestVersion = '''', HasUpdate = False, LastChecked = zero_time,
     Release = None\<rparr>"

text \<open>\<open>time.Time\<close> reads a quoted RFC 3339 text.\<close>

fun time_value :: "(time \<Rightarrow> 'a \<Rightarrow> 'a) \<Rightarrow> json \<Rightarrow> 'a \<Rightarrow> 'a option" where
  "time_value put (JStr s) r = map_option (\<lambda>t. put (fst t) r) (parse_time True s)"
| "time_value put JNull r = Some r"
| "time_value put _ r = None"

definition release_fields :: "ReleaseInfo field list" where
  "release_fields =
     [(''tag_name'', string_value (\<lambda>s r. r\<lparr>ri_Version := s\<rparr>)), (''html_url'', string_value (\<lambda>s r. r\<lparr>ri_URL := s\<rparr>)),
      (''published_at'', time_value (\<lambda>t r. r\<lparr>ri_PublishedAt := t\<rparr>)), (''body'', string_value (\<lambda>s r. r\<lparr>ri_Body := s\<rparr>)),
      (''prerelease'', bool_value (\<lambda>b r. r\<lparr>ri_IsPrerelease := b\<rparr>))]"

definition fetchLatestRelease :: "(nat \<times> string) option \<Rightarrow> ReleaseInfo option" where
  "fetchLatestRelease resp =
     (case resp of
        None \<Rightarrow> None
      | Some (code, body) \<Rightarrow>
          if code \<noteq> 200 then None
          else (case first_json body of
                  None \<Rightarrow> None
                | Some v \<Rightarrow> store_struct release_fields
                    \<lparr>ri_Version = '''', ri_URL = '''', ri_PublishedAt = zero_time, ri_Body = '''', ri_IsPrerelease = False\<rparr> v))"

definition check :: "string \<Rightarrow> time \<Rightarrow> (nat \<times> string) option \<Rightarrow> UpdateStatus \<Rightarrow> UpdateStatus" where
  "check version now resp st =
     (case fetchLatestRelease resp of
        None \<Rightarrow> st
      | Some r \<Rightarrow> st\<lparr>LatestVersion := ri_Version r, LastChecked := now, Release := Some r,
                    HasUpdate := isNewerVersion (ri_Version r) version\<rparr>)"

section \<open>The comparison is a strict order\<close>

definition version_parts :: "string \<Rightarrow> string list" where
  "version_parts v = split_on (CHR ''.'') (trim_prefix v ''v'')"

definition comparable :: "string \<Rightarrow> bool" where
  "comparable v = (trim_prefix v ''v'' \<notin> {''dev'', '''', ''0.0.0''})"

lemma newer_from_iff: "newer_from l c i k \<longleftrightarrow>
    (\<exists>n. i \<le> n \<and> n < i + k \<and> partToInt l n > partToInt c n \<and> (\<forall>j. i \<le> j \<and> j < n \<longrightarrow> partToInt l j = partToInt c j))"
proof (induction l c i k rule: newer_from.induct)
  case (2 l c i k)
  consider "partToInt l i > partToInt c i" | "partToInt l i < partToInt c i" | "partToInt l i = partToInt c i" by linarith
  then show ?case
  proof cases
    case 1
    then show ?thesis by (auto intro!: exI [of _ i])
  next
    case 2
    then show ?thesis by (auto, metis le_neq_implies_less less_irrefl not_less_iff_gr_or_eq order_refl)
  next
    case 3
    have "(i \<le> n \<and> n < i + Suc k \<and> partToInt l n > partToInt c n \<and> (\<forall>j. i \<le> j \<and> j < n \<longrightarrow> partToInt l j = partToInt c j))
        = (Suc i \<le> n \<and> n < Suc i + k \<and> partToInt l n > partToInt c n \<and> (\<forall>j. Suc i \<le> j \<and> j < n \<longrightarrow> partToInt l j = partToInt c j))" for n
    proof -
      have "(\<forall>j. i \<le> j \<and> j < n \<longrightarrow> partToInt l j = partToInt c j) = (\<forall>j. Suc i \<le> j \<and> j < n \<longrightarrow> partToInt l j = partToInt c j)"
        using 3 by (metis Suc_leD le_antisym not_less_eq_eq)
      then show ?thesis using 3 by (cases "n = i") auto
    qed
    then show ?thesis using 2 3 by simp
  qed
qed simp

text \<open>Both versions as infinite sequences of numbers, zero behind their last part.\<close>

lemma isNewerVersion_iff: "isNewerVersion a b \<longleftrightarrow> comparable b \<and>
    (\<exists>n. partToInt (version_parts a) n > partToInt (version_parts b) n
      \<and> (\<forall>j<n. partToInt (version_parts a) j = partToInt (version_parts b) j))"
proof -
  have zero: "partToInt p n = 0" if "length p \<le> n" for p n using that by (simp add: partToInt_def)
  let ?m = "if length (version_parts b) > length (version_parts a) then length (version_parts b) else length (version_parts a)"
  have "n < ?m" if "partToInt (version_parts a) n > partToInt (version_parts b) n" for n
    using that zero [of "version_parts a" n] zero [of "version_parts b" n] by (cases "n < ?m") (auto split: if_splits)
  then have "(\<exists>n<?m. partToInt (version_parts a) n > partToInt (version_parts b) n
        \<and> (\<forall>j<n. partToInt (version_parts a) j = partToInt (version_parts b) j))
      = (\<exists>n. partToInt (version_parts a) n > partToInt (version_parts b) n
        \<and> (\<forall>j<n. partToInt (version_parts a) j = partToInt (version_parts b) j))" by blast
  moreover have "isNewerVersion a b = (comparable b \<and> newer_from (version_parts a) (version_parts b) 0 ?m)"
    by (simp add: isNewerVersion_def Let_def comparable_def version_parts_def)
  ultimately show ?thesis by (simp add: newer_from_iff)
qed

text \<open>What the numbers of a plain version are: \<open>vX.Y.Z\<close> with numbers that fit an \<open>int\<close>.\<close>

definition version_text :: "nat list \<Rightarrow> string" where
  "version_text ns = CHR ''v'' # join_with ''.'' (map dec_text ns)"

lemma part_fold:
  assumes "list_all is_digit s" "foldl (\<lambda>n c. n * 10 + (case undigit c of None \<Rightarrow> 0 | Some d \<Rightarrow> d)) n s < 2 ^ 63"
  shows "foldl (\<lambda>n c. case undigit c of None \<Rightarrow> n | Some d \<Rightarrow> sw64 (n * 10 + int d)) (int n) s
    = int (foldl (\<lambda>n c. n * 10 + (case undigit c of None \<Rightarrow> 0 | Some d \<Rightarrow> d)) n s)"
  using assms
proof (induction s arbitrary: n)
  case (Cons c s)
  then obtain d where d: "undigit c = Some d" by (auto simp: is_digit_def)
  from digits_grow [of "n * 10 + d" s] Cons.prems(2) d have "n * 10 + d < 2 ^ 63" by simp
  then have "int (n * 10 + d) < 2 ^ 63" by (metis of_nat_less_iff of_nat_numeral of_nat_power)
  then have "sw64 (int n * 10 + int d) = int (n * 10 + d)" by (subst sw64_id) simp_all
  with Cons.IH [of "n * 10 + d"] Cons.prems d show ?case by simp
qed simp

lemma dec_text_no_dot: "CHR ''.'' \<notin> set (dec_text n)"
proof
  assume "CHR ''.'' \<in> set (dec_text n)"
  with dec_text_digits [of n] have "is_digit (CHR ''.'')" by (auto simp: list_all_iff)
  then show False by (simp add: is_digit_def undigit_def)
qed


lemma split_on_join_with:
  "xs \<noteq> [] \<Longrightarrow> \<forall>x \<in> set xs. c \<notin> set x \<Longrightarrow> split_on c (join_with [c] xs) = xs"
proof (induction xs)
  case (Cons x xs)
  then show ?case by (cases xs) (simp_all add: split_on_last split_on_append)
qed simp

lemma version_text_parts:
  assumes "ns \<noteq> []" "list_all (\<lambda>n. n < 2 ^ 63) ns"
  shows "partToInt (version_parts (version_text ns)) i = (if i < length ns then int (ns ! i) else 0)"
proof -
  have "trim_prefix (version_text ns) ''v'' = join_with ''.'' (map dec_text ns)"
    by (simp add: trim_prefix_def has_prefix_def version_text_def)
  then have p: "version_parts (version_text ns) = map dec_text ns"
    using assms(1) by (simp add: version_parts_def split_on_join_with dec_text_no_dot)
  show ?thesis
  proof (cases "i < length ns")
    case True
    then have "ns ! i < 2 ^ 63" using assms(2) by (simp add: list_all_length)
    then have "digits_value (dec_text (ns ! i)) < 2 ^ 63" by simp
    from part_fold [OF dec_text_digits this [unfolded digits_value_def]] True show ?thesis
      unfolding digits_value_def [symmetric] by (simp add: partToInt_def p)
  qed (simp add: partToInt_def p)
qed

text \<open>C35: The comparison of versions is the numeric one. A version is newer than a current one that is neither
  empty, \<open>dev\<close> nor \<open>0.0.0\<close> exactly when at the first part where their numbers differ its own is the
  greater; the numbers of a version \<open>vX.Y.Z\<close> are the ones written there (below \<open>2 ^ 63\<close>), padded with zeros. So it is a
  strict order on all strings: never is a version newer than itself, never are two newer than each other, and
  newer than newer is newer; of two comparable versions with different numbers one is newer.\<close>

theorem newer_version_strict_order:
  "(isNewerVersion a b \<longleftrightarrow> comparable b \<and> (\<exists>k. partToInt (version_parts a) k > partToInt (version_parts b) k
        \<and> (\<forall>j<k. partToInt (version_parts a) j = partToInt (version_parts b) j)))
   \<and> (ns \<noteq> [] \<and> list_all (\<lambda>n. n < 2 ^ 63) ns \<longrightarrow>
        partToInt (version_parts (version_text ns)) n = (if n < length ns then int (ns ! n) else 0))
   \<and> \<not> isNewerVersion a a \<and> (isNewerVersion a b \<longrightarrow> \<not> isNewerVersion b a)
   \<and> (isNewerVersion a b \<and> isNewerVersion b c \<longrightarrow> isNewerVersion a c)
   \<and> (comparable a \<and> comparable b \<and> partToInt (version_parts a) n \<noteq> partToInt (version_parts b) n
        \<longrightarrow> isNewerVersion a b \<or> isNewerVersion b a)"
proof (intro conjI impI)
  show "isNewerVersion a b = (comparable b \<and> (\<exists>k. partToInt (version_parts a) k > partToInt (version_parts b) k
      \<and> (\<forall>j<k. partToInt (version_parts a) j = partToInt (version_parts b) j)))" by (rule isNewerVersion_iff)
  show "partToInt (version_parts (version_text ns)) n = (if n < length ns then int (ns ! n) else 0)"
    if "ns \<noteq> [] \<and> list_all (\<lambda>n. n < 2 ^ 63) ns" using that by (intro version_text_parts) simp_all
  show "\<not> isNewerVersion a a" by (auto simp: isNewerVersion_iff)
  show "\<not> isNewerVersion b a" if "isNewerVersion a b"
    using that unfolding isNewerVersion_iff by (metis less_irrefl linorder_neqE_nat order_less_asym)
  show "isNewerVersion a c" if "isNewerVersion a b \<and> isNewerVersion b c"
  proof -
    from that obtain i j where
      i: "partToInt (version_parts a) i > partToInt (version_parts b) i"
         "\<forall>k<i. partToInt (version_parts a) k = partToInt (version_parts b) k"
      and j: "partToInt (version_parts b) j > partToInt (version_parts c) j"
         "\<forall>k<j. partToInt (version_parts b) k = partToInt (version_parts c) k" and c: "comparable c"
      unfolding isNewerVersion_iff by blast
    have "partToInt (version_parts a) (min i j) > partToInt (version_parts c) (min i j)"
      using i j by (cases i j rule: linorder_cases) (auto simp: min_def)
    moreover have "\<forall>k<min i j. partToInt (version_parts a) k = partToInt (version_parts c) k" using i(2) j(2) by simp
    ultimately show ?thesis using c unfolding isNewerVersion_iff by blast
  qed
  assume n: "comparable a \<and> comparable b \<and> partToInt (version_parts a) n \<noteq> partToInt (version_parts b) n"
  define k where "k = (LEAST k. partToInt (version_parts a) k \<noteq> partToInt (version_parts b) k)"
  have "partToInt (version_parts a) k \<noteq> partToInt (version_parts b) k" unfolding k_def using n by (intro LeastI) blast
  moreover have "\<forall>j<k. partToInt (version_parts a) j = partToInt (version_parts b) j"
    unfolding k_def using not_less_Least by blast
  ultimately show "isNewerVersion a b \<or> isNewerVersion b a"
    using n unfolding isNewerVersion_iff by (metis linorder_neqE)
qed

text \<open>A transitive step, and a pre-release that counts as newer than its release.\<close>

theorem newer_version_strict_order_witness:
  "isNewerVersion ''v0.10.0'' ''v0.9.5'' \<and> \<not> isNewerVersion ''v0.9.5'' ''v0.10.0'' \<and> isNewerVersion ''v0.10.0'' ''v0.9''
   \<and> partToInt (version_parts (version_text [0, 10, 0])) 1 = 10"
proof -
  have "isNewerVersion ''v0.10.0'' ''v0.9.5''" "isNewerVersion ''v0.9.5'' ''v0.9''" by code_simp+
  with newer_version_strict_order [of "''v0.10.0''" "''v0.9.5''" "[0, 10, 0]" 1 "''v0.9''"] show ?thesis by simp
qed

lemma prerelease_newer_than_release: "isNewerVersion ''v1.0.0-rc1'' ''v1.0.0''"
  by code_simp

end
