(* ===== verification/Logs.thy ===== *)
theory Logs
  imports Decode Demo
begin

text \<open>
  The log readers (\<open>internal/logs\<close>): entries of the systemd journal in journalctl's JSON format, lines of
  syslog files, filters, exports and the live tail.

  \<open>log_env\<close> is what the readers see of the machine: commands, the contents of files (\<open>None\<close> when a file
  cannot be opened), which paths \<open>os.Stat\<close> finds, and the time. Times are UTC.
\<close>

section \<open>Data\<close>

record Entry =
  le_Timestamp :: time
  le_Severity :: string
  le_Unit :: string
  le_Message :: string
  le_Source :: string
  le_PID :: string

record LogSource =
  src_ID :: string
  src_Label :: string
  src_Path :: string

record LogParams =
  lp_Source :: string
  lp_Unit :: string
  lp_Severity :: string
  lp_Search :: string
  lp_Since :: time
  lp_SinceOffset :: int
  lp_Until :: time
  lp_Lines :: int

record log_env =
  run_cmd :: commands
  log_file :: "string \<Rightarrow> string option"
  stat_ok :: "string \<Rightarrow> bool"
  log_now :: time

datatype logs_error = JournalctlFailed | LogScanError | UnknownSource | LogOpenFailed

definition logs_isNotFound :: "string \<Rightarrow> bool" where
  "logs_isNotFound err = (contains err ''not found'' \<or> contains err ''executable file not found'')"

definition fileSources :: "LogSource list" where
  "fileSources =
     [\<lparr>src_ID = ''syslog'', src_Label = ''syslog'', src_Path = ''/var/log/syslog''\<rparr>,
      \<lparr>src_ID = ''auth'', src_Label = ''auth.log'', src_Path = ''/var/log/auth.log''\<rparr>,
      \<lparr>src_ID = ''kern'', src_Label = ''kern.log'', src_Path = ''/var/log/kern.log''\<rparr>,
      \<lparr>src_ID = ''messages'', src_Label = ''messages'', src_Path = ''/var/log/messages''\<rparr>]"

definition AvailableSources :: "log_env \<Rightarrow> LogSource list" where
  "AvailableSources G =
     \<lparr>src_ID = ''journald'', src_Label = ''systemd Journal'', src_Path = ''''\<rparr> #
     filter (\<lambda>s. stat_ok G (src_Path s)) fileSources"

section \<open>The journal\<close>

definition severityToPriority :: "string \<Rightarrow> string" where
  "severityToPriority s =
     (if s = ''error'' then ''err'' else if s = ''warning'' then ''warning'' else if s = ''info'' then ''info''
      else if s = ''debug'' then ''debug'' else '''')"

definition priorityToSeverity :: "string \<Rightarrow> string" where
  "priorityToSeverity p =
     (if p \<in> {''0'', ''1'', ''2'', ''3''} then ''error'' else if p = ''4'' then ''warning''
      else if p \<in> {''5'', ''6''} then ''info'' else if p = ''7'' then ''debug'' else ''info'')"

record journaldEntry =
  RealtimeTimestamp :: string
  Priority :: string
  SyslogIdentifier :: string
  SystemdUnit :: string
  Message :: string
  je_PID :: string

definition journald_fields :: "journaldEntry field list" where
  "journald_fields =
     [(''__REALTIME_TIMESTAMP'', string_value (\<lambda>s r. r\<lparr>RealtimeTimestamp := s\<rparr>)),
      (''PRIORITY'', string_value (\<lambda>s r. r\<lparr>Priority := s\<rparr>)),
      (''SYSLOG_IDENTIFIER'', string_value (\<lambda>s r. r\<lparr>SyslogIdentifier := s\<rparr>)),
      (''_SYSTEMD_UNIT'', string_value (\<lambda>s r. r\<lparr>SystemdUnit := s\<rparr>)),
      (''MESSAGE'', string_value (\<lambda>s r. r\<lparr>Message := s\<rparr>)),
      (''_PID'', string_value (\<lambda>s r. r\<lparr>je_PID := s\<rparr>))]"

definition zero_journald :: journaldEntry where
  "zero_journald = \<lparr>RealtimeTimestamp = '''', Priority = '''', SyslogIdentifier = '''', SystemdUnit = '''',
     Message = '''', je_PID = ''''\<rparr>"

text \<open>Go's integers are microseconds since 1970; the model's instants count from the year 1.\<close>

definition unix_epoch :: time where "unix_epoch = 62135596800 * second"

definition parseJournaldTimestamp :: "time \<Rightarrow> string \<Rightarrow> time" where
  "parseJournaldTimestamp now s =
     (if s = '''' then now
      else (case scan_int s of None \<Rightarrow> now | Some (micros, _) \<Rightarrow> unix_epoch + micros * 1000))"

definition journald_line :: "time \<Rightarrow> string \<Rightarrow> Entry option" where
  "journald_line now l =
     (let l = trim_space l in
      if l = '''' then None
      else (case unmarshal journald_fields zero_journald l of
              None \<Rightarrow> None
            | Some raw \<Rightarrow>
                let ts = parseJournaldTimestamp now (RealtimeTimestamp raw);
                    unit = (if SystemdUnit raw = '''' then SyslogIdentifier raw else SystemdUnit raw)
                in Some \<lparr>le_Timestamp = ts, le_Severity = priorityToSeverity (Priority raw), le_Unit = unit,
                     le_Message = Message raw, le_Source = ''journald'', le_PID = je_PID raw\<rparr>))"

definition parseJournaldJSON :: "time \<Rightarrow> string \<Rightarrow> Entry list \<times> bool" where
  "parseJournaldJSON now output =
     (case scan_lines output of (ls, err) \<Rightarrow> (List.map_filter (journald_line now) ls, err))"

definition filterBySearch :: "string \<Rightarrow> Entry list \<Rightarrow> Entry list" where
  "filterBySearch search es =
     filter (\<lambda>e. contains (to_lower (le_Message e)) (to_lower search) \<or> contains (to_lower (le_Unit e)) (to_lower search)) es"

text \<open>\<open>Since.Format\<close> prints the wall clock of the zone the time was given in, \<open>lp_SinceOffset\<close> ahead of UTC.\<close>

definition journald_args :: "LogParams \<Rightarrow> string list" where
  "journald_args p =
     [''--output=json'', ''--no-pager'', ''--lines='' @ int_text (lp_Lines p)]
     @ (if lp_Unit p \<noteq> '''' then [''--unit='' @ lp_Unit p] else [])
     @ (if lp_Since p \<noteq> zero_time then [''--since='' @ current_timestamp (lp_Since p + lp_SinceOffset p)] else [])
     @ (if lp_Until p \<noteq> zero_time then [''--until='' @ current_timestamp (lp_Until p)] else [])
     @ (if lp_Severity p \<noteq> '''' \<and> severityToPriority (lp_Severity p) \<noteq> ''''
        then [''--priority='' @ severityToPriority (lp_Severity p)] else [])"

definition readJournald :: "log_env \<Rightarrow> LogParams \<Rightarrow> (logs_error + Entry list) action" where
  "readJournald G p = do {
     res \<leftarrow> os_exec (run_cmd G) (''journalctl'' # journald_args p);
     ret (case res of
            (_, Some err) \<Rightarrow> if logs_isNotFound err then Inr [] else Inl JournalctlFailed
          | (out, None) \<Rightarrow>
              (case parseJournaldJSON (log_now G) out of (es, err) \<Rightarrow>
                 if err then Inl LogScanError
                 else Inr (if lp_Search p \<noteq> '''' then filterBySearch (lp_Search p) es else es)))
   }"

section \<open>Syslog files\<close>

text \<open>\<open>time.Parse\<close> on \<open>Jan  2 15:04:05\<close> (blanks match any number of blanks, the day has one or two digits, a
  fraction of the seconds is accepted) and on \<open>Jan 02 15:04:05\<close> (two digits): month, day and nanoseconds of the day.\<close>

definition month_names :: "string list" where
  "month_names = [''Jan'', ''Feb'', ''Mar'', ''Apr'', ''May'', ''Jun'', ''Jul'', ''Aug'', ''Sep'', ''Oct'', ''Nov'', ''Dec'']"

definition skip_blank :: "string \<Rightarrow> string option" where
  "skip_blank s = (if s \<noteq> '''' \<and> hd s \<noteq> CHR '' '' then None else Some (dropWhile (\<lambda>c. c = CHR '' '') s))"

definition take_num :: "bool \<Rightarrow> string \<Rightarrow> (nat \<times> string) option" where
  "take_num two s =
     (case map undigit (take 2 s) of
        [Some a, Some b] \<Rightarrow> Some (10 * a + b, drop 2 s)
      | Some a # _ \<Rightarrow> if two then None else Some (a, drop 1 s)
      | _ \<Rightarrow> None)"

definition take_frac :: "string \<Rightarrow> nat \<times> string" where
  "take_frac s =
     (if length s \<ge> 2 \<and> s ! 0 \<in> {CHR ''.'', CHR '',''} \<and> is_digit (s ! 1)
      then (let ds = take 9 (takeWhile is_digit (tl s)) in
            (digits_value ds * 10 ^ (9 - length ds), dropWhile is_digit (tl s)))
      else (0, s))"

definition parse_stamp :: "bool \<Rightarrow> string \<Rightarrow> (nat \<times> nat \<times> nat) option" where
  "parse_stamp two s =
     do { (m, _) \<leftarrow> find (\<lambda>x. equal_fold (take 3 s) (snd x)) (zip [1..<13] month_names);
          s \<leftarrow> skip_blank (drop 3 s);
          (d, s) \<leftarrow> take_num two s;
          s \<leftarrow> skip_blank s;
          (h, s) \<leftarrow> take_num False s;
          s \<leftarrow> (if has_prefix s '':'' then Some (tl s) else None);
          (mi, s) \<leftarrow> take_num True s;
          s \<leftarrow> (if has_prefix s '':'' then Some (tl s) else None);
          (se, s) \<leftarrow> take_num True s;
          (if h < 24 \<and> mi < 60 \<and> se < 60 \<and> snd (take_frac s) = '''' \<and> 1 \<le> d \<and> d \<le> days_in 0 m
           then Some (m, d, (h * 3600 + mi * 60 + se) * 1000000000 + fst (take_frac s)) else None) }"

text \<open>An instant of the year \<open>y\<close>; the 29th of February of a common year is the 1st of March.\<close>

definition stamp_in :: "nat \<Rightarrow> nat \<times> nat \<times> nat \<Rightarrow> time" where
  "stamp_in y st = (case st of (m, d, ns) \<Rightarrow> int (day_of_civil (Civil y m d)) * (24 * hour) + int ns)"

definition year_of :: "time \<Rightarrow> nat" where "year_of t = cyear (civil_of_day (day_of t))"

text \<open>\<open>t.AddDate(n, 0, 0)\<close>.\<close>

definition add_years :: "nat \<Rightarrow> time \<Rightarrow> time" where
  "add_years n t =
     (case civil_of_day (day_of t) of Civil y m d \<Rightarrow> stamp_in (y + n) (m, d, nat (t mod (24 * hour))))"

definition syslog_time :: "time \<Rightarrow> string \<Rightarrow> time" where
  "syslog_time now tsStr =
     (case parse_stamp False tsStr of
        Some st \<Rightarrow> stamp_in (year_of now) st
      | None \<Rightarrow>
          (case parse_stamp True tsStr of
             Some st \<Rightarrow> stamp_in (year_of now) st
           | None \<Rightarrow> add_years (year_of now) now))"

definition syslog_severity :: "string \<Rightarrow> string" where
  "syslog_severity msg =
     (let m = to_lower msg in
      if contains m ''error'' \<or> contains m ''failed'' \<or> contains m ''fatal'' then ''error''
      else if contains m ''warn'' then ''warning''
      else if contains m ''debug'' then ''debug'' else ''info'')"

definition syslog_unit :: "string \<Rightarrow> string \<times> string" where
  "syslog_unit rest =
     (let parts = Prelude.fields rest in
      if length parts \<ge> 2
      then (let unitPID = parts ! 1 in
            case str_index unitPID ''['' of
              Some (Suc i) \<Rightarrow> (take (Suc i) unitPID, trim_chars (\<lambda>c. c \<in> {CHR ''['', CHR '']'', CHR '':''}) (drop (Suc i) unitPID))
            | _ \<Rightarrow> (trim_suffix unitPID '':'', ''''))
      else ('''', ''''))"

definition syslog_message :: "string \<Rightarrow> string" where
  "syslog_message rest =
     (case str_index rest '']: '' of
        Some (Suc i) \<Rightarrow> drop (Suc i + 3) rest
      | _ \<Rightarrow> (case str_index rest '': '' of Some (Suc i) \<Rightarrow> drop (Suc i + 2) rest | _ \<Rightarrow> rest))"

definition parseSyslogLine :: "time \<Rightarrow> string \<Rightarrow> string \<Rightarrow> Entry option" where
  "parseSyslogLine now line source =
     (if length line < 15 then None
      else let ts = syslog_time now (take 15 line); rest = drop 15 line; up = syslog_unit rest; msg = syslog_message rest
        in Some \<lparr>le_Timestamp = ts, le_Severity = syslog_severity msg, le_Unit = fst up, le_Message = trim_space msg,
             le_Source = source, le_PID = snd up\<rparr>)"

definition log_wanted :: "LogParams \<Rightarrow> Entry \<Rightarrow> bool" where
  "log_wanted p e = ((lp_Severity p = '''' \<or> le_Severity e = lp_Severity p)
     \<and> (lp_Search p = '''' \<or> contains (to_lower (le_Message e)) (to_lower (lp_Search p))))"

definition readLogFile :: "log_env \<Rightarrow> LogParams \<Rightarrow> logs_error + Entry list" where
  "readLogFile G p =
     (let path = (case find (\<lambda>s. src_ID s = lp_Source p) (AvailableSources G) of None \<Rightarrow> '''' | Some s \<Rightarrow> src_Path s) in
      if path = '''' then Inl UnknownSource
      else (case log_file G path of
              None \<Rightarrow> Inl LogOpenFailed
            | Some s \<Rightarrow>
                let all_lines = fst (scan_lines s); lines = drop (nat (int (length all_lines) - lp_Lines p)) all_lines
                in Inr (filter (log_wanted p) (List.map_filter (\<lambda>l. parseSyslogLine (log_now G) l (lp_Source p)) lines))))"

definition Read :: "log_env \<Rightarrow> LogParams \<Rightarrow> (logs_error + Entry list) action" where
  "Read G p =
     (let p = (if lp_Lines p \<le> 0 then p\<lparr>lp_Lines := 100\<rparr> else p);
          p = (if lp_Lines p > 500 then p\<lparr>lp_Lines := 500\<rparr> else p)
      in if lp_Source p \<in> {''journald'', ''''} then readJournald G p else ret (readLogFile G p))"

section \<open>Units, export and tail\<close>

definition demoUnits :: "string list" where
  "demoUnits = [''nginx.service'', ''sshd.service'', ''cron.service'', ''systemd-timesyncd.service'',
     ''systemd-networkd.service'', ''docker.service'']"

definition ListUnits :: "log_env \<Rightarrow> (logs_error + string list) action" where
  "ListUnits G = do {
     res \<leftarrow> os_exec (run_cmd G) [''journalctl'', ''--field=_SYSTEMD_UNIT'', ''--no-pager''];
     ret (case res of
            (_, Some err) \<Rightarrow> if logs_isNotFound err then Inr demoUnits else Inl JournalctlFailed
          | (out, None) \<Rightarrow>
              Inr (foldl (\<lambda>us l. let u = trim_space l in if u = '''' \<or> u \<in> set us then us else us @ [u]) []
                (fst (scan_lines out))))
   }"

definition txt_line :: "Entry \<Rightarrow> string" where
  "txt_line e = ''['' @ current_timestamp (le_Timestamp e) @ ''] ['' @ to_upper (le_Severity e) @ ''] ['' @ le_Unit e
     @ ''] '' @ le_Message e @ [newline]"

definition ExportTXT :: "Entry list \<Rightarrow> string" where
  "ExportTXT es = concat (map txt_line es)"

definition tail_args :: "string \<Rightarrow> string list" where
  "tail_args unit = [''--follow'', ''--output=json'', ''--no-pager'', ''--lines=0'']
     @ (if unit \<noteq> '''' then [''--unit='' @ unit] else [])"

definition tailDemo_entry :: "nat \<Rightarrow> time \<Rightarrow> Entry \<times> bool" where
  "tailDemo_entry i now =
     (let messages = [''Started A high performance web server and a reverse proxy server.'', ''New session 42 of user admin.'',
            ''pam_unix(cron:session): session opened for user root'', ''Connection closed by 192.168.1.100 port 22'',
            ''Failed to connect to database: connection refused''];
          units = [''nginx.service'', ''sshd.service'', ''cron.service'', ''systemd-timesyncd.service''];
          severities = [''info'', ''info'', ''info'', ''warning'', ''error''];
          idx = i mod length messages
      in (\<lparr>le_Timestamp = now, le_Severity = severities ! (idx mod length severities), le_Unit = units ! (idx mod length units),
           le_Message = messages ! idx, le_Source = ''journald'', le_PID = ''''\<rparr>, True))"

section \<open>Properties\<close>

lemma year_index_unique:
  assumes "year_start k \<le> d" "d < year_start (Suc k)"
  shows "year_index d = k"
proof -
  have "year_start (year_index d) \<le> d" "d < year_start (Suc (year_index d))"
    using day_split [of d] year_day_bound [of d] by (auto simp: year_start_Suc)
  then have "\<not> Suc k \<le> year_index d" "\<not> Suc (year_index d) \<le> k"
    using assms year_start_mono [of "Suc k" "year_index d"] year_start_mono [of "Suc (year_index d)" k] by linarith+
  then show ?thesis by simp
qed

lemma month_prefix:
  assumes "1 \<le> m" "m \<le> 12"
  shows "sum_list (take (m - 1) (month_lengths lp)) + month_lengths lp' ! (m - 1) \<le> sum_list (month_lengths lp)"
proof -
  have "m \<in> {1, 2, 3, 4, 5, 6, 7, 8, 9, 10, 11, 12}" using assms by (auto simp: numeral_eq_Suc le_Suc_eq)
  then show ?thesis by (elim insertE emptyE) (simp_all add: month_lengths_def eval_nat_numeral)
qed

text \<open>The year of a civil date, also when its day is the 29th of February of a common year.\<close>

lemma year_of_stamp:
  assumes "1 \<le> y" "1 \<le> m" "m \<le> 12" "1 \<le> d" "d \<le> days_in y' m" "ns < 86400 * 1000000000"
  shows "year_of (stamp_in y (m, d, ns)) = y"
proof -
  let ?D = "day_of_civil (Civil y m d)" and ?p = "sum_list (take (m - 1) (month_lengths (leap y)))"
  have "?p + d \<le> sum_list (month_lengths (leap y))"
    using month_prefix [OF assms(2,3), of "leap y" "leap y'"] assms(5) by (simp add: days_in_def)
  then have "?p + (d - 1) < (if leap y then 366 else 365)" using assms(4) by (simp only: sum_month_lengths)
  then have "year_index ?D = y - 1"
    using assms(1) year_start_Suc [of "y - 1"] by (intro year_index_unique) (auto simp: day_of_civil_def)
  moreover have "day_of (stamp_in y (m, d, ns)) = ?D"
  proof -
    have "stamp_in y (m, d, ns) div second = int (?D * 86400 + ns div 1000000000)"
      by (simp add: stamp_in_def zdiv_int)
    then have "secs_of (stamp_in y (m, d, ns)) = ?D * 86400 + ns div 1000000000" by (simp only: secs_of_def nat_int)
    moreover have "ns div 1000000000 < 86400" using assms(6) by simp
    ultimately show ?thesis by (simp add: day_of_def)
  qed
  ultimately show ?thesis using assms(1) by (simp add: year_of_def civil_of_day_def Let_def)
qed



text \<open>A syslog line whose date cannot be read (an ISO date, say) is not given the current time, as the
  fallback intends: the year is added to an instant that has one already, so the entry lies in the year
  \<open>2 * y\<close>, about two thousand years ahead.\<close>

theorem syslog_bad_date_far_future:
  assumes "15 \<le> length line" "parse_stamp False (take 15 line) = None" "parse_stamp True (take 15 line) = None"
  shows "\<exists>e. parseSyslogLine now line source = Some e \<and> year_of (le_Timestamp e) = 2 * year_of now"
proof -
  obtain y m d where c: "civil_of_day (day_of now) = Civil y m d" by (cases "civil_of_day (day_of now)")
  have y: "year_of now = y" "1 \<le> y" using c civil_of_day_fields [OF c] by (simp_all add: year_of_def)
  have "0 \<le> now mod (24 * hour)" "now mod (24 * hour) < 24 * hour" by simp_all
  then have ns: "nat (now mod (24 * hour)) < 86400 * 1000000000" by (simp add: nat_less_iff)
  have "year_of (stamp_in (y + y) (m, d, nat (now mod (24 * hour)))) = y + y"
    using y(2) civil_of_day_fields [OF c] ns by (intro year_of_stamp) simp_all
  then have "year_of (add_years (year_of now) now) = 2 * year_of now" by (simp add: add_years_def c y)
  then show ?thesis using assms by (simp add: parseSyslogLine_def syslog_time_def Let_def)
qed

theorem syslog_bad_date_far_future_witness:
  "\<exists>e. parseSyslogLine second ''2026-06-22T10:30:00 host app: hi'' ''syslog'' = Some e \<and> year_of (le_Timestamp e) = 2"
proof -
  have "parse_stamp False ''2026-06-22T10:3'' = None" "parse_stamp True ''2026-06-22T10:3'' = None"
  proof -
    have "find (\<lambda>x. equal_fold ''202'' (snd x)) (zip [1..<13] month_names) = None" by code_simp
    then show "parse_stamp False ''2026-06-22T10:3'' = None" "parse_stamp True ''2026-06-22T10:3'' = None"
      by (simp_all add: parse_stamp_def)
  qed
  with syslog_bad_date_far_future [of "''2026-06-22T10:30:00 host app: hi''" second "''syslog''"]
  have "\<exists>e. parseSyslogLine second ''2026-06-22T10:30:00 host app: hi'' ''syslog'' = Some e
      \<and> year_of (le_Timestamp e) = 2 * year_of second" by simp
  moreover have "year_of second = 1"
    by (simp add: year_of_def day_of_def secs_of_def civil_of_day_def year_index_def Let_def)
  ultimately show ?thesis by simp
qed

lemma find_by_id:
  "distinct (map src_ID xs) \<Longrightarrow> s \<in> set xs \<Longrightarrow> P s \<Longrightarrow> find (\<lambda>t. src_ID t = src_ID s) (filter P xs) = Some s"
  by (induction xs) (auto simp: rev_image_eqI)

text \<open>C34: A log file is read from its end, whatever is in it. Its lines are the text split at the line
  breaks, each without one carriage return at its end, up to the first of 64 KiB or more, which ends the reading
  without an error. Of the last \<open>n\<close> of these (the requested number, 100 when it is not positive and 500 at most)
  the answer has, in order, the parsed ones of the wanted severity whose message contains the search text up
  to upper and lower case; \<open>n\<close> counts lines before that filter. No command is run.\<close>

theorem log_file_last_lines:
  assumes "src \<in> set fileSources" "stat_ok G (src_Path src)" "src_ID src = lp_Source p"
    and "log_file G (src_Path src) = Some text"
    and "ls = map drop_cr (takeWhile (\<lambda>l. length l < 64 * 1024) (raw_lines text))"
    and "n = (if lp_Lines p \<le> 0 then 100 else min 500 (nat (lp_Lines p)))"
  shows "run_state (Read G p) w = (Inr (filter
      (\<lambda>e. (lp_Severity p = '''' \<or> le_Severity e = lp_Severity p)
         \<and> (lp_Search p = '''' \<or> sublist (to_lower (lp_Search p)) (to_lower (le_Message e))))
      (List.map_filter (\<lambda>l. parseSyslogLine (log_now G) l (lp_Source p)) (drop (length ls - n) ls))), w)"
proof -
  have src: "src_ID src \<noteq> ''''" "src_Path src \<noteq> ''''" "src_ID src \<noteq> ''journald''" "find (\<lambda>s. src_ID s = src_ID src) (AvailableSources G) = Some src"
  proof -
    have "\<forall>s \<in> set fileSources. src_ID s \<noteq> '''' \<and> src_Path s \<noteq> '''' \<and> src_ID s \<noteq> ''journald''"
      by (simp add: fileSources_def)
    with assms(1) show "src_ID src \<noteq> ''''" "src_Path src \<noteq> ''''" and other: "src_ID src \<noteq> ''journald''" by blast+
    have "distinct (map src_ID fileSources)" by (simp add: fileSources_def)
    from find_by_id [where P = "\<lambda>s. stat_ok G (src_Path s)", OF this assms(1,2)] other show "find (\<lambda>s. src_ID s = src_ID src) (AvailableSources G) = Some src"
      by (simp add: AvailableSources_def)
  qed
  let ?P = "List.map_filter (\<lambda>l. parseSyslogLine (log_now G) l (lp_Source p))"
  have ls: "fst (scan_lines text) = ls" by (simp add: assms(5) scan_lines_take MaxScanTokenSize_def)
  have tail: "readLogFile G q = Inr (filter (log_wanted p) (?P (drop (nat (int (length ls) - k)) ls)))"
    if q: "lp_Source q = lp_Source p" "log_wanted q = log_wanted p" "lp_Lines q = k" for q k
  proof -
    have "find (\<lambda>s. src_ID s = lp_Source q) (AvailableSources G) = Some src" using src(4) unfolding q(1) assms(3) .
    then show ?thesis unfolding readLogFile_def Let_def
      by (simp only: option.case src(2) if_False assms(4) ls q)
  qed
  have named: "lp_Source p \<notin> {''journald'', ''''}" using assms(3) src(1,3) by simp
  have w: "log_wanted (p\<lparr>lp_Lines := k\<rparr>) = log_wanted p" for k by (simp add: log_wanted_def fun_eq_iff)
  have n: "nat (int (length ls) - (if lp_Lines p \<le> 0 then 100 else if lp_Lines p > 500 then 500 else lp_Lines p)) = length ls - n"
    unfolding assms(6) by (auto simp: nat_diff_distrib' min_def)
  have "run_state (Read G p) w = (Inr (filter (log_wanted p) (?P (drop (length ls - n) ls))), w)"
    using named tail [of "p\<lparr>lp_Lines := 100\<rparr>" 100] tail [of p "lp_Lines p"] tail [of "p\<lparr>lp_Lines := 500\<rparr>" 500] n
    by (simp add: Read_def Let_def w split: if_splits)
  moreover have "log_wanted p = (\<lambda>e. (lp_Severity p = '''' \<or> le_Severity e = lp_Severity p)
      \<and> (lp_Search p = '''' \<or> sublist (to_lower (lp_Search p)) (to_lower (le_Message e))))"
    by (simp add: fun_eq_iff log_wanted_def contains_sublist)
  ultimately show ?thesis by simp
qed

definition demo_logs :: log_env where
  "demo_logs = \<lparr>run_cmd = (\<lambda>c. ('''', Some ''exec: not found'')),
     log_file = (\<lambda>p. if p = ''/var/log/auth.log'' then Some (''short'' @ [newline] @ ''Jun 22 10:30:00 host sshd[1]: hi'' @ [newline]) else None),
     stat_ok = (\<lambda>p. p = ''/var/log/auth.log''), log_now = second\<rparr>"

definition demo_query :: LogParams where
  "demo_query = \<lparr>lp_Source = ''auth'', lp_Unit = '''', lp_Severity = '''', lp_Search = '''', lp_Since = zero_time, lp_SinceOffset = 0,
     lp_Until = zero_time, lp_Lines = 1\<rparr>"

theorem log_file_last_lines_witness:
  "run_state (Read demo_logs demo_query) demo_world =
     (Inr (List.map_filter (\<lambda>l. parseSyslogLine second l ''auth'') [''Jun 22 10:30:00 host sshd[1]: hi'']), demo_world)"
  using log_file_last_lines [of "\<lparr>src_ID = ''auth'', src_Label = ''auth.log'', src_Path = ''/var/log/auth.log''\<rparr>" demo_logs
      demo_query "''short'' @ [newline] @ ''Jun 22 10:30:00 host sshd[1]: hi'' @ [newline]"
      "[''short'', ''Jun 22 10:30:00 host sshd[1]: hi'']" 1 demo_world]
  by (simp add: demo_logs_def demo_query_def fileSources_def newline_def raw_lines_def drop_cr_def trim_suffix_def has_suffix_def)

text \<open>The text export can be forged by a log message, unlike the CSV export of the audit log: an entry whose
  message goes on after a line break exports exactly like two entries, the second one freely chosen.\<close>

theorem txt_export_forgeable:
  "ExportTXT [e\<lparr>le_Message := m @ [newline] @ butlast (txt_line e')\<rparr>] = ExportTXT [e\<lparr>le_Message := m\<rparr>, e']"
  by (simp add: ExportTXT_def txt_line_def butlast_append)

end
