(* ===== verification/Handler.thy ===== *)
theory Handler
  imports AuthService Pim Setup Mfa AuditLog Alerts Systemd Buffer Updater Logs SystemInfo
begin

text \<open>
  What the HTTP handlers share (\<open>internal/handler\<close>): the client's address, decoding a request's body and
  parameters, and everything an answer can carry (\<open>payload\<close>: one constructor per kind of JSON the handlers
  write, \<open>NoContent\<close> for an empty answer).
\<close>

section \<open>Requests\<close>

text \<open>\<open>realIP\<close> of the handlers; the server's log has a variant of its own.\<close>

definition realIP :: "request \<Rightarrow> string" where
  "realIP r =
     (let ip = r_header r ''X-Real-IP'' in
      if ip \<noteq> '''' then ip
      else (let ip = r_header r ''X-Forwarded-For'' in
            if ip \<noteq> '''' then split_on (CHR '','') ip ! 0
            else (case last_index (CHR '':'') (r_remote_addr r) of
                    None \<Rightarrow> r_remote_addr r
                  | Some i \<Rightarrow> take i (r_remote_addr r))))"

definition UserAgent :: "request \<Rightarrow> string" where
  "UserAgent r = r_header r ''User-Agent''"

text \<open>\<open>extractBearerToken\<close> of the handlers: the empty string when there is none.\<close>

definition h_extractBearerToken :: "request \<Rightarrow> string" where
  "h_extractBearerToken r =
     (let header = r_header r ''Authorization'' in
      if header = '''' then ''''
      else (let parts = split_n2 (CHR '' '') header in
        if length parts \<noteq> 2 \<or> \<not> equal_fold (parts ! 0) ''bearer'' then ''''
        else trim_space (parts ! 1)))"

text \<open>\<open>json.NewDecoder(r.Body).Decode(&req)\<close>.\<close>

definition decode :: "'a field list \<Rightarrow> 'a \<Rightarrow> request \<Rightarrow> 'a option" where
  "decode fs zero r = (case first_json (r_body r) of None \<Rightarrow> None | Some v \<Rightarrow> store_struct fs zero v)"

text \<open>\<open>n, _ := strconv.Atoi(s)\<close>: 0 on bad syntax, the nearest 64-bit number when out of range.\<close>

definition atoi_value :: "string \<Rightarrow> int" where
  "atoi_value s =
     (let neg = has_prefix s ''-''; ds = (if neg \<or> has_prefix s ''+'' then tl s else s);
          v = (if neg then - int (digits_value ds) else int (digits_value ds))
      in if ds = [] \<or> \<not> list_all is_digit ds then 0 else max (- (2 ^ 63)) (min v (2 ^ 63 - 1)))"

section \<open>Bodies\<close>

record loginRequest =
  lb_Email :: string
  lb_Password :: string

definition loginRequest_fields :: "loginRequest field list" where
  "loginRequest_fields = [(''email'', string_value (\<lambda>s b. b\<lparr>lb_Email := s\<rparr>)),
     (''password'', string_value (\<lambda>s b. b\<lparr>lb_Password := s\<rparr>))]"

record refreshRequest =
  rb_RefreshToken :: string

definition refreshRequest_fields :: "refreshRequest field list" where
  "refreshRequest_fields = [(''refresh_token'', string_value (\<lambda>s b. b\<lparr>rb_RefreshToken := s\<rparr>))]"

record verifyMFARequest =
  vb_MFASessionToken :: string
  vb_Code :: string
  vb_Type :: string

definition verifyMFARequest_fields :: "verifyMFARequest field list" where
  "verifyMFARequest_fields = [(''mfa_session_token'', string_value (\<lambda>s b. b\<lparr>vb_MFASessionToken := s\<rparr>)),
     (''code'', string_value (\<lambda>s b. b\<lparr>vb_Code := s\<rparr>)), (''type'', string_value (\<lambda>s b. b\<lparr>vb_Type := s\<rparr>))]"

record confirmTOTPRequest =
  tb_Secret :: string
  tb_Code :: string
  tb_DeviceName :: string

definition confirmTOTPRequest_fields :: "confirmTOTPRequest field list" where
  "confirmTOTPRequest_fields = [(''secret'', string_value (\<lambda>s b. b\<lparr>tb_Secret := s\<rparr>)),
     (''code'', string_value (\<lambda>s b. b\<lparr>tb_Code := s\<rparr>)), (''device_name'', string_value (\<lambda>s b. b\<lparr>tb_DeviceName := s\<rparr>))]"

record pimRequestBody =
  pb_Reason :: string
  pb_DurationMin :: int

definition pimRequestBody_fields :: "pimRequestBody field list" where
  "pimRequestBody_fields = [(''reason'', string_value (\<lambda>s b. b\<lparr>pb_Reason := s\<rparr>)),
     (''duration_min'', int_value (\<lambda>n b. b\<lparr>pb_DurationMin := n\<rparr>))]"

record breakGlassBody =
  gb_Reason :: string

definition breakGlassBody_fields :: "breakGlassBody field list" where
  "breakGlassBody_fields = [(''reason'', string_value (\<lambda>s b. b\<lparr>gb_Reason := s\<rparr>))]"

record createAdminRequest =
  ab_Email :: string
  ab_Password :: string

definition createAdminRequest_fields :: "createAdminRequest field list" where
  "createAdminRequest_fields = [(''email'', string_value (\<lambda>s b. b\<lparr>ab_Email := s\<rparr>)),
     (''password'', string_value (\<lambda>s b. b\<lparr>ab_Password := s\<rparr>))]"

record completeSetupRequest =
  sb_AdminID :: string

definition completeSetupRequest_fields :: "completeSetupRequest field list" where
  "completeSetupRequest_fields = [(''admin_id'', string_value (\<lambda>s b. b\<lparr>sb_AdminID := s\<rparr>))]"

record createUserRequest =
  cb_Email :: string
  cb_Password :: string
  cb_Role :: string

definition createUserRequest_fields :: "createUserRequest field list" where
  "createUserRequest_fields = [(''email'', string_value (\<lambda>s b. b\<lparr>cb_Email := s\<rparr>)),
     (''password'', string_value (\<lambda>s b. b\<lparr>cb_Password := s\<rparr>)), (''role'', string_value (\<lambda>s b. b\<lparr>cb_Role := s\<rparr>))]"

record updateRoleRequest =
  ub_Role :: string

definition updateRoleRequest_fields :: "updateRoleRequest field list" where
  "updateRoleRequest_fields = [(''role'', string_value (\<lambda>s b. b\<lparr>ub_Role := s\<rparr>))]"

record actionRequest =
  xb_Action :: string

definition actionRequest_fields :: "actionRequest field list" where
  "actionRequest_fields = [(''action'', string_value (\<lambda>s b. b\<lparr>xb_Action := s\<rparr>))]"

section \<open>Answers\<close>

record loginResponse =
  lp_AccessToken :: string
  lp_RefreshToken :: string
  lp_AccessExpiresAt :: time
  lp_RefreshExpiresAt :: time
  lp_Role :: string
  lp_MFARequired :: bool
  lp_MFASessionToken :: string

record sessionResponse =
  sr_ID :: string
  sr_IPAddress :: string
  sr_UserAgent :: string
  sr_CreatedAt :: string
  sr_ExpiresAt :: string

record credentialResponse =
  kr_ID :: string
  kr_Type :: string
  kr_Name :: string
  kr_CreatedAt :: string
  kr_LastUsedAt :: string

record pimResponse =
  pp_ID :: string
  pp_Reason :: string
  pp_RequestedDurationMin :: int
  pp_StartedAt :: string
  pp_ExpiresAt :: string
  pp_IsBreakGlass :: bool
  pp_ActionCount :: int
  pp_RemainingSeconds :: int

datatype payload =
    NoContent
  | LoginReply loginResponse
  | SessionsReply "sessionResponse list"
  | TOTPReply TOTPSetup
  | ConfirmReply string "string list"
  | CredentialsReply "credentialResponse list"
  | PIMReply pimResponse
  | ActivePIMReply "pimResponse option"
  | BreakGlassReply pimResponse
  | AuditReply PagedResult
  | FileReply string string
  | StatusReply Status
  | AdminReply string string
  | CompletedReply
  | UsersReply "User list"
  | UserReply User
  | AlertsReply "Alert list" nat
  | ThresholdsReply "Threshold list"
  | ServicesReply "Service list" nat
  | ServiceReply Service
  | ActionReply string string
  | ServiceLogsReply string "string list" nat
  | SnapshotReply Snapshot
  | HistoryReply "Snapshot option list"
  | ProcessesReply "Process list" nat
  | SystemReply SystemInfo "(NetMetrics list \<times> DiskMetrics list) option"
  | LogsReply "Entry list" nat LogParams
  | UnitsReply "string list"
  | SourcesReply "LogSource list"
  | UpdateReply UpdateStatus
  | HealthReply string string time

abbreviation fails :: "nat \<Rightarrow> string \<Rightarrow> payload response action" where
  "fails n c \<equiv> ret (Failure n c)"

text \<open>A proxy's header decides, whoever sets it.\<close>

lemma realIP_header: "r_header r ''X-Real-IP'' = ip \<Longrightarrow> ip \<noteq> '''' \<Longrightarrow> realIP r = ip"
  by (simp add: realIP_def)

end
