(* ===== verification/HandlerAuth.thy ===== *)
theory HandlerAuth
  imports Handler
begin

text \<open>
  The authentication and second-factor handlers (\<open>internal/handler/auth.go\<close>, \<open>internal/handler/mfa.go\<close>).
  A handler behind \<open>Require\<close> gets the claims of the token as its first argument.
\<close>

section \<open>Authentication\<close>

definition full_login :: "LoginResult \<Rightarrow> loginResponse" where
  "full_login res = \<lparr>lp_AccessToken = lr_AccessToken res, lp_RefreshToken = lr_RefreshToken res,
     lp_AccessExpiresAt = lr_AccessExpiresAt res, lp_RefreshExpiresAt = lr_RefreshExpiresAt res,
     lp_Role = lr_Role res, lp_MFARequired = False, lp_MFASessionToken = ''''\<rparr>"

definition pending_login :: "string \<Rightarrow> loginResponse" where
  "pending_login token = \<lparr>lp_AccessToken = '''', lp_RefreshToken = '''', lp_AccessExpiresAt = zero_time,
     lp_RefreshExpiresAt = zero_time, lp_Role = '''', lp_MFARequired = True, lp_MFASessionToken = token\<rparr>"

definition login_response :: "auth_error + LoginResult \<Rightarrow> payload response" where
  "login_response result =
     (case result of
        Inl ErrRateLimited \<Rightarrow> Failure 429 ''RATE_LIMITED''
      | Inl ErrInvalidCredentials \<Rightarrow> Failure 401 ''INVALID_CREDENTIALS''
      | Inl ErrAccountInactive \<Rightarrow> Failure 401 ''INVALID_CREDENTIALS''
      | Inl _ \<Rightarrow> Failure 500 ''INTERNAL_ERROR''
      | Inr res \<Rightarrow>
          if lr_MFARequired res then Reply 200 (LoginReply (pending_login (lr_MFASessionToken res)))
          else Reply 200 (LoginReply (full_login res)))"

definition h_Login :: "ext \<Rightarrow> TokenConfig \<Rightarrow> request \<Rightarrow> payload response action" where
  "h_Login E cfg r =
     (case decode loginRequest_fields \<lparr>lb_Email = '''', lb_Password = ''''\<rparr> r of
        None \<Rightarrow> fails 400 ''INVALID_REQUEST''
      | Some req \<Rightarrow>
          if lb_Email req = '''' \<or> lb_Password req = '''' then fails 400 ''MISSING_FIELDS''
          else do {
            result \<leftarrow> Login E cfg \<lparr>lq_Email = to_lower (trim_space (lb_Email req)), lq_Password = lb_Password req,
                       lq_IPAddress = realIP r, lq_UserAgent = UserAgent r\<rparr>;
            ret (login_response result)
          })"

definition h_Logout :: "ext \<Rightarrow> request \<Rightarrow> payload response action" where
  "h_Logout E r =
     (let token = h_extractBearerToken r in
      if token = '''' then fails 401 ''MISSING_TOKEN''
      else do {
        res \<leftarrow> Logout E token (realIP r);
        ret (case res of Inl _ \<Rightarrow> Failure 500 ''INTERNAL_ERROR'' | Inr _ \<Rightarrow> Reply 204 NoContent)
      })"

definition h_Refresh :: "ext \<Rightarrow> TokenConfig \<Rightarrow> request \<Rightarrow> payload response action" where
  "h_Refresh E cfg r =
     (case decode refreshRequest_fields \<lparr>rb_RefreshToken = ''''\<rparr> r of
        None \<Rightarrow> fails 400 ''INVALID_REQUEST''
      | Some req \<Rightarrow>
          if rb_RefreshToken req = '''' then fails 400 ''INVALID_REQUEST''
          else do {
            result \<leftarrow> Refresh E cfg (rb_RefreshToken req) (realIP r) (UserAgent r);
            ret (case result of
                   Inl ErrSessionNotFound \<Rightarrow> Failure 401 ''INVALID_TOKEN''
                 | Inl _ \<Rightarrow> Failure 500 ''INTERNAL_ERROR''
                 | Inr res \<Rightarrow> Reply 200 (LoginReply (full_login res)))
          })"

definition session_response :: "session_row \<Rightarrow> sessionResponse" where
  "session_response s = \<lparr>sr_ID = s_id s, sr_IPAddress = s_ip_address s, sr_UserAgent = str_of_null (s_user_agent s),
     sr_CreatedAt = s_created_at s, sr_ExpiresAt = s_expires_at s\<rparr>"

definition h_ListSessions :: "ext \<Rightarrow> payload handler" where
  "h_ListSessions E claims r =
     (case claims of
        None \<Rightarrow> fails 401 ''UNAUTHORIZED''
      | Some cl \<Rightarrow> do {
          ss \<leftarrow> ListSessions E (UserID cl);
          ret (case ss of
                 Inl _ \<Rightarrow> Failure 500 ''INTERNAL_ERROR''
               | Inr ss \<Rightarrow> Reply 200 (SessionsReply (map session_response ss)))
        })"

definition h_RevokeSession :: "ext \<Rightarrow> payload handler" where
  "h_RevokeSession E claims r =
     (case claims of
        None \<Rightarrow> fails 401 ''UNAUTHORIZED''
      | Some cl \<Rightarrow>
          let sessionID = r_param r ''id'' in
          if sessionID = '''' then fails 400 ''MISSING_PARAM''
          else do {
            res \<leftarrow> RevokeSession E sessionID (UserID cl) (realIP r);
            ret (case res of
                   Inl ErrSessionNotFound \<Rightarrow> Failure 404 ''NOT_FOUND''
                 | Inl _ \<Rightarrow> Failure 500 ''INTERNAL_ERROR''
                 | Inr _ \<Rightarrow> Reply 204 NoContent)
          })"

section \<open>Second factors\<close>

definition h_VerifyMFA :: "ext \<Rightarrow> TokenConfig \<Rightarrow> request \<Rightarrow> payload response action" where
  "h_VerifyMFA E cfg r =
     (case decode verifyMFARequest_fields \<lparr>vb_MFASessionToken = '''', vb_Code = '''', vb_Type = ''''\<rparr> r of
        None \<Rightarrow> fails 400 ''INVALID_REQUEST''
      | Some req \<Rightarrow>
          if vb_MFASessionToken req = '''' \<or> vb_Code req = '''' then fails 400 ''MISSING_FIELDS''
          else do {
            now \<leftarrow> reads clock;
            (case ValidateAccessToken E (vb_MFASessionToken req) (Secret cfg) now of
               Inl _ \<Rightarrow> fails 401 ''INVALID_TOKEN''
             | Inr claims \<Rightarrow>
                 if Role claims \<noteq> ''mfa_pending'' then fails 401 ''INVALID_TOKEN''
                 else do {
                   verified \<leftarrow> (if vb_Type req = ''backup_code''
                                then UseBackupCodeForLogin E (UserID claims) (vb_Code req)
                                else VerifyTOTPForLogin E (UserID claims) (vb_Code req));
                   (case verified of
                      Inl e \<Rightarrow>
                        if e = ErrInvalidTOTPCode \<or> e = ErrInvalidBackupCode then fails 401 ''INVALID_MFA_CODE''
                        else fails 500 ''INTERNAL_ERROR''
                    | Inr userClaims \<Rightarrow> do {
                        result \<leftarrow> CreateSessionAfterMFA E cfg (UserID userClaims) (Email userClaims)
                                   (Role userClaims) (realIP r) (UserAgent r);
                        ret (case result of
                               Inl _ \<Rightarrow> Failure 500 ''INTERNAL_ERROR''
                             | Inr res \<Rightarrow> Reply 200 (LoginReply (full_login res)))
                      })
                 })
          })"

definition h_InitiateTOTPSetup :: "ext \<Rightarrow> payload handler" where
  "h_InitiateTOTPSetup E claims r =
     (case claims of
        None \<Rightarrow> fails 401 ''UNAUTHORIZED''
      | Some cl \<Rightarrow> do {
          setup \<leftarrow> InitiateTOTPSetup E (UserID cl);
          ret (case setup of Inl _ \<Rightarrow> Failure 500 ''INTERNAL_ERROR'' | Inr s \<Rightarrow> Reply 200 (TOTPReply s))
        })"

definition h_ConfirmTOTPSetup :: "ext \<Rightarrow> payload handler" where
  "h_ConfirmTOTPSetup E claims r =
     (case claims of
        None \<Rightarrow> fails 401 ''UNAUTHORIZED''
      | Some cl \<Rightarrow>
          (case decode confirmTOTPRequest_fields \<lparr>tb_Secret = '''', tb_Code = '''', tb_DeviceName = ''''\<rparr> r of
             None \<Rightarrow> fails 400 ''INVALID_REQUEST''
           | Some req \<Rightarrow>
               if tb_Secret req = '''' \<or> tb_Code req = '''' then fails 400 ''MISSING_FIELDS''
               else do {
                 let device = (if tb_DeviceName req = '''' then ''Authenticator App'' else tb_DeviceName req);
                 result \<leftarrow> ConfirmTOTPSetup E \<lparr>ct_UserID = UserID cl, ct_Secret = tb_Secret req,
                            ct_Code = tb_Code req, ct_DeviceName = device\<rparr>;
                 ret (case result of
                        Inl ErrVerificationFailed \<Rightarrow> Failure 401 ''INVALID_CODE''
                      | Inl _ \<Rightarrow> Failure 500 ''INTERNAL_ERROR''
                      | Inr res \<Rightarrow> Reply 200 (ConfirmReply (cf_CredentialID res) (cf_BackupCodes res)))
               }))"

definition credential_response :: "cred_row \<Rightarrow> credentialResponse" where
  "credential_response c = \<lparr>kr_ID = m_id c, kr_Type = m_type c, kr_Name = m_name c, kr_CreatedAt = m_created_at c,
     kr_LastUsedAt = str_of_null (m_last_used_at c)\<rparr>"

definition h_ListCredentials :: "ext \<Rightarrow> payload handler" where
  "h_ListCredentials E claims r =
     (case claims of
        None \<Rightarrow> fails 401 ''UNAUTHORIZED''
      | Some cl \<Rightarrow> do {
          cs \<leftarrow> mfa_ListCredentials E (UserID cl);
          ret (case cs of
                 Inl _ \<Rightarrow> Failure 500 ''INTERNAL_ERROR''
               | Inr cs \<Rightarrow> Reply 200 (CredentialsReply (map credential_response cs)))
        })"

definition h_RemoveCredential :: "ext \<Rightarrow> payload handler" where
  "h_RemoveCredential E claims r =
     (case claims of
        None \<Rightarrow> fails 401 ''UNAUTHORIZED''
      | Some cl \<Rightarrow>
          let credID = r_param r ''id'' in
          if credID = '''' then fails 400 ''MISSING_PARAM''
          else do {
            res \<leftarrow> mfa_RemoveCredential E credID (UserID cl);
            ret (case res of Inl _ \<Rightarrow> Failure 500 ''INTERNAL_ERROR'' | Inr _ \<Rightarrow> Reply 204 NoContent)
          })"

section \<open>Statements only\<close>

lemmas auth_handler_defs = h_Login_def h_Logout_def h_Refresh_def h_ListSessions_def h_RevokeSession_def
  h_VerifyMFA_def h_InitiateTOTPSetup_def h_ConfirmTOTPSetup_def h_ListCredentials_def h_RemoveCredential_def

lemma auth_handlers_steady [steady_intros]:
  "steady (h_Login E cfg r)" "steady (h_Logout E r)" "steady (h_Refresh E cfg r)"
  "steady (h_ListSessions E c r)" "steady (h_RevokeSession E c r)" "steady (h_VerifyMFA E cfg r)"
  "steady (h_InitiateTOTPSetup E c r)" "steady (h_ConfirmTOTPSetup E c r)" "steady (h_ListCredentials E c r)"
  "steady (h_RemoveCredential E c r)"
  unfolding auth_handler_defs by (intro steady_intros)+

end
