(* ===== verification/HandlerAdmin.thy ===== *)
theory HandlerAdmin
  imports Handler
begin

text \<open>
  The handlers of privileged sessions and the audit log (\<open>internal/handler/pim.go\<close>) and of the setup wizard
  and the user administration (\<open>internal/handler/setup.go\<close>).
\<close>

section \<open>Privileged sessions\<close>

definition toPIMResponse :: "ActivePIMSession \<Rightarrow> pimResponse" where
  "toPIMResponse s = \<lparr>pp_ID = ap_ID s, pp_Reason = ap_Reason s, pp_RequestedDurationMin = ap_RequestedDurationMin s,
     pp_StartedAt = rfc3339 (ap_StartedAt s), pp_ExpiresAt = rfc3339 (ap_ExpiresAt s),
     pp_IsBreakGlass = ap_IsBreakGlass s, pp_ActionCount = ap_ActionCount s,
     pp_RemainingSeconds = ap_RemainingSeconds s\<rparr>"

definition h_RequestPIM :: "ext \<Rightarrow> payload handler" where
  "h_RequestPIM E claims r =
     (case claims of
        None \<Rightarrow> fails 401 ''UNAUTHORIZED''
      | Some cl \<Rightarrow>
          if Role cl \<noteq> ''admin'' then fails 403 ''FORBIDDEN''
          else (case decode pimRequestBody_fields \<lparr>pb_Reason = '''', pb_DurationMin = 0\<rparr> r of
                  None \<Rightarrow> fails 400 ''INVALID_REQUEST''
                | Some req \<Rightarrow> do {
                    let minutes = (if pb_DurationMin req = 0 then 30 else pb_DurationMin req);
                    session \<leftarrow> pim_Request E \<lparr>pq_UserID = UserID cl, pq_SessionID = SessionID cl,
                                pq_Reason = pb_Reason req, pq_DurationMin = minutes, pq_IsBreakGlass = False\<rparr>;
                    ret (case session of
                           Inl ErrPIMAlreadyActive \<Rightarrow> Failure 409 ''PIM_ALREADY_ACTIVE''
                         | Inl ErrReasonTooShort \<Rightarrow> Failure 400 ''REASON_TOO_SHORT''
                         | Inl ErrInvalidDuration \<Rightarrow> Failure 400 ''INVALID_DURATION''
                         | Inl _ \<Rightarrow> Failure 500 ''INTERNAL_ERROR''
                         | Inr s \<Rightarrow> Reply 201 (PIMReply (toPIMResponse s)))
                  }))"

definition h_GetActivePIM :: "ext \<Rightarrow> payload handler" where
  "h_GetActivePIM E claims r =
     (case claims of
        None \<Rightarrow> fails 401 ''UNAUTHORIZED''
      | Some cl \<Rightarrow> do {
          session \<leftarrow> pim_GetActive E (UserID cl);
          ret (case session of
                 Inl ErrPIMNotActive \<Rightarrow> Reply 200 (ActivePIMReply None)
               | Inl _ \<Rightarrow> Failure 500 ''INTERNAL_ERROR''
               | Inr s \<Rightarrow> Reply 200 (ActivePIMReply (Some (toPIMResponse s))))
        })"

definition h_EndPIM :: "ext \<Rightarrow> payload handler" where
  "h_EndPIM E claims r =
     (case claims of
        None \<Rightarrow> fails 401 ''UNAUTHORIZED''
      | Some cl \<Rightarrow> do {
          active \<leftarrow> pim_GetActive E (UserID cl);
          (case active of
             Inl ErrPIMNotActive \<Rightarrow> fails 404 ''PIM_NOT_ACTIVE''
           | Inl _ \<Rightarrow> fails 500 ''INTERNAL_ERROR''
           | Inr active \<Rightarrow> do {
               res \<leftarrow> pim_End E (UserID cl) (SessionID cl) (ap_ID active);
               ret (case res of Inl _ \<Rightarrow> Failure 500 ''INTERNAL_ERROR'' | Inr _ \<Rightarrow> Reply 204 NoContent)
             })
        })"

definition h_BreakGlass :: "ext \<Rightarrow> payload handler" where
  "h_BreakGlass E claims r =
     (case claims of
        None \<Rightarrow> fails 401 ''UNAUTHORIZED''
      | Some cl \<Rightarrow>
          if Role cl \<noteq> ''admin'' then fails 403 ''FORBIDDEN''
          else (case decode breakGlassBody_fields \<lparr>gb_Reason = ''''\<rparr> r of
                  None \<Rightarrow> fails 400 ''INVALID_REQUEST''
                | Some req \<Rightarrow> do {
                    session \<leftarrow> pim_Request E \<lparr>pq_UserID = UserID cl, pq_SessionID = SessionID cl,
                                pq_Reason = gb_Reason req, pq_DurationMin = 60, pq_IsBreakGlass = True\<rparr>;
                    ret (case session of
                           Inl ErrPIMAlreadyActive \<Rightarrow> Failure 409 ''PIM_ALREADY_ACTIVE''
                         | Inl ErrReasonTooShort \<Rightarrow> Failure 400 ''REASON_TOO_SHORT''
                         | Inl _ \<Rightarrow> Failure 500 ''INTERNAL_ERROR''
                         | Inr s \<Rightarrow> Reply 201 (BreakGlassReply (toPIMResponse s)))
                  }))"

section \<open>The audit log\<close>

definition h_ListAudit :: "ext \<Rightarrow> payload handler" where
  "h_ListAudit E claims r =
     (case claims of
        None \<Rightarrow> fails 401 ''UNAUTHORIZED''
      | Some cl \<Rightarrow> do {
          result \<leftarrow> audit_Query E \<lparr>qp_UserID = (if Role cl \<noteq> ''admin'' then UserID cl else ''''),
                     qp_Severity = r_query r ''severity'', qp_ActionType = r_query r ''action_type'',
                     qp_Page = atoi_value (r_query r ''page''), qp_PerPage = atoi_value (r_query r ''per_page'')\<rparr>;
          ret (case result of Inl _ \<Rightarrow> Failure 500 ''INTERNAL_ERROR'' | Inr p \<Rightarrow> Reply 200 (AuditReply p))
        })"

definition h_ExportAudit :: "ext \<Rightarrow> payload handler" where
  "h_ExportAudit E claims r =
     (case claims of
        None \<Rightarrow> fails 401 ''UNAUTHORIZED''
      | Some cl \<Rightarrow>
          if Role cl \<noteq> ''admin'' then fails 403 ''FORBIDDEN''
          else do {
            let format = (if r_query r ''format'' = '''' then ''json'' else r_query r ''format'');
            let params = \<lparr>qp_UserID = '''', qp_Severity = '''', qp_ActionType = '''', qp_Page = 1, qp_PerPage = 200\<rparr>;
            (if format = ''csv'' then do {
               text \<leftarrow> audit_ExportCSV E params;
               ret (case text of Inl _ \<Rightarrow> Failure 500 ''INTERNAL_ERROR'' | Inr s \<Rightarrow> Reply 200 (FileReply ''text/csv'' s))
             }
             else do {
               text \<leftarrow> audit_ExportJSON E params;
               ret (case text of Inl _ \<Rightarrow> Failure 500 ''INTERNAL_ERROR''
                      | Inr s \<Rightarrow> Reply 200 (FileReply ''application/json'' s))
             })
          })"

section \<open>The setup wizard\<close>

definition h_SetupStatus :: "payload response action" where
  "h_SetupStatus = do {
     st \<leftarrow> GetStatus;
     ret (case st of Inl _ \<Rightarrow> Failure 500 ''INTERNAL_ERROR'' | Inr st \<Rightarrow> Reply 200 (StatusReply st))
   }"

definition h_CreateAdmin :: "ext \<Rightarrow> request \<Rightarrow> payload response action" where
  "h_CreateAdmin E r =
     (case decode createAdminRequest_fields \<lparr>ab_Email = '''', ab_Password = ''''\<rparr> r of
        None \<Rightarrow> fails 400 ''INVALID_REQUEST''
      | Some req \<Rightarrow> do {
          result \<leftarrow> CreateAdmin E \<lparr>ca_Email = ab_Email req, ca_Password = ab_Password req\<rparr>;
          ret (case result of
                 Inl ErrSetupAlreadyDone \<Rightarrow> Failure 409 ''SETUP_DONE''
               | Inl ErrAdminExists \<Rightarrow> Failure 409 ''ADMIN_EXISTS''
               | Inl SetupErrInvalidEmail \<Rightarrow> Failure 400 ''INVALID_EMAIL''
               | Inl SetupErrPasswordTooShort \<Rightarrow> Failure 400 ''PASSWORD_TOO_SHORT''
               | Inl _ \<Rightarrow> Failure 500 ''INTERNAL_ERROR''
               | Inr a \<Rightarrow> Reply 201 (AdminReply (cr_UserID a) (cr_Email a)))
        })"

definition h_CompleteSetup :: "request \<Rightarrow> payload response action" where
  "h_CompleteSetup r =
     (case decode completeSetupRequest_fields \<lparr>sb_AdminID = ''''\<rparr> r of
        None \<Rightarrow> fails 400 ''INVALID_REQUEST''
      | Some req \<Rightarrow> do {
          res \<leftarrow> Complete (sb_AdminID req);
          ret (case res of
                 Inl ErrSetupAlreadyDone \<Rightarrow> Failure 409 ''SETUP_DONE''
               | Inl _ \<Rightarrow> Failure 500 ''INTERNAL_ERROR''
               | Inr _ \<Rightarrow> Reply 200 CompletedReply)
        })"

section \<open>User administration\<close>

text \<open>The guard that five of the handlers open with.\<close>

definition is_admin :: "claims option \<Rightarrow> bool" where
  "is_admin claims = (case claims of None \<Rightarrow> False | Some cl \<Rightarrow> Role cl = ''admin'')"

definition h_ListUsers :: "ext \<Rightarrow> payload handler" where
  "h_ListUsers E claims r =
     (if \<not> is_admin claims then fails 403 ''FORBIDDEN''
      else do {
        us \<leftarrow> users_List E;
        ret (case us of Inl _ \<Rightarrow> Failure 500 ''INTERNAL_ERROR'' | Inr us \<Rightarrow> Reply 200 (UsersReply us))
      })"

definition h_GetUser :: "ext \<Rightarrow> payload handler" where
  "h_GetUser E claims r =
     (case claims of
        None \<Rightarrow> fails 401 ''UNAUTHORIZED''
      | Some cl \<Rightarrow>
          let userID = r_param r ''id'' in
          if Role cl \<noteq> ''admin'' \<and> userID \<noteq> UserID cl then fails 403 ''FORBIDDEN''
          else do {
            u \<leftarrow> users_Get E userID;
            ret (case u of
                   Inl ErrUserNotFound \<Rightarrow> Failure 404 ''NOT_FOUND''
                 | Inl _ \<Rightarrow> Failure 500 ''INTERNAL_ERROR''
                 | Inr u \<Rightarrow> Reply 200 (UserReply u))
          })"

definition h_CreateUser :: "ext \<Rightarrow> payload handler" where
  "h_CreateUser E claims r =
     (case claims of
        None \<Rightarrow> fails 403 ''FORBIDDEN''
      | Some cl \<Rightarrow>
          if \<not> is_admin claims then fails 403 ''FORBIDDEN''
          else (case decode createUserRequest_fields \<lparr>cb_Email = '''', cb_Password = '''', cb_Role = ''''\<rparr> r of
                  None \<Rightarrow> fails 400 ''INVALID_REQUEST''
                | Some req \<Rightarrow> do {
                    u \<leftarrow> users_Create E \<lparr>cp_Email = cb_Email req, cp_Password = cb_Password req,
                           cp_Role = cb_Role req, cp_RequestorID = UserID cl\<rparr>;
                    ret (case u of
                           Inl ErrEmailTaken \<Rightarrow> Failure 409 ''EMAIL_TAKEN''
                         | Inl ErrInvalidEmail \<Rightarrow> Failure 400 ''INVALID_EMAIL''
                         | Inl ErrPasswordTooShort \<Rightarrow> Failure 400 ''PASSWORD_TOO_SHORT''
                         | Inl ErrInvalidRole \<Rightarrow> Failure 400 ''INVALID_ROLE''
                         | Inl _ \<Rightarrow> Failure 500 ''INTERNAL_ERROR''
                         | Inr u \<Rightarrow> Reply 201 (UserReply u))
                  }))"

definition h_UpdateUserRole :: "ext \<Rightarrow> payload handler" where
  "h_UpdateUserRole E claims r =
     (case claims of
        None \<Rightarrow> fails 403 ''FORBIDDEN''
      | Some cl \<Rightarrow>
          if \<not> is_admin claims then fails 403 ''FORBIDDEN''
          else (case decode updateRoleRequest_fields \<lparr>ub_Role = ''''\<rparr> r of
                  None \<Rightarrow> fails 400 ''INVALID_REQUEST''
                | Some req \<Rightarrow> do {
                    u \<leftarrow> users_UpdateRole E \<lparr>up_UserID = r_param r ''id'', up_NewRole = ub_Role req,
                           up_RequestorID = UserID cl\<rparr>;
                    ret (case u of
                           Inl ErrUserNotFound \<Rightarrow> Failure 404 ''NOT_FOUND''
                         | Inl ErrInvalidRole \<Rightarrow> Failure 400 ''INVALID_ROLE''
                         | Inl ErrLastAdmin \<Rightarrow> Failure 409 ''LAST_ADMIN''
                         | Inl _ \<Rightarrow> Failure 500 ''INTERNAL_ERROR''
                         | Inr u \<Rightarrow> Reply 200 (UserReply u))
                  }))"

definition h_DeactivateUser :: "ext \<Rightarrow> payload handler" where
  "h_DeactivateUser E claims r =
     (case claims of
        None \<Rightarrow> fails 403 ''FORBIDDEN''
      | Some cl \<Rightarrow>
          if \<not> is_admin claims then fails 403 ''FORBIDDEN''
          else do {
            res \<leftarrow> users_Deactivate E (r_param r ''id'') (UserID cl);
            ret (case res of
                   Inl ErrCannotDeleteSelf \<Rightarrow> Failure 409 ''CANNOT_DELETE_SELF''
                 | Inl ErrLastAdmin \<Rightarrow> Failure 409 ''LAST_ADMIN''
                 | Inl ErrUserNotFound \<Rightarrow> Failure 404 ''NOT_FOUND''
                 | Inl _ \<Rightarrow> Failure 500 ''INTERNAL_ERROR''
                 | Inr _ \<Rightarrow> Reply 204 NoContent)
          })"

section \<open>Statements only\<close>

lemmas admin_handler_defs = h_RequestPIM_def h_GetActivePIM_def h_EndPIM_def h_BreakGlass_def h_ListAudit_def
  h_ExportAudit_def h_SetupStatus_def h_CreateAdmin_def h_CompleteSetup_def h_ListUsers_def h_GetUser_def
  h_CreateUser_def h_UpdateUserRole_def h_DeactivateUser_def

lemma steady_case_pim_error [steady_intros]:
  "steady a \<Longrightarrow> steady b \<Longrightarrow> steady (case e of ErrPIMNotActive \<Rightarrow> a | _ \<Rightarrow> b)"
  by (cases e) auto

lemma admin_handlers_steady [steady_intros]:
  "steady (h_RequestPIM E c r)" "steady (h_GetActivePIM E c r)" "steady (h_EndPIM E c r)"
  "steady (h_BreakGlass E c r)" "steady (h_ListAudit E c r)" "steady (h_ExportAudit E c r)"
  "steady h_SetupStatus" "steady (h_CreateAdmin E r)" "steady (h_CompleteSetup r)"
  "steady (h_ListUsers E c r)" "steady (h_GetUser E c r)" "steady (h_CreateUser E c r)"
  "steady (h_UpdateUserRole E c r)" "steady (h_DeactivateUser E c r)"
  unfolding admin_handler_defs by (intro steady_intros)+

end
