(* ===== verification/HandlerHost.thy ===== *)
theory HandlerHost
  imports Handler
begin

text \<open>
  The handlers that look at or act on the machine: metrics and processes (\<open>internal/handler/metrics.go\<close>,
  \<open>kill_linux.go\<close>), services (\<open>services.go\<close>), logs (\<open>logs.go\<close>), alerts (\<open>alerts.go\<close>) and the update status
  (\<open>system.go\<close>). What they read is an argument; what they do to the machine is recorded by \<open>issue\<close>.
\<close>

section \<open>Metrics and processes\<close>

definition h_GetSystemInfo :: "machine \<Rightarrow> time \<Rightarrow> buffer \<Rightarrow> SystemInfo option \<Rightarrow> payload response \<times> SystemInfo option" where
  "h_GetSystemInfo H now b cache =
     (case CollectSystemInfo H now cache of (info, cache') \<Rightarrow>
        (Reply 200 (SystemReply info
           (case Latest b of None \<Rightarrow> None | Some snap \<Rightarrow> Some (Networks snap, Disks snap))), cache'))"

definition h_GetMetrics :: "buffer \<Rightarrow> payload response" where
  "h_GetMetrics b =
     (case Latest b of None \<Rightarrow> Failure 503 ''METRICS_UNAVAILABLE'' | Some snap \<Rightarrow> Reply 200 (SnapshotReply snap))"

definition h_GetHistory :: "buffer \<Rightarrow> payload response" where
  "h_GetHistory b = Reply 200 (HistoryReply (History b))"

text \<open>\<open>sort.Slice\<close>, with ties in the order they came: the sort of the library is not stable.\<close>

definition sort_processes :: "string \<Rightarrow> Process list \<Rightarrow> Process list" where
  "sort_processes by ps =
     (if by = ''cpu'' then sort_key (\<lambda>p. - CPUPercent p) ps
      else if by = ''pid'' then sort_key PID ps
      else sort_key (\<lambda>p. - uint (MemBytes p)) ps)"

text \<open>A positive number up to \<open>most\<close> in the query, or the default.\<close>

definition query_limit :: "request \<Rightarrow> string \<Rightarrow> int \<Rightarrow> int \<Rightarrow> int" where
  "query_limit r name dflt most =
     (case parse_int64 (r_query r name) of
        None \<Rightarrow> dflt | Some n \<Rightarrow> if n > 0 \<and> n \<le> most then n else dflt)"

definition h_GetProcesses :: "kernel \<Rightarrow> request \<Rightarrow> payload response" where
  "h_GetProcesses K r =
     (case CollectProcesses K of
        None \<Rightarrow> Failure 500 ''INTERNAL_ERROR''
      | Some procs \<Rightarrow>
          let procs = take (nat (query_limit r ''limit'' 50 200)) (sort_processes (r_query r ''sort'') procs)
          in Reply 200 (ProcessesReply procs (length procs)))"

text \<open>\<open>signal\<close> tells whether \<open>proc.Signal(syscall.SIGTERM)\<close> succeeds.\<close>

definition killProcess :: "(int \<Rightarrow> bool) \<Rightarrow> int \<Rightarrow> bool action" where
  "killProcess signal pid = do { issue (Sigterm pid); ret (signal pid) }"

definition h_KillProcess :: "ext \<Rightarrow> (int \<Rightarrow> bool) \<Rightarrow> payload handler" where
  "h_KillProcess E signal claims r =
     (case claims of
        None \<Rightarrow> fails 401 ''UNAUTHORIZED''
      | Some cl \<Rightarrow> do {
          pimID \<leftarrow> pim_CheckAndRecord E (UserID cl);
          (case pimID of
             Inl _ \<Rightarrow> fails 403 ''PIM_REQUIRED''
           | Inr _ \<Rightarrow>
               (case parse_int64 (r_param r ''pid'') of
                  None \<Rightarrow> fails 400 ''INVALID_PID''
                | Some pid \<Rightarrow>
                    if pid \<le> 0 then fails 400 ''INVALID_PID''
                    else do {
                      done \<leftarrow> killProcess signal pid;
                      ret (if done then Reply 204 NoContent else Failure 500 ''KILL_FAILED'')
                    }))
        })"

section \<open>Services\<close>

definition svc_toLower :: "string \<Rightarrow> string" where
  "svc_toLower s = map (\<lambda>c. if CHR ''A'' \<le> c \<and> c \<le> CHR ''Z'' then char_of (of_char c + 32 :: nat) else c) s"

definition containsLower :: "string \<Rightarrow> string \<Rightarrow> bool" where
  "containsLower s sub =
     (if length sub > length s then False
      else list_ex (\<lambda>i. svc_toLower (take (length sub) (drop i s)) = svc_toLower sub) [0..<length s - length sub + 1])"

definition svc_contains :: "string \<Rightarrow> string \<Rightarrow> bool" where
  "svc_contains s sub =
     (length s > 0 \<and> length sub > 0 \<and> length s \<ge> length sub \<and> (s = sub \<or> (length s > 0 \<and> containsLower s sub)))"

definition h_ListServices :: "commands \<Rightarrow> request \<Rightarrow> payload response action" where
  "h_ListServices X r = do {
     res \<leftarrow> services_List X;
     ret (case res of
            Inl _ \<Rightarrow> Failure 500 ''INTERNAL_ERROR''
          | Inr ss \<Rightarrow>
              let state = r_query r ''state''; search = r_query r ''search'';
                  ss = (if state \<noteq> '''' then filter (\<lambda>s. sv_ActiveState s = state) ss else ss);
                  ss = (if search \<noteq> ''''
                        then filter (\<lambda>s. svc_contains (sv_Name s) search \<or> svc_contains (sv_Description s) search) ss else ss)
              in Reply 200 (ServicesReply ss (length ss)))
   }"

definition h_GetService :: "commands \<Rightarrow> request \<Rightarrow> payload response action" where
  "h_GetService X r = do {
     res \<leftarrow> services_Get X (r_param r ''name'');
     ret (case res of Inl _ \<Rightarrow> Failure 404 ''NOT_FOUND'' | Inr s \<Rightarrow> Reply 200 (ServiceReply s))
   }"

definition requiresPIM :: "Action \<Rightarrow> bool" where
  "requiresPIM action = (action = ''stop'' \<or> action = ''disable'' \<or> action = ''restart'')"

definition h_ExecuteAction :: "ext \<Rightarrow> commands \<Rightarrow> payload handler" where
  "h_ExecuteAction E X claims r =
     (case claims of
        None \<Rightarrow> fails 401 ''UNAUTHORIZED''
      | Some cl \<Rightarrow>
          let name = r_param r ''name'' in
          (case decode actionRequest_fields \<lparr>xb_Action = ''''\<rparr> r of
             None \<Rightarrow> fails 400 ''INVALID_REQUEST''
           | Some req \<Rightarrow> do {
               pimID \<leftarrow> (if requiresPIM (xb_Action req) then pim_CheckAndRecord E (UserID cl) else ret (Inr ''''));
               (case pimID of
                  Inl _ \<Rightarrow> fails 403 ''PIM_REQUIRED''
                | Inr _ \<Rightarrow> do {
                    res \<leftarrow> Execute X name (xb_Action req);
                    ret (case res of
                           Inl _ \<Rightarrow> Failure 400 ''ACTION_FAILED''
                         | Inr _ \<Rightarrow> Reply 200 (ActionReply name (xb_Action req)))
                  })
             }))"

definition h_GetServiceLogs :: "commands \<Rightarrow> request \<Rightarrow> payload response action" where
  "h_GetServiceLogs X r = do {
     let name = r_param r ''name'';
     res \<leftarrow> services_GetLogs X name (query_limit r ''lines'' 50 500);
     ret (case res of
            Inl _ \<Rightarrow> Failure 500 ''INTERNAL_ERROR''
          | Inr ls \<Rightarrow> Reply 200 (ServiceLogsReply name ls (length ls)))
   }"

section \<open>Logs\<close>

definition log_params :: "request \<Rightarrow> LogParams" where
  "log_params r = \<lparr>lp_Source = r_query r ''source'', lp_Unit = r_query r ''unit'', lp_Severity = r_query r ''severity'',
     lp_Search = r_query r ''search'', lp_Since = zero_time, lp_SinceOffset = 0, lp_Until = zero_time, lp_Lines = 0\<rparr>"

definition h_GetLogs :: "log_env \<Rightarrow> request \<Rightarrow> payload response action" where
  "h_GetLogs G r = do {
     let n = atoi_value (r_query r ''lines'');
     let params = (log_params r)\<lparr>lp_Lines := (if n \<le> 0 then 100 else n)\<rparr>;
     let params = (case parse_time False (r_query r ''since'') of
                     None \<Rightarrow> params | Some (t, off) \<Rightarrow> params\<lparr>lp_Since := t, lp_SinceOffset := off\<rparr>);
     res \<leftarrow> Read G params;
     ret (case res of
            Inl _ \<Rightarrow> Failure 500 ''INTERNAL_ERROR''
          | Inr entries \<Rightarrow> Reply 200 (LogsReply entries (length entries) params))
   }"

definition h_GetUnits :: "log_env \<Rightarrow> payload response action" where
  "h_GetUnits G = do {
     res \<leftarrow> ListUnits G;
     ret (case res of Inl _ \<Rightarrow> Failure 500 ''INTERNAL_ERROR'' | Inr us \<Rightarrow> Reply 200 (UnitsReply us))
   }"

definition h_GetSources :: "log_env \<Rightarrow> payload response" where
  "h_GetSources G = Reply 200 (SourcesReply (AvailableSources G))"

text \<open>
  The JSON export (\<open>internal/logs/export.go\<close>). A time is printed with the fraction of its second without
  trailing zeros; one past the year 9999 cannot be. No entries are a nil slice, printed \<open>null\<close>, unless
  journalctl is missing.
\<close>

definition nano_text :: "time \<Rightarrow> string" where
  "nano_text t =
     (let n = nat (t mod second); ds = rev (dropWhile (\<lambda>c. c = CHR ''0'') (rev (pad 9 n)))
      in take 19 (rfc3339 t) @ (if n = 0 then '''' else ''.'' @ ds) @ ''Z'')"

definition log_members :: "Entry \<Rightarrow> string list" where
  "log_members e = [json_string ''timestamp'' @ '': '' @ json_string (nano_text (le_Timestamp e)),
     string_member ''severity'' (le_Severity e), string_member ''unit'' (le_Unit e),
     string_member ''message'' (le_Message e), string_member ''source'' (le_Source e)] @ omit_empty ''pid'' (le_PID e)"

definition logs_ExportJSON :: "bool \<Rightarrow> Entry list \<Rightarrow> string option" where
  "logs_ExportJSON isnil es =
     (if list_ex (\<lambda>e. le_Timestamp e < 0 \<or> year_of (le_Timestamp e) > 9999) es then None
      else if es = [] then Some (if isnil then ''null'' else ''[]'')
      else Some (''['' @ indent 1
        @ join_with ('','' @ indent 1)
            (map (\<lambda>e. ''{'' @ indent 2 @ join_with ('','' @ indent 2) (log_members e) @ indent 1 @ ''}'') es)
        @ indent 0 @ '']''))"

definition journal_missing :: "log_env \<Rightarrow> LogParams \<Rightarrow> bool" where
  "journal_missing G p =
     (lp_Source p \<in> {''journald'', ''''} \<and>
      (case run_cmd G (''journalctl'' # journald_args p) of (_, Some err) \<Rightarrow> logs_isNotFound err | _ \<Rightarrow> False))"

definition h_ExportLogs :: "log_env \<Rightarrow> request \<Rightarrow> payload response action" where
  "h_ExportLogs G r = do {
     let params = (log_params r)\<lparr>lp_Lines := 500\<rparr>;
     res \<leftarrow> Read G params;
     ret (case res of
        Inl _ \<Rightarrow> Failure 500 ''INTERNAL_ERROR''
      | Inr entries \<Rightarrow>
          if r_query r ''format'' = ''json''
          then (case logs_ExportJSON (\<not> journal_missing G params) entries of
                  None \<Rightarrow> Failure 500 ''INTERNAL_ERROR''
                | Some s \<Rightarrow> Reply 200 (FileReply ''application/json'' s))
          else Reply 200 (FileReply ''text/plain; charset=utf-8'' (ExportTXT entries)))
   }"

text \<open>The token of the WebSocket routes: the query parameter, else the header, which must start with \<open>Bearer\<close>.\<close>

definition extractBearerFromHeader :: "request \<Rightarrow> string" where
  "extractBearerFromHeader r =
     (let h = r_header r ''Authorization'' in if length h > 7 \<and> take 7 h = ''Bearer '' then drop 7 h else '''')"

definition ws_token :: "request \<Rightarrow> string" where
  "ws_token r = (if r_query r ''token'' = '''' then extractBearerFromHeader r else r_query r ''token'')"

section \<open>Alerts\<close>

definition threshold_fields :: "Threshold field list" where
  "threshold_fields = [(''Type'', string_value (\<lambda>s t. t\<lparr>th_Type := s\<rparr>)),
     (''Warning'', float_value_of (\<lambda>x t. t\<lparr>Warning := x\<rparr>)), (''Critical'', float_value_of (\<lambda>x t. t\<lparr>Critical := x\<rparr>)),
     (''Enabled'', bool_value (\<lambda>b t. t\<lparr>Enabled := b\<rparr>))]"

definition decode_thresholds :: "request \<Rightarrow> Threshold list option" where
  "decode_thresholds r =
     (case first_json (r_body r) of
        None \<Rightarrow> None
      | Some v \<Rightarrow> store_array (store_struct threshold_fields
          \<lparr>th_Type = '''', Warning = 0, Critical = 0, Enabled = False\<rparr>) v)"

definition bad_threshold :: "Threshold \<Rightarrow> bool" where
  "bad_threshold t = (Warning t \<ge> Critical t \<or> Warning t < 0 \<or> Critical t > 100)"

definition h_ListActive :: "ext \<Rightarrow> payload response action" where
  "h_ListActive E = do {
     items \<leftarrow> ListActive E;
     ret (case items of Inl _ \<Rightarrow> Failure 500 ''INTERNAL_ERROR'' | Inr items \<Rightarrow> Reply 200 (AlertsReply items (length items)))
   }"

definition h_ListAll :: "ext \<Rightarrow> payload response action" where
  "h_ListAll E = do {
     items \<leftarrow> ListAll E 100;
     ret (case items of Inl _ \<Rightarrow> Failure 500 ''INTERNAL_ERROR'' | Inr items \<Rightarrow> Reply 200 (AlertsReply items (length items)))
   }"

definition h_GetThresholds :: "alert_svc \<Rightarrow> payload response" where
  "h_GetThresholds s = Reply 200 (ThresholdsReply (GetThresholds s))"

definition h_UpdateThresholds :: "claims option \<Rightarrow> request \<Rightarrow> alert_svc \<Rightarrow> payload response \<times> alert_svc" where
  "h_UpdateThresholds claims r s =
     (case claims of
        None \<Rightarrow> (Failure 403 ''FORBIDDEN'', s)
      | Some cl \<Rightarrow>
          if Role cl \<noteq> ''admin'' then (Failure 403 ''FORBIDDEN'', s)
          else (case decode_thresholds r of
                  None \<Rightarrow> (Failure 400 ''INVALID_REQUEST'', s)
                | Some ts \<Rightarrow>
                    if list_ex bad_threshold ts then (Failure 400 ''INVALID_THRESHOLD'', s)
                    else (let s' = UpdateThresholds ts s in (Reply 200 (ThresholdsReply (GetThresholds s')), s'))))"

section \<open>Update status\<close>

definition h_GetUpdateStatus :: "claims option \<Rightarrow> UpdateStatus \<Rightarrow> payload response" where
  "h_GetUpdateStatus claims st =
     (case claims of
        None \<Rightarrow> Failure 403 ''FORBIDDEN''
      | Some cl \<Rightarrow> if Role cl \<noteq> ''admin'' then Failure 403 ''FORBIDDEN'' else Reply 200 (UpdateReply st))"

section \<open>What is done to the machine\<close>


lemma CheckAndRecord_effect:
  assumes "run_state (pim_CheckAndRecord E u) w = (r, w')"
  shows "issued w' = issued w" "clock w' = clock w"
    "r = Inr i \<Longrightarrow> \<exists>p \<in> set (pims (db w)). p_id p = i \<and> pim_active (current_timestamp (clock w)) u p"
    "r = Inr i \<Longrightarrow> faults w = [] \<Longrightarrow> pims (db w') = map (bump_action i) (pims (db w))"
proof -
  show "issued w' = issued w" "clock w' = clock w"
    using steadyD [OF pim_CheckAndRecord_steady assms] by simp_all
  let ?q = "q_GetActivePIMSessionByUserID u (current_timestamp (clock w)) (db w)"
  obtain x w1 where x: "run_state (db_read_now (q_GetActivePIMSessionByUserID u)) w = (x, w1)" by fastforce
  note fr = db_read_now_frame [OF x]
  assume r: "r = Inr i"
  then obtain p where p: "x = Inr p" "p_id p = i"
    using assms x by (auto simp: pim_CheckAndRecord_def pim_GetActive_def split: sum.splits sql_error.splits prod.splits)
  with fr have q: "?q = Inr p" by auto
  then show "\<exists>p \<in> set (pims (db w)). p_id p = i \<and> pim_active (current_timestamp (clock w)) u p"
    using p by (auto simp: q_GetActivePIMSessionByUserID_def first_row_def split: option.splits dest: find_Some_in)
  assume "faults w = []"
  then show "pims (db w') = map (bump_action i) (pims (db w))"
    using assms r p q by (auto simp: pim_CheckAndRecord_def pim_RecordAction_def run_GetActive
        q_GetActivePIMSessionByUserID_def first_row_def q_IncrementPIMActionCount_def update_rows_def bump_fold
        split: option.splits)
qed


lemma KillProcess_issued:
  assumes "run_state (h_KillProcess E signal claims r) w = (resp, w')"
  shows "issued w' = issued w \<or>
    (\<exists>cl p pid. claims = Some cl \<and> p \<in> set (pims (db w)) \<and> pim_active (current_timestamp (clock w)) (UserID cl) p
       \<and> pid > 0 \<and> issued w' = issued w @ [Sigterm pid]
       \<and> (faults w = [] \<longrightarrow> pims (db w') = map (bump_action (p_id p)) (pims (db w))))"
proof (cases claims)
  case None
  with assms show ?thesis by (simp add: h_KillProcess_def)
next
  case (Some cl)
  obtain x w1 where x: "run_state (pim_CheckAndRecord E (UserID cl)) w = (x, w1)" by fastforce
  note eff = CheckAndRecord_effect [OF x]
  show ?thesis
  proof (cases x)
    case (Inl e)
    with assms Some x eff(1) show ?thesis by (simp add: h_KillProcess_def)
  next
    case (Inr i)
    from eff(3) [OF this] obtain p where p: "p \<in> set (pims (db w))" "p_id p = i"
      "pim_active (current_timestamp (clock w)) (UserID cl) p" by blast
    have "db w' = db w1 \<and> (issued w' = issued w1 \<or> (\<exists>pid > 0. issued w' = issued w1 @ [Sigterm pid]))"
      using assms Some x Inr
      by (auto simp: h_KillProcess_def killProcess_def split: option.splits if_splits)
    then show ?thesis using Some p eff(1) eff(4) [OF Inr] by auto
  qed
qed

lemma ExecuteAction_issued:
  assumes "run_state (h_ExecuteAction E X claims r) w = (resp, w')"
  shows "issued w' = issued w \<or>
    (\<exists>cl name action. claims = Some cl \<and> issued w' = issued w @ [Command [''systemctl'', action, name]]
       \<and> Execute_command name action = Inr [''systemctl'', action, name]
       \<and> (requiresPIM action \<longrightarrow> (\<exists>p \<in> set (pims (db w)). pim_active (current_timestamp (clock w)) (UserID cl) p
            \<and> (faults w = [] \<longrightarrow> pims (db w') = map (bump_action (p_id p)) (pims (db w))))))"
proof (cases claims)
  case None
  with assms show ?thesis by (simp add: h_ExecuteAction_def)
next
  case (Some cl)
  show ?thesis
  proof (cases "decode actionRequest_fields \<lparr>xb_Action = ''''\<rparr> r")
    case None
    with assms Some show ?thesis by (simp add: h_ExecuteAction_def Let_def)
  next
    case (Some req)
    define action where "action = xb_Action req"
    define name where "name = r_param r ''name''"
    obtain x w1 where x: "run_state (if requiresPIM action then pim_CheckAndRecord E (UserID cl) else ret (Inr '''')) w = (x, w1)"
      by fastforce
    have same: "issued w1 = issued w"
      using x CheckAndRecord_effect(1) by (auto split: if_splits)
    show ?thesis
    proof (cases x)
      case (Inl e)
      with assms \<open>claims = Some cl\<close> Some x same show ?thesis by (simp add: h_ExecuteAction_def Let_def action_def)
    next
      case (Inr i)
      have pim: "requiresPIM action \<Longrightarrow> \<exists>p \<in> set (pims (db w)). pim_active (current_timestamp (clock w)) (UserID cl) p
            \<and> (faults w = [] \<longrightarrow> pims (db w1) = map (bump_action (p_id p)) (pims (db w)))"
      proof -
        assume "requiresPIM action"
        with x Inr have c: "run_state (pim_CheckAndRecord E (UserID cl)) w = (Inr i, w1)" by simp
        from CheckAndRecord_effect(3) [OF c refl] CheckAndRecord_effect(4) [OF c refl] show ?thesis by blast
      qed
      have run: "run_state (Execute X name action) w1 = (res, w') \<Longrightarrow> db w' = db w1 \<and> (issued w' = issued w1
          \<or> Execute_command name action = Inr [''systemctl'', action, name]
            \<and> issued w' = issued w1 @ [Command [''systemctl'', action, name]])" for res
        by (auto simp: Execute_def Execute_command_def split: if_splits)
      obtain res w2 where res: "run_state (Execute X name action) w1 = (res, w2)" by fastforce
      then have "w' = w2"
        using assms \<open>claims = Some cl\<close> Some x Inr by (simp add: h_ExecuteAction_def Let_def action_def name_def)
      with run [of res] res have eff: "db w' = db w1" "issued w' = issued w
          \<or> Execute_command name action = Inr [''systemctl'', action, name]
            \<and> issued w' = issued w @ [Command [''systemctl'', action, name]]"
        using same by simp_all
      show ?thesis
      proof (cases "issued w' = issued w")
        case False
        with eff(2) have "Execute_command name action = Inr [''systemctl'', action, name]"
          "issued w' = issued w @ [Command [''systemctl'', action, name]]" by simp_all
        moreover have "requiresPIM action \<longrightarrow> (\<exists>p \<in> set (pims (db w)). pim_active (current_timestamp (clock w)) (UserID cl) p
            \<and> (faults w = [] \<longrightarrow> pims (db w') = map (bump_action (p_id p)) (pims (db w))))"
          using pim eff(1) by simp
        ultimately show ?thesis using \<open>claims = Some cl\<close> by blast
      qed simp
    qed
  qed
qed

text \<open>The search of the service list is the search for a substring that ignores the case of ASCII letters.\<close>

lemma svc_toLower_eq: "svc_toLower s = to_lower s"
proof -
  have "(CHR ''A'' \<le> c \<and> c \<le> CHR ''Z'') = (65 \<le> (of_char c :: nat) \<and> (of_char c :: nat) \<le> 90)" for c
    by (simp add: less_eq_char_def)
  then show ?thesis by (simp add: svc_toLower_def to_lower_def lower_char_def)
qed

text \<open>C37: The service search, written with its own lower-casing and a loop over all positions, finds exactly the
  names and descriptions that contain the search text as a substring up to the case of ASCII letters; an empty
  text is never found.\<close>

theorem service_search_is_substring:
  "svc_contains s sub \<longleftrightarrow> sub \<noteq> '''' \<and> sublist (to_lower sub) (to_lower s)"
proof -
  have pos: "containsLower s sub \<longleftrightarrow> sublist (to_lower sub) (to_lower s)"
  proof
    assume "containsLower s sub"
    then have "\<exists>i \<in> set [0..<length s - length sub + 1]. to_lower (take (length sub) (drop i s)) = to_lower sub"
      unfolding containsLower_def svc_toLower_eq list_ex_iff by (simp only: split: if_splits)
    then obtain i where i: "to_lower (take (length sub) (drop i s)) = to_lower sub" by blast
    have "to_lower s = to_lower (take i s) @ to_lower (take (length sub) (drop i s))
        @ to_lower (drop (length sub) (drop i s))"
      unfolding to_lower_def by (metis append_take_drop_id map_append)
    with i show "sublist (to_lower sub) (to_lower s)" unfolding sublist_def by metis
  next
    assume "sublist (to_lower sub) (to_lower s)"
    then obtain p q where s: "to_lower s = p @ to_lower sub @ q" unfolding sublist_def by blast
    then have len: "length s = length p + length sub + length q"
      unfolding to_lower_def by (metis add.assoc length_append length_map)
    have "to_lower (take (length sub) (drop (length p) s)) = take (length sub) (drop (length p) (to_lower s))"
      unfolding to_lower_def by (simp add: take_map drop_map)
    also have "\<dots> = to_lower sub" using s by (simp add: to_lower_def)
    finally show "containsLower s sub" using len
      by (auto simp: containsLower_def svc_toLower_eq list_ex_iff intro!: bexI [of _ "length p"])
  qed
  have self: "sublist (to_lower s) (to_lower s)" by simp
  have len: "sublist (to_lower sub) (to_lower s) \<Longrightarrow> length sub \<le> length s"
    unfolding to_lower_def by (drule sublist_length_le) simp
  show ?thesis using pos self len by (auto simp: svc_contains_def)
qed

end
