(* ===== verification/Server.thy ===== *)
theory Server
  imports HandlerAuth HandlerAdmin HandlerHost
begin

text \<open>
  The server that puts the services together (\<open>internal/server/server.go\<close>, \<open>internal/health/health.go\<close>): the
  routes as the handlers register them, the guard that closes the API until the setup is finished, and one
  request as a step of the server's state. Which route a request takes is chi's decision; \<open>handle\<close> takes the
  endpoint as an argument, and \<open>routed\<close> says what chi documents about it.
\<close>

section \<open>Routes\<close>

datatype endpoint =
    EP_Health | EP_WsMetrics
  | EP_Login | EP_Refresh | EP_Logout | EP_ListSessions | EP_RevokeSession
  | EP_VerifyMFA | EP_ListCredentials | EP_InitiateTOTP | EP_ConfirmTOTP | EP_RemoveCredential
  | EP_SetupStatus | EP_CreateAdmin | EP_CompleteSetup
  | EP_ListUsers | EP_GetUser | EP_CreateUser | EP_UpdateUserRole | EP_DeactivateUser
  | EP_RequestPIM | EP_GetActivePIM | EP_EndPIM | EP_BreakGlass | EP_ListAudit | EP_ExportAudit
  | EP_SystemInfo | EP_Metrics | EP_History | EP_Processes | EP_KillProcess

type_synonym route = "string \<times> string \<times> endpoint"

definition auth_routes :: "route list" where
  "auth_routes = [(''POST'', ''/auth/login'', EP_Login), (''POST'', ''/auth/refresh'', EP_Refresh),
     (''POST'', ''/auth/logout'', EP_Logout), (''GET'', ''/auth/sessions'', EP_ListSessions),
     (''DELETE'', ''/auth/sessions/{id}'', EP_RevokeSession)]"

definition mfa_routes :: "route list" where
  "mfa_routes = [(''POST'', ''/auth/mfa/verify'', EP_VerifyMFA), (''GET'', ''/auth/mfa/credentials'', EP_ListCredentials),
     (''POST'', ''/auth/mfa/credentials/totp/initiate'', EP_InitiateTOTP),
     (''POST'', ''/auth/mfa/credentials/totp/confirm'', EP_ConfirmTOTP),
     (''DELETE'', ''/auth/mfa/credentials/{id}'', EP_RemoveCredential)]"

definition setup_routes :: "route list" where
  "setup_routes = [(''GET'', ''/setup/status'', EP_SetupStatus), (''POST'', ''/setup/admin'', EP_CreateAdmin),
     (''POST'', ''/setup/complete'', EP_CompleteSetup), (''GET'', ''/users'', EP_ListUsers),
     (''GET'', ''/users/{id}'', EP_GetUser), (''POST'', ''/users'', EP_CreateUser),
     (''PUT'', ''/users/{id}/role'', EP_UpdateUserRole), (''DELETE'', ''/users/{id}'', EP_DeactivateUser)]"

definition pim_routes :: "route list" where
  "pim_routes = [(''POST'', ''/pim/request'', EP_RequestPIM), (''GET'', ''/pim/active'', EP_GetActivePIM),
     (''DELETE'', ''/pim/active'', EP_EndPIM), (''POST'', ''/pim/break-glass'', EP_BreakGlass),
     (''GET'', ''/audit'', EP_ListAudit), (''GET'', ''/audit/export'', EP_ExportAudit)]"

definition metrics_routes :: "route list" where
  "metrics_routes = [(''GET'', ''/system/info'', EP_SystemInfo), (''GET'', ''/system/metrics'', EP_Metrics),
     (''GET'', ''/system/metrics/history'', EP_History), (''GET'', ''/system/processes'', EP_Processes),
     (''DELETE'', ''/system/processes/{pid}'', EP_KillProcess)]"

definition routes :: "route list" where
  "routes = [(''GET'', ''/api/v1/health'', EP_Health), (''GET'', ''/ws/metrics'', EP_WsMetrics)]
     @ map (\<lambda>(m, p, e). (m, ''/api/v1'' @ p, e))
         (auth_routes @ mfa_routes @ setup_routes @ pim_routes @ metrics_routes)"

text \<open>A route pattern: a parameter in braces stands for one segment of the path.\<close>

definition segment_matches :: "string \<Rightarrow> string \<Rightarrow> bool" where
  "segment_matches p s = (if has_prefix p ''{'' then s \<noteq> '''' else s = p)"

definition path_matches :: "string \<Rightarrow> string \<Rightarrow> bool" where
  "path_matches pat path = list_all2 segment_matches (split_on (CHR ''/'') pat) (split_on (CHR ''/'') path)"

definition routed :: "endpoint \<Rightarrow> request \<Rightarrow> bool" where
  "routed ep r = list_ex (\<lambda>(m, p, e). e = ep \<and> r_method r = m \<and> path_matches p (r_path r)) routes"

section \<open>The guard\<close>

definition setup_allowed :: "string list" where
  "setup_allowed = [''/api/v1/setup/'', ''/api/v1/auth/login'', ''/api/v1/auth/refresh'', ''/api/v1/auth/mfa/'',
     ''/api/v1/health'']"

definition setupGuard :: "payload response action \<Rightarrow> request \<Rightarrow> payload response action" where
  "setupGuard next r = do {
     finished \<leftarrow> IsCompleted;
     (if finished then next
      else if list_ex (has_prefix (r_path r)) setup_allowed then next
      else fails 503 ''SETUP_REQUIRED'')
   }"

section \<open>One request\<close>

text \<open>
  What the handlers find outside the database: the machine, whether a signal can be sent, and whether a
  WebSocket handshake succeeds (\<open>upgrade\<close> gives the status gorilla answers with when not).
\<close>

record environment =
  en_machine :: machine
  en_signal :: "int \<Rightarrow> bool"
  en_upgrade :: "request \<Rightarrow> nat option"
  en_version :: string

record server =
  srv_world :: world
  srv_buffer :: buffer
  srv_info :: "SystemInfo option"

definition health_Handler :: "string \<Rightarrow> time \<Rightarrow> payload response" where
  "health_Handler version now = Reply 200 (HealthReply ''ok'' version now)"

text \<open>\<open>ServeMetrics\<close> up to the handshake; the hub's side of the connection is the theory \<open>Hub\<close>.\<close>

definition ServeMetrics :: "ext \<Rightarrow> string \<Rightarrow> (request \<Rightarrow> nat option) \<Rightarrow> request \<Rightarrow> payload response action" where
  "ServeMetrics E secret upgrade r = do {
     now \<leftarrow> reads clock;
     ret (case ValidateAccessToken E (ws_token r) secret now of
            Inl _ \<Rightarrow> Failure 401 ''''
          | Inr _ \<Rightarrow> (case upgrade r of None \<Rightarrow> Reply 101 NoContent | Some code \<Rightarrow> Failure code ''''))
   }"

definition info_handler :: "environment \<Rightarrow> buffer \<Rightarrow> SystemInfo option \<Rightarrow> payload handler" where
  "info_handler V b cache claims r = do {
     now \<leftarrow> reads clock;
     ret (fst (h_GetSystemInfo (en_machine V) now b cache))
   }"

text \<open>The routes under \<open>/api/v1\<close>: the public ones, and those behind \<open>Require\<close>.\<close>

fun public_api :: "ext \<Rightarrow> TokenConfig \<Rightarrow> endpoint \<Rightarrow> (request \<Rightarrow> payload response action) option" where
  "public_api E cfg EP_Login = Some (h_Login E cfg)"
| "public_api E cfg EP_Refresh = Some (h_Refresh E cfg)"
| "public_api E cfg EP_VerifyMFA = Some (h_VerifyMFA E cfg)"
| "public_api E cfg EP_SetupStatus = Some (\<lambda>r. h_SetupStatus)"
| "public_api E cfg EP_CreateAdmin = Some (h_CreateAdmin E)"
| "public_api E cfg EP_CompleteSetup = Some h_CompleteSetup"
| "public_api E cfg _ = None"

fun protected_api :: "ext \<Rightarrow> environment \<Rightarrow> buffer \<Rightarrow> SystemInfo option \<Rightarrow> endpoint \<Rightarrow> payload handler option" where
  "protected_api E V b cache EP_Logout = Some (\<lambda>_. h_Logout E)"
| "protected_api E V b cache EP_ListSessions = Some (h_ListSessions E)"
| "protected_api E V b cache EP_RevokeSession = Some (h_RevokeSession E)"
| "protected_api E V b cache EP_ListCredentials = Some (h_ListCredentials E)"
| "protected_api E V b cache EP_InitiateTOTP = Some (h_InitiateTOTPSetup E)"
| "protected_api E V b cache EP_ConfirmTOTP = Some (h_ConfirmTOTPSetup E)"
| "protected_api E V b cache EP_RemoveCredential = Some (h_RemoveCredential E)"
| "protected_api E V b cache EP_ListUsers = Some (h_ListUsers E)"
| "protected_api E V b cache EP_GetUser = Some (h_GetUser E)"
| "protected_api E V b cache EP_CreateUser = Some (h_CreateUser E)"
| "protected_api E V b cache EP_UpdateUserRole = Some (h_UpdateUserRole E)"
| "protected_api E V b cache EP_DeactivateUser = Some (h_DeactivateUser E)"
| "protected_api E V b cache EP_RequestPIM = Some (h_RequestPIM E)"
| "protected_api E V b cache EP_GetActivePIM = Some (h_GetActivePIM E)"
| "protected_api E V b cache EP_EndPIM = Some (h_EndPIM E)"
| "protected_api E V b cache EP_BreakGlass = Some (h_BreakGlass E)"
| "protected_api E V b cache EP_ListAudit = Some (h_ListAudit E)"
| "protected_api E V b cache EP_ExportAudit = Some (h_ExportAudit E)"
| "protected_api E V b cache EP_SystemInfo = Some (info_handler V b cache)"
| "protected_api E V b cache EP_Metrics = Some (\<lambda>_ _. ret (h_GetMetrics b))"
| "protected_api E V b cache EP_History = Some (\<lambda>_ _. ret (h_GetHistory b))"
| "protected_api E V b cache EP_Processes = Some (\<lambda>_ r. ret (h_GetProcesses (mc_kernel (en_machine V)) r))"
| "protected_api E V b cache EP_KillProcess = Some (h_KillProcess E (en_signal V))"
| "protected_api E V b cache _ = None"

definition serve ::
    "ext \<Rightarrow> TokenConfig \<Rightarrow> environment \<Rightarrow> buffer \<Rightarrow> SystemInfo option \<Rightarrow> endpoint \<Rightarrow> request \<Rightarrow> payload response action" where
  "serve E cfg V b cache ep r =
     (case public_api E cfg ep of
        Some h \<Rightarrow> setupGuard (h r) r
      | None \<Rightarrow>
          (case protected_api E V b cache ep of
             Some h \<Rightarrow> setupGuard (Require E (Secret cfg) h r) r
           | None \<Rightarrow>
               if ep = EP_WsMetrics then ServeMetrics E (Secret cfg) (en_upgrade V) r
               else do { now \<leftarrow> reads clock; ret (health_Handler (en_version V) now) }))"

text \<open>The first answered request for the inventory fills its cache.\<close>

definition handle :: "ext \<Rightarrow> TokenConfig \<Rightarrow> environment \<Rightarrow> endpoint \<Rightarrow> request \<Rightarrow> server \<Rightarrow> payload response \<times> server" where
  "handle E cfg V ep r s =
     (case run_state (serve E cfg V (srv_buffer s) (srv_info s) ep r) (srv_world s) of (resp, w) \<Rightarrow>
        (resp, s\<lparr>srv_world := w,
           srv_info := (case resp of
              Reply _ (SystemReply _ _) \<Rightarrow>
                snd (h_GetSystemInfo (en_machine V) (clock w) (srv_buffer s) (srv_info s))
            | _ \<Rightarrow> srv_info s)\<rparr>))"

text \<open>
  The server runs: it answers requests, time passes, the limiter is cleaned up, and the metrics service pushes
  snapshots.
\<close>

inductive server_run :: "ext \<Rightarrow> TokenConfig \<Rightarrow> server \<Rightarrow> server \<Rightarrow> bool" for E cfg where
  started: "server_run E cfg s s"
| request: "server_run E cfg s0 s \<Longrightarrow> handle E cfg V ep r s = (resp, s') \<Longrightarrow> server_run E cfg s0 s'"
| time: "server_run E cfg s0 s \<Longrightarrow> clock (srv_world s) \<le> t \<Longrightarrow>
    server_run E cfg s0 (s\<lparr>srv_world := (srv_world s)\<lparr>clock := t, faults := fs\<rparr>\<rparr>)"
| cleanup: "server_run E cfg s0 s \<Longrightarrow>
    server_run E cfg s0 (s\<lparr>srv_world := (srv_world s)\<lparr>limiter := cleanup_tick (limiter (srv_world s)) (clock (srv_world s))\<rparr>\<rparr>)"
| measured: "server_run E cfg s0 s \<Longrightarrow> server_run E cfg s0 (s\<lparr>srv_buffer := Push (srv_buffer s) snap\<rparr>)"

section \<open>What a request can do\<close>

lemma IsCompleted_frame:
  assumes "run_state IsCompleted w = (b, w')"
  shows "\<exists>fs. w' = w\<lparr>faults := fs\<rparr> \<and> (b \<longrightarrow> setup_done (db w)) \<and> (faults w = [] \<longrightarrow> fs = [] \<and> b = setup_done (db w))"
  using IsCompleted_effect [OF assms] by (cases w) fastforce

lemma setupGuard_cases:
  assumes "run_state (setupGuard next r) w = (resp, w')"
  obtains (shut) fs where "resp = Failure 503 ''SETUP_REQUIRED''" "w' = w\<lparr>faults := fs\<rparr>"
      "\<not> list_ex (has_prefix (r_path r)) setup_allowed" "faults w = [] \<longrightarrow> fs = [] \<and> \<not> setup_done (db w)"
    | (passed) fs where "run_state next (w\<lparr>faults := fs\<rparr>) = (resp, w')"
      "setup_done (db w) \<or> list_ex (has_prefix (r_path r)) setup_allowed" "faults w = [] \<longrightarrow> fs = []"
proof -
  obtain b w1 where b: "run_state IsCompleted w = (b, w1)" by fastforce
  from IsCompleted_frame [OF b] obtain fs where w1: "w1 = w\<lparr>faults := fs\<rparr>" "b \<longrightarrow> setup_done (db w)"
    "faults w = [] \<longrightarrow> fs = [] \<and> b = setup_done (db w)" by blast
  show thesis
  proof (cases "b \<or> list_ex (has_prefix (r_path r)) setup_allowed")
    case True
    then have "run_state next (w\<lparr>faults := fs\<rparr>) = (resp, w')" using assms b w1 by (simp add: setupGuard_def split: if_split_asm)
    with True w1(2,3) show thesis by (intro passed) auto
  next
    case False
    then have "resp = Failure 503 ''SETUP_REQUIRED''" "w' = w\<lparr>faults := fs\<rparr>"
      using assms b w1 by (auto simp: setupGuard_def)
    with False w1(3) show thesis by (intro shut) auto
  qed
qed

lemma Require_cases:
  assumes "run_state (Require E secret h r) w = (resp, w')"
  obtains (refused) "resp = Failure 401 ''UNAUTHORIZED''" "w' = w"
    | (admitted) token cl where "extractBearerToken r = Inr token"
      "ValidateAccessToken E token secret (clock w) = Inr cl" "run_state (h (Some cl) r) w = (resp, w')"
proof (cases "extractBearerToken r")
  case (Inl e)
  with assms show thesis by (intro refused) (auto simp: Require_def writeUnauthorized_def)
next
  case (Inr token)
  note run = run_Require [OF this, of E secret h w]
  show thesis
  proof (cases "ValidateAccessToken E token secret (clock w)")
    case (Inl e)
    with assms run show thesis by (intro refused) auto
  next
    case (Inr cl)
    with assms run \<open>extractBearerToken r = Inr token\<close> show thesis by (intro admitted) auto
  qed
qed

lemma ServeMetrics_silent [silent_intros]: "silent (ServeMetrics E s u r)"
  unfolding ServeMetrics_def by (intro silent_intros)

lemmas ServeMetrics_steady [steady_intros] = ServeMetrics_silent [THEN silent_steady]

lemma info_handler_steady [steady_intros]: "steady (info_handler V b c cl r)"
  unfolding info_handler_def by (intro steady_intros)

text \<open>A relation that every handler keeps is kept by every request.\<close>

context world_relation
begin

lemma guard: "preserves R IsCompleted \<Longrightarrow> preserves R m \<Longrightarrow> preserves R (setupGuard m r)"
  unfolding setupGuard_def by (intro composition)

lemma require: "(\<And>cl. preserves R (h (Some cl) r)) \<Longrightarrow> preserves R (Require E secret h r)"
  unfolding Require_def writeUnauthorized_def by (auto intro!: composition split: sum.split)

lemma request:
  assumes "preserves R IsCompleted" "preserves R (ServeMetrics E (Secret cfg) (en_upgrade V) r)"
    and "\<And>h. public_api E cfg ep = Some h \<Longrightarrow> preserves R (h r)"
    and "\<And>h cl. protected_api E V b c ep = Some h \<Longrightarrow> preserves R (h (Some cl) r)"
  shows "preserves R (serve E cfg V b c ep r)"
  unfolding serve_def using assms by (auto intro!: composition guard require split: option.split)

end

fun_cases public_api_Some: "public_api E cfg ep = Some h"

lemma public_steady: "public_api E cfg ep = Some h \<Longrightarrow> steady (h r)"
  by (elim public_api_Some) (auto intro: steady_intros)

lemma protected_steady: "protected_api E V b c ep = Some h \<Longrightarrow> ep \<noteq> EP_KillProcess \<Longrightarrow> steady (h cl r)"
  by (cases ep) (auto intro: steady_intros)

text \<open>Requests move the database by SQL statements, whatever else they do.\<close>

definition moves :: "world \<Rightarrow> world \<Rightarrow> bool" where
  "moves w w' = (clock w' = clock w \<and> db_steps (current_timestamp (clock w)) (db w) (db w'))"

interpretation move: world_relation moves
  by unfold_locales (auto simp: moves_def)

lemma steady_moves: "steady m \<Longrightarrow> preserves moves m"
  by (auto simp: steady_def preserves_def advances_def moves_def)

lemma KillProcess_moves: "preserves moves (h_KillProcess E signal cl r)"
proof -
  have "preserves moves (issue a)" for a by (simp add: preserves_def moves_def)
  then show ?thesis unfolding h_KillProcess_def killProcess_def
    by (intro move.composition steady_moves [OF pim_CheckAndRecord_steady])
qed

lemma serve_moves: "preserves moves (serve E cfg V b c ep r)"
proof (rule move.request)
  show "preserves moves (h (Some cl) r)" if "protected_api E V b c ep = Some h" for h cl
    using that KillProcess_moves protected_steady [OF that] by (cases "ep = EP_KillProcess") (auto intro: steady_moves)
qed (auto intro: steady_moves public_steady steady_intros)

lemma handle_moves: "handle E cfg V ep r s = (resp, s') \<Longrightarrow> moves (srv_world s) (srv_world s')"
  using move.after [OF serve_moves, of E cfg V "srv_buffer s" "srv_info s" ep r "srv_world s"]
  by (auto simp: handle_def split: prod.splits)

lemma handle_buffer: "handle E cfg V ep r s = (resp, s') \<Longrightarrow> srv_buffer s' = srv_buffer s"
  by (auto simp: handle_def split: prod.splits)

lemma handle_world: "handle E cfg V ep r s = (resp, s') \<Longrightarrow>
    run_state (serve E cfg V (srv_buffer s) (srv_info s) ep r) (srv_world s) = (resp, srv_world s')"
  by (auto simp: handle_def split: prod.splits)

end
