(* ===== verification/Frames.thy ===== *)
theory Frames
  imports AuthService Mfa Users Pim Setup AuditLog
begin

text \<open>
  Parts of the state that operations leave alone, each proved through the composition rules of
  \<open>world_relation\<close> and \<open>db_frame\<close>: the fault list stays empty, the limiter is touched only at one address,
  and, for a part of the database, the list of statements that do not write it.
\<close>

section \<open>No fault comes from nowhere\<close>

interpretation faultless: world_relation "\<lambda>w w'. faults w = [] \<longrightarrow> faults w' = []"
  by unfold_locales auto

abbreviation stays_faultless :: "'a action \<Rightarrow> bool" where
  "stays_faultless \<equiv> preserves (\<lambda>w w'. faults w = [] \<longrightarrow> faults w' = [])"

lemma faultless_basic:
  "stays_faultless (db_read q)" "stays_faultless (db_read_now q')" "stays_faultless (db_write u)"
  "stays_faultless (new_uuid E)" "stays_faultless (rand_read E k)"
  "stays_faultless (modifies (\<lambda>w. w\<lparr>limiter := f w\<rparr>))" "stays_faultless (modifies (\<lambda>w. w\<lparr>rand_ctr := g w\<rparr>))"
  by (auto simp: preserves_def db_read_def db_read_now_def db_write_def next_fault_def split: sum.splits prod.splits)

lemmas login_parts = Login_def login_verified_def createSession_def IssueTokenPair_def issueMFASessionToken_def
  record_failure_def auth_logAudit_def

lemmas mfa_parts = VerifyTOTPForLogin_def UseBackupCodeForLogin_def mfa_logAudit_def

lemma Login_faultless: "stays_faultless (Login E cfg req)"
  unfolding login_parts by (intro faultless.composition faultless_basic)

lemma createSession_faultless: "stays_faultless (createSession E cfg u em ro ip ua)"
  unfolding login_parts by (intro faultless.composition faultless_basic)

lemma factors_faultless: "stays_faultless (VerifyTOTPForLogin E u code)" "stays_faultless (UseBackupCodeForLogin E u code)"
  unfolding mfa_parts by (intro faultless.composition faultless_basic)+

section \<open>The limiter\<close>

interpretation elsewhere: world_relation "\<lambda>w w'. \<forall>a. a \<noteq> ip \<longrightarrow> limiter w' a = limiter w a" for ip
  by unfold_locales auto

interpretation unlimited: world_relation "\<lambda>w w'. limiter w' = limiter w"
  by unfold_locales auto

abbreviation only_at :: "string \<Rightarrow> 'a action \<Rightarrow> bool" where
  "only_at ip \<equiv> preserves (\<lambda>w w'. \<forall>a. a \<noteq> ip \<longrightarrow> limiter w' a = limiter w a)"

abbreviation no_limit :: "'a action \<Rightarrow> bool" where
  "no_limit \<equiv> preserves (\<lambda>w w'. limiter w' = limiter w)"

lemma no_limit_basic:
  "no_limit (db_read q)" "no_limit (db_read_now q')" "no_limit (db_write u)"
  "no_limit (new_uuid E)" "no_limit (rand_read E k)"
  by (auto simp: preserves_def db_read_def db_read_now_def db_write_def next_fault_def
      split: sum.splits prod.splits list.splits)

lemma no_limit_only_at: "no_limit m \<Longrightarrow> only_at ip m"
  by (simp add: preserves_def)

lemma only_at_limiter:
  "only_at ip (modifies (\<lambda>w. w\<lparr>limiter := Reset (limiter w) ip\<rparr>))"
  "only_at ip (modifies (\<lambda>w. w\<lparr>limiter := RecordFailure (limiter w) ip t t'\<rparr>))"
  by (auto simp: preserves_def Reset_def RecordFailure_def Let_def)

lemma Login_only_at: "lq_IPAddress req = ip \<Longrightarrow> only_at ip (Login E cfg req)"
  unfolding login_parts
  by (hypsubst, intro elsewhere.composition no_limit_basic [THEN no_limit_only_at] only_at_limiter)

lemma createSession_no_limit: "no_limit (createSession E cfg u em ro ip ua)"
  unfolding login_parts by (intro unlimited.composition no_limit_basic)

lemma factors_no_limit: "no_limit (VerifyTOTPForLogin E u code)" "no_limit (UseBackupCodeForLogin E u code)"
  unfolding mfa_parts by (intro unlimited.composition no_limit_basic)+

section \<open>The second factors of the users\<close>

interpretation creds_kept: db_frame "\<lambda>d d'. creds d' = creds d"
  by unfold_locales auto

lemmas frame_write_defs = write_defs update_rows_def insert_row_def

lemma creds_writes:
  "q_UpdateLastLogin i now d = Inr (x1, d') \<Longrightarrow> creds d' = creds d"
  "q_CreateSession i u ah rh ipo ag ex now d = Inr (x2, d') \<Longrightarrow> creds d' = creds d"
  "q_CreateAuditEntry i us ses pm ac res rs ipq me sv now d = Inr (x3, d') \<Longrightarrow> creds d' = creds d"
  by (auto simp: frame_write_defs split: statement_split)

lemma Login_creds: "preserves (\<lambda>w w'. creds (db w') = creds (db w)) (Login E cfg req)"
  unfolding login_parts
  by (intro creds_kept.composition creds_kept.silent_in [OF silent_basic(1)] creds_kept.silent_in [OF silent_basic(2)]
      creds_kept.silent_in [OF silent_basic(3)] creds_kept.silent_in [OF silent_basic(4)]
      creds_kept.silent_in [OF silent_limiter] creds_kept.statement creds_writes)

section \<open>What only administrators may change\<close>

text \<open>The accounts with their passwords and roles, the configuration, and which privileged sessions there are.\<close>

definition accounts :: "database \<Rightarrow> (string \<times> string \<times> string \<times> string \<times> int) list" where
  "accounts d = map (\<lambda>u. (u_id u, u_email u, u_password_hash u, u_role u, u_is_active u)) (users d)"

definition administered :: "database \<Rightarrow> (string \<times> string \<times> string \<times> string \<times> int) list \<times> config_row list \<times> string list" where
  "administered d = (accounts d, configs d, map p_id (pims d))"

interpretation admin_kept: db_frame "\<lambda>d d'. administered d' = administered d"
  by unfold_locales auto

abbreviation keeps_administered :: "'a action \<Rightarrow> bool" where
  "keeps_administered \<equiv> preserves (\<lambda>w w'. administered (db w') = administered (db w))"

lemma map_updated: "(\<And>r. g (f r) = g r) \<Longrightarrow> map g (map (\<lambda>r. if P r then f r else r) rs) = map g rs"
  by simp

lemma admin_writes:
  "q_UpdateLastLogin i now d = Inr (x1, d') \<Longrightarrow> administered d' = administered d"
  "q_SetBackupCodes c i now d = Inr (x2, d') \<Longrightarrow> administered d' = administered d"
  "q_CreateSession i u ah rh ipo ag ex now d = Inr (x3, d') \<Longrightarrow> administered d' = administered d"
  "q_RevokeSession i now d = Inr (x4, d') \<Longrightarrow> administered d' = administered d"
  "q_CreateMFACredential i u ty nm da now d = Inr (x5, d') \<Longrightarrow> administered d' = administered d"
  "q_UpdateMFASignCount n i now d = Inr (x6, d') \<Longrightarrow> administered d' = administered d"
  "q_DeactivateMFACredential i u now d = Inr (x7, d') \<Longrightarrow> administered d' = administered d"
  "q_EndPIMSession i now d = Inr (x8, d') \<Longrightarrow> administered d' = administered d"
  "q_IncrementPIMActionCount i now d = Inr (x9, d') \<Longrightarrow> administered d' = administered d"
  "q_CreateAuditEntry i us ses pm ac res rs ipq me sv now d = Inr (x10, d') \<Longrightarrow> administered d' = administered d"
  by (auto simp: administered_def accounts_def frame_write_defs map_updated simp del: map_map split: statement_split)

lemma admin_written:
  "keeps_administered (db_write (q_UpdateLastLogin i))" "keeps_administered (db_write (q_SetBackupCodes c i))"
  "keeps_administered (db_write (q_CreateSession i u ah rh ipo ag ex))" "keeps_administered (db_write (q_RevokeSession i))"
  "keeps_administered (db_write (q_CreateMFACredential i u ty nm da))"
  "keeps_administered (db_write (q_UpdateMFASignCount n i))"
  "keeps_administered (db_write (q_DeactivateMFACredential i u))" "keeps_administered (db_write (q_EndPIMSession i))"
  "keeps_administered (db_write (q_IncrementPIMActionCount i))"
  "keeps_administered (db_write (q_CreateAuditEntry i us ses pm ac res rs ipq me sv))"
  by (rule admin_kept.statement, erule admin_writes)+

lemmas admin_intros = admin_kept.composition admin_kept.silent_in [OF silent_basic(1)]
  admin_kept.silent_in [OF silent_basic(2)] admin_kept.silent_in [OF silent_basic(3)]
  admin_kept.silent_in [OF silent_basic(4)] admin_kept.silent_in [OF silent_limiter]
  admin_written admin_kept.machine

lemma admin_kept_auth:
  "keeps_administered (Login E cfg req)" "keeps_administered (Refresh E cfg tk ip ua)"
  "keeps_administered (createSession E cfg u em ro ip ua)"
  "keeps_administered (Logout E tk ip)" "keeps_administered (RevokeSession E sid u ip)"
  unfolding login_parts Refresh_def Logout_def RevokeSession_def by (intro admin_intros)+

lemma admin_kept_factors:
  "keeps_administered (VerifyTOTPForLogin E u code)" "keeps_administered (UseBackupCodeForLogin E u code)"
  "keeps_administered (ConfirmTOTPSetup E ps)" "keeps_administered (mfa_RemoveCredential E i u)"
  unfolding mfa_parts ConfirmTOTPSetup_def mfa_RemoveCredential_def
  by (intro admin_intros admin_kept.silent_in [OF GenerateBackupCodes_silent])+

lemma admin_kept_pim: "keeps_administered (pim_End E u sid i)" "keeps_administered (pim_CheckAndRecord E u)"
  unfolding pim_End_def pim_CheckAndRecord_def pim_RecordAction_def pim_logAudit_def
  by (intro admin_intros admin_kept.silent_in [OF pim_GetActive_silent])+

end
