(* ===== verification/Security.thy ===== *)
theory Security
  imports Server Frames
begin

text \<open>
  Properties of the authentication handlers as a client meets them: what the token of a half-finished login can
  do, how often second factors and passwords can be tried, and what a finished second factor proves.
\<close>

section \<open>The second factor\<close>

lemma run_RemoveCredential:
  assumes "faults w = []" "r_param r ''id'' \<noteq> ''''"
  shows "\<exists>w'. run_state (h_RemoveCredential E (Some cl) r) w = (Reply 204 NoContent, w') \<and> faults w' = []
    \<and> clock w' = clock w \<and> limiter w' = limiter w \<and> users (db w') = users (db w)
    \<and> creds (db w') = map (\<lambda>m. if m_id m = r_param r ''id'' \<and> m_user_id m = UserID cl
        then m\<lparr>m_is_active := 0\<rparr> else m) (creds (db w))"
proof -
  obtain d' where d': "q_DeactivateMFACredential (r_param r ''id'') (UserID cl) (current_timestamp (clock w)) (db w) = Inr ((), d')"
    and c: "creds d' = map (\<lambda>m. if m_id m = r_param r ''id'' \<and> m_user_id m = UserID cl
        then m\<lparr>m_is_active := 0\<rparr> else m) (creds (db w))" "users d' = users (db w)"
    by (simp add: q_DeactivateMFACredential_def update_rows_def)
  obtain x w' where l: "run_state (mfa_logAudit E (UserID cl) ''mfa.credential.removed'' (r_param r ''id'') ''warning'')
      (w\<lparr>db := d'\<rparr>) = (x, w')" by (metis surj_pair)
  note fr = audit_onlyD [OF mfa_logAudit_frame [OF l]]
  have "run_state (h_RemoveCredential E (Some cl) r) w = (Reply 204 NoContent, w')"
    using assms d' l by (simp add: h_RemoveCredential_def mfa_RemoveCredential_def Let_def)
  with fr c assms(1) show ?thesis by auto
qed

lemma Login_MFARequired:
  assumes "run_state (Login E cfg req) w = (Inr res, w')"
  shows "lr_MFARequired res = active_creds (db w) (lr_UserID res)"
proof -
  obtain user w1 where "db w1 = db w" and v: "run_state (login_verified E cfg req user) w1 = (Inr res, w')"
    using Login_Inr [OF assms] by blast
  with login_verified_effect(2,3) [OF v] show ?thesis by simp
qed

text \<open>C17: A password is enough to take the second factor off an account: the token that a login returns while
  the factor is still missing is accepted by \<open>DELETE /auth/mfa/credentials/{id}\<close>, which answers 204. When the
  removed credential was the only one, the account has no active factor left, and no later login is asked for
  one.\<close>

theorem second_factor_removable:
  assumes login: "run_state (Login E cfg req) w = (Inr res, w1)" and mfa: "lr_MFARequired res"
    and law: "jwt_lawful E (Secret cfg)" and live: "clock w < numeric_date E (clock w + 5 * minute)"
    and ok: "faults w = []"
    and hdr: "extractBearerToken r = Inr (lr_MFASessionToken res)" and i: "r_param r ''id'' = i" "i \<noteq> ''''"
    and only: "\<forall>m \<in> set (creds (db w)). m_user_id m = lr_UserID res \<and> m_is_active m = 1 \<longrightarrow> m_id m = i"
  shows "\<exists>w2. run_state (Require E (Secret cfg) (h_RemoveCredential E) r) w1 = (Reply 204 NoContent, w2)
    \<and> \<not> active_creds (db w2) (lr_UserID res)
    \<and> (\<forall>req' res' w3. run_state (Login E cfg req') w2 = (Inr res', w3) \<longrightarrow> lr_UserID res' = lr_UserID res \<longrightarrow>
         \<not> lr_MFARequired res')"
proof -
  have ck: "clock w1 = clock w" by (rule steadyD(1) [OF Login_steady login])
  have f1: "faults w1 = []" and c1: "creds (db w1) = creds (db w)"
    using faultless.after [OF Login_faultless login] creds_kept.after [OF Login_creds login] ok by auto
  obtain user v where v: "clock v = clock w" "run_state (login_verified E cfg req user) v = (Inr res, w1)"
    using Login_Inr [OF login] by blast
  from mfa_token_claims [OF v(2) mfa, unfolded v(1)] obtain cl where cl:
    "jwt_sign E cl (Secret cfg) = Some (lr_MFASessionToken res)" "UserID cl = lr_UserID res"
    "Issuer cl = ''ctrld''" "ExpiresAt cl = numeric_date E (clock w + 5 * minute)" by blast
  have "ValidateAccessToken E (lr_MFASessionToken res) (Secret cfg) (clock w1) = Inr cl"
    by (rule validate_own_token [OF law cl(1,3)]) (use live in \<open>simp add: ck cl(4)\<close>)
  with hdr have req: "run_state (Require E (Secret cfg) (h_RemoveCredential E) r) w1
      = run_state (h_RemoveCredential E (Some cl) r) w1"
    by (simp add: run_Require)
  obtain w2 where w2: "run_state (h_RemoveCredential E (Some cl) r) w1 = (Reply 204 NoContent, w2)"
    "creds (db w2) = map (\<lambda>m. if m_id m = i \<and> m_user_id m = lr_UserID res then m\<lparr>m_is_active := 0\<rparr> else m)
      (creds (db w))"
    using run_RemoveCredential [OF f1, of r E cl] i cl(2) c1 by auto
  have none: "\<not> active_creds (db w2) (lr_UserID res)"
    using only by (auto simp: active_creds_def w2(2))
  with w2(1) req Login_MFARequired show ?thesis by fastforce
qed

definition with_id :: "string \<Rightarrow> request \<Rightarrow> request" where
  "with_id i r = r\<lparr>r_param := (\<lambda>k. if k = ''id'' then i else '''')\<rparr>"

lemma with_id_simps [simp]: "extractBearerToken (with_id i r) = extractBearerToken r" "r_param (with_id i r) ''id'' = i"
  by (simp_all add: with_id_def extractBearerToken_def)

theorem second_factor_removable_witness:
  "\<exists>res w1 w2. run_state (Login demo_ext demo_cfg demo_login) demo_mfa_world = (Inr res, w1) \<and> lr_MFARequired res
     \<and> run_state (Require demo_ext ''key'' (h_RemoveCredential demo_ext)
         (with_id ''m1'' (demo_request (lr_MFASessionToken res)))) w1 = (Reply 204 NoContent, w2)
     \<and> \<not> active_creds (db w2) ''u1''"
proof -
  obtain res w1 where run: "run_state (Login demo_ext demo_cfg demo_login) demo_mfa_world = (Inr res, w1)"
    and mfa: "lr_MFARequired res" using demo_mfa_login by blast
  obtain user v where v: "run_state (login_verified demo_ext demo_cfg demo_login user) v = (Inr res, w1)"
    and u: "user \<in> set (users (db demo_mfa_world))" using Login_Inr [OF run] by metis
  from mfa_token_claims [OF v mfa] obtain cl where "demo_sign cl ''key'' = Some (lr_MFASessionToken res)" by auto
  note hdr = demo_bearer [OF this]
  have uid: "lr_UserID res = ''u1''" using login_verified_effect(2) [OF v] u by simp
  show ?thesis
    using second_factor_removable [OF run mfa, of "with_id ''m1'' (demo_request (lr_MFASessionToken res))" "''m1''"]
      hdr run mfa uid by (auto simp: demo_jwt_lawful)
qed

section \<open>How often a password can be tried\<close>

lemma login_verified_Inl: "run_state (login_verified E cfg req user) w = (Inl e, w') \<Longrightarrow> e = AuthInternal"
  by (auto simp: login_verified_def issueMFASessionToken_def split: sum.splits prod.splits if_splits
      dest!: createSession_effect(5))

lemma Login_limited:
  "run_state (Login E cfg req) w = (Inl ErrRateLimited, w') \<Longrightarrow>
   fst (IsBlocked (limiter w) (lq_IPAddress req) (clock w) (clock w))"
  by (auto simp: Login_def run_record_failure dest: login_verified_Inl
      split: if_splits sum.splits sql_error.splits prod.splits)

lemma h_Login_cases:
  assumes "run_state (h_Login E cfg r) w = (resp, w')"
  obtains "status resp = 400" "w' = w"
    | x req where "lq_IPAddress req = realIP r" "run_state (Login E cfg req) w = (x, w')" "resp = login_response x"
proof (cases "decode loginRequest_fields \<lparr>lb_Email = '''', lb_Password = ''''\<rparr> r")
  case None
  then show thesis using assms that(1) by (auto simp: h_Login_def)
next
  case (Some b)
  define req where "req = \<lparr>lq_Email = to_lower (trim_space (lb_Email b)), lq_Password = lb_Password b,
    lq_IPAddress = realIP r, lq_UserAgent = UserAgent r\<rparr>"
  obtain x v where x: "run_state (Login E cfg req) w = (x, v)" by fastforce
  show thesis
  proof (cases "lb_Email b = '''' \<or> lb_Password b = ''''")
    case True
    with Some assms that(1) show thesis by (auto simp: h_Login_def)
  next
    case False
    with Some assms x have "w' = v" "resp = login_response x"
      by (simp_all add: h_Login_def req_def)
    with x that(2) [of req x] show thesis by (simp add: req_def)
  qed
qed

lemma h_Login_429:
  assumes "run_state (h_Login E cfg r) w = (resp, w')" "limiter w (realIP r) = None"
  shows "status resp \<noteq> 429"
  using assms(1)
proof (cases rule: h_Login_cases)
  case (2 x req)
  then have "x \<noteq> Inl ErrRateLimited"
    using Login_limited [of E cfg req w w'] assms(2) by (auto simp: IsBlocked_def)
  then show ?thesis using 2(3) by (auto simp: login_response_def split: sum.splits auth_error.splits)
qed simp

lemma h_Login_elsewhere:
  assumes "run_state (h_Login E cfg r) w = (resp, w')" "a \<noteq> realIP r"
  shows "limiter w' a = limiter w a"
  using assms(1)
proof (cases rule: h_Login_cases)
  case (2 x req)
  with elsewhere.after [OF Login_only_at [OF 2(1)] 2(2)] assms(2) show ?thesis by blast
qed simp

fun login_attempts :: "ext \<Rightarrow> TokenConfig \<Rightarrow> request list \<Rightarrow> payload response list action" where
  "login_attempts E cfg [] = ret []"
| "login_attempts E cfg (r # rs) = do { resp \<leftarrow> h_Login E cfg r; resps \<leftarrow> login_attempts E cfg rs; ret (resp # resps) }"

text \<open>C18: The limit on failed logins is a limit per value of a header the client sends. However many logins are
  tried, from one machine and for one account, none is ever answered 429 when each carries a new
  \<open>X-Real-IP\<close>.\<close>

theorem rate_limit_by_header:
  assumes "run_state (login_attempts E cfg rs) w = (resps, w')"
    and "distinct (map (\<lambda>r. r_header r ''X-Real-IP'') rs)"
    and "\<forall>r \<in> set rs. r_header r ''X-Real-IP'' \<noteq> '''' \<and> limiter w (r_header r ''X-Real-IP'') = None"
  shows "\<forall>resp \<in> set resps. status resp \<noteq> 429"
  using assms
proof (induction rs arbitrary: w resps)
  case (Cons r rs)
  obtain resp w1 where r: "run_state (h_Login E cfg r) w = (resp, w1)" by fastforce
  obtain rest where rest: "run_state (login_attempts E cfg rs) w1 = (rest, w')" "resps = resp # rest"
    using Cons.prems(1) r by (auto split: prod.splits)
  have ip: "realIP r = r_header r ''X-Real-IP''" using Cons.prems(3) by (simp add: realIP_header)
  have free: "\<forall>q \<in> set rs. r_header q ''X-Real-IP'' \<noteq> '''' \<and> limiter w1 (r_header q ''X-Real-IP'') = None"
  proof
    fix q assume q: "q \<in> set rs"
    then have "r_header q ''X-Real-IP'' \<in> (\<lambda>r. r_header r ''X-Real-IP'') ` set rs" by simp
    moreover have "r_header r ''X-Real-IP'' \<notin> (\<lambda>r. r_header r ''X-Real-IP'') ` set rs" using Cons.prems(2) by simp
    ultimately have "r_header q ''X-Real-IP'' \<noteq> realIP r" by (metis ip)
    from h_Login_elsewhere [OF r this] q Cons.prems(3)
    show "r_header q ''X-Real-IP'' \<noteq> '''' \<and> limiter w1 (r_header q ''X-Real-IP'') = None" by simp
  qed
  have "distinct (map (\<lambda>r. r_header r ''X-Real-IP'') rs)" using Cons.prems(2) by simp
  from Cons.IH [OF rest(1) this free] have "\<forall>resp \<in> set rest. status resp \<noteq> 429" .
  with h_Login_429 [OF r] Cons.prems(3) ip rest(2) show ?case by simp
qed simp

definition demo_attempt :: "string \<Rightarrow> request" where
  "demo_attempt ip = (demo_request '''')\<lparr>r_header := (\<lambda>k. if k = ''X-Real-IP'' then ip else ''''),
     r_body := ''{'' @ json_key ''email'' @ json_string ''a@b.co'' @ '','' @ json_key ''password'' @ json_string ''guess'' @ ''}''\<rparr>"

lemma demo_attempt_header: "r_header (demo_attempt ip) ''X-Real-IP'' = ip"
  by (simp add: demo_attempt_def)

definition demo_attempts :: "request list" where
  "demo_attempts = map demo_attempt [''1'', ''2'', ''3'', ''4'', ''5'']"

theorem rate_limit_by_header_witness:
  "429 \<notin> status ` set (fst (run_state (login_attempts demo_ext demo_cfg demo_attempts) demo_world))"
proof -
  have "distinct (map (\<lambda>r. r_header r ''X-Real-IP'') demo_attempts)"
    "\<forall>r \<in> set demo_attempts. r_header r ''X-Real-IP'' \<noteq> '''' \<and> limiter demo_world (r_header r ''X-Real-IP'') = None"
    by (simp_all add: demo_attempts_def demo_attempt_header limiter_New_def)
  from rate_limit_by_header [OF prod.collapse [symmetric] this] show ?thesis by (metis (no_types, lifting) imageE)
qed

section \<open>How often a second factor can be tried\<close>

interpretation audited: world_relation audit_only
  by unfold_locales (auto simp: audit_only_def)

lemma VerifyTOTPForLogin_result:
  assumes "faults w = []"
  shows "fst (run_state (VerifyTOTPForLogin E u code) w) =
    (case q_ListMFACredentialsByUserID u (db w) of
       Inl _ \<Rightarrow> Inl MfaInternal
     | Inr cs \<Rightarrow>
         if filter (\<lambda>c. m_type c = ''totp'') cs = [] then Inl ErrMFANotSetup
         else (case find (cred_accepts E code (clock w)) (filter (\<lambda>c. m_type c = ''totp'') cs) of
                 None \<Rightarrow> Inl ErrInvalidTOTPCode
               | Some cred \<Rightarrow>
                   (case q_GetUserByID u (db w) of
                      Inl _ \<Rightarrow> Inl MfaInternal
                    | Inr user \<Rightarrow> Inr (user_claims u (u_email user) (u_role user)))))"
proof -
  have log: "run_state (mfa_logAudit E u ac rs sv) v = (x, v') \<Longrightarrow> faults v = [] \<Longrightarrow>
      faults v' = [] \<and> q_GetUserByID u (db v') = q_GetUserByID u (db v)" for ac rs sv v x v'
    using audit_onlyD(1,10) [OF mfa_logAudit_frame, of E u ac rs sv v x v'] by (simp add: q_GetUserByID_def)
  show ?thesis using assms
    by (auto simp: VerifyTOTPForLogin_def q_UpdateMFASignCount_def update_rows_def q_GetUserByID_def
        Let_def split: sum.splits option.splits prod.splits dest!: log)
qed

lemma factor_refused:
  assumes "run_state (VerifyTOTPForLogin E u code) w = (Inl e, w')" "faults w = []"
    "e = ErrInvalidTOTPCode \<or> e = ErrInvalidBackupCode"
  shows "audit_only w w'"
  using assms by (auto simp: VerifyTOTPForLogin_def Let_def dest!: mfa_logAudit_frame
      split: sum.splits option.splits prod.splits if_splits)

lemma backup_refused:
  assumes "run_state (UseBackupCodeForLogin E u code) w = (Inl e, w')" "faults w = []"
    "e = ErrInvalidTOTPCode \<or> e = ErrInvalidBackupCode"
  shows "audit_only w w'"
  using assms by (auto simp: UseBackupCodeForLogin_def Let_def dest!: mfa_logAudit_frame
      split: sum.splits option.splits prod.splits if_splits)

text \<open>The factor a body names, and the two outcomes of a request that got as far as checking it.\<close>

definition use_factor :: "ext \<Rightarrow> verifyMFARequest \<Rightarrow> string \<Rightarrow> (mfa_error + claims) action" where
  "use_factor E req u =
     (if vb_Type req = ''backup_code'' then UseBackupCodeForLogin E u (vb_Code req)
      else VerifyTOTPForLogin E u (vb_Code req))"

definition verify_body :: "request \<Rightarrow> verifyMFARequest option" where
  "verify_body r = decode verifyMFARequest_fields \<lparr>vb_MFASessionToken = '''', vb_Code = '''', vb_Type = ''''\<rparr> r"

lemma h_VerifyMFA_cases:
  assumes "run_state (h_VerifyMFA E cfg r) w = (resp, w')"
  obtains (early) "w' = w" "status resp \<in> {400, 401}"
    | (refused) req cl e where "verify_body r = Some req"
        "ValidateAccessToken E (vb_MFASessionToken req) (Secret cfg) (clock w) = Inr cl" "Role cl = ''mfa_pending''"
        "run_state (use_factor E req (UserID cl)) w = (Inl e, w')"
        "status resp = (if e = ErrInvalidTOTPCode \<or> e = ErrInvalidBackupCode then 401 else 500)"
    | (passed) req cl ucl x w1 where "verify_body r = Some req"
        "ValidateAccessToken E (vb_MFASessionToken req) (Secret cfg) (clock w) = Inr cl" "Role cl = ''mfa_pending''"
        "run_state (use_factor E req (UserID cl)) w = (Inr ucl, w1)"
        "run_state (createSession E cfg (UserID ucl) (Email ucl) (Role ucl) (realIP r) (UserAgent r)) w1 = (x, w')"
        "resp = (case x of Inl _ \<Rightarrow> Failure 500 ''INTERNAL_ERROR'' | Inr res \<Rightarrow> Reply 200 (LoginReply (full_login res)))"
proof (cases "verify_body r")
  case None
  then show thesis using assms by (intro early) (auto simp: h_VerifyMFA_def verify_body_def)
next
  case (Some req)
  note body = this [unfolded verify_body_def]
  show thesis
  proof (cases "vb_MFASessionToken req = '''' \<or> vb_Code req = ''''")
    case True
    then show thesis using assms body by (intro early) (auto simp: h_VerifyMFA_def)
  next
    case False
    show thesis
    proof (cases "ValidateAccessToken E (vb_MFASessionToken req) (Secret cfg) (clock w)")
      case (Inl e)
      then show thesis using assms body False by (intro early) (auto simp: h_VerifyMFA_def)
    next
      case (Inr cl)
      show thesis
      proof (cases "Role cl = ''mfa_pending''")
        case wrong: False
        then show thesis using assms body False Inr by (intro early) (auto simp: h_VerifyMFA_def)
      next
        case role: True
        obtain f w1 where f: "run_state (use_factor E req (UserID cl)) w = (f, w1)" by fastforce
        show thesis
        proof (cases f)
          case e: (Inl e)
          have "w' = w1 \<and> status resp = (if e = ErrInvalidTOTPCode \<or> e = ErrInvalidBackupCode then 401 else 500)"
            using assms body False Inr role f [unfolded use_factor_def] e by (auto simp: h_VerifyMFA_def)
          with Some Inr role f e show thesis by (intro refused) auto
        next
          case u: (Inr ucl)
          obtain x v where x: "run_state (createSession E cfg (UserID ucl) (Email ucl) (Role ucl) (realIP r) (UserAgent r)) w1 = (x, v)"
            by fastforce
          have "w' = v \<and> resp = (case x of Inl _ \<Rightarrow> Failure 500 ''INTERNAL_ERROR'' | Inr res \<Rightarrow> Reply 200 (LoginReply (full_login res)))"
            using assms body False Inr role f [unfolded use_factor_def] u x
            by (auto simp: h_VerifyMFA_def CreateSessionAfterMFA_def)
          with Some Inr role f u x show thesis by (intro passed) auto
        qed
      qed
    qed
  qed
qed

fun verify_attempts :: "ext \<Rightarrow> TokenConfig \<Rightarrow> request list \<Rightarrow> payload response list action" where
  "verify_attempts E cfg [] = ret []"
| "verify_attempts E cfg (r # rs) = do { resp \<leftarrow> h_VerifyMFA E cfg r; resps \<leftarrow> verify_attempts E cfg rs; ret (resp # resps) }"

lemma verify_refused:
  assumes "run_state (h_VerifyMFA E cfg r) w = (resp, w')" "faults w = []" "status resp = 401"
  shows "audit_only w w'"
  using assms(1)
proof (cases rule: h_VerifyMFA_cases)
  case (refused req cl e)
  with assms show ?thesis
    by (auto simp: use_factor_def split: if_splits intro: factor_refused backup_refused)
next
  case (passed req cl ucl x w1)
  with assms(3) show ?thesis by (auto split: sum.splits)
qed simp

text \<open>C19: Codes of the second factor can be guessed without limit. However many codes were refused (no driver
  fault), the limiter knows nothing of it, and the answer to any TOTP code is still the one it would have
  been given first.\<close>

theorem mfa_guesses_unlimited:
  assumes "run_state (verify_attempts E cfg rs) w = (resps, w')" "faults w = []"
    and "\<forall>resp \<in> set resps. status resp = 401"
  shows "limiter w' = limiter w \<and> clock w' = clock w
    \<and> fst (run_state (VerifyTOTPForLogin E u code) w') = fst (run_state (VerifyTOTPForLogin E u code) w)"
proof -
  have "audit_only w w'" using assms
  proof (induction rs arbitrary: w resps)
    case (Cons r rs)
    obtain resp w1 where r: "run_state (h_VerifyMFA E cfg r) w = (resp, w1)" by fastforce
    obtain rest where rest: "run_state (verify_attempts E cfg rs) w1 = (rest, w')" "resps = resp # rest"
      using Cons.prems(1) r by (auto split: prod.splits)
    have first: "audit_only w w1" using verify_refused [OF r Cons.prems(2)] Cons.prems(3) rest(2) by simp
    from Cons.IH [OF rest(1) audit_onlyD(10) [OF this Cons.prems(2)]] Cons.prems(3) rest(2)
    have "audit_only w1 w'" by simp
    with first show ?case by (rule audited.trans)
  qed simp
  note fr = audit_onlyD [OF this]
  have same: "clock w' = clock w" "q_GetUserByID u (db w') = q_GetUserByID u (db w)"
    "q_ListMFACredentialsByUserID u (db w') = q_ListMFACredentialsByUserID u (db w)"
    by (simp_all add: q_GetUserByID_def q_ListMFACredentialsByUserID_def fr)
  show ?thesis
    unfolding VerifyTOTPForLogin_result [OF assms(2)] VerifyTOTPForLogin_result [OF fr(10) [OF assms(2)]] same
    by (simp add: fr)
qed

text \<open>A body of string members, as a client prints it, is decoded member by member.\<close>

definition print_fields :: "(string \<times> string) list \<Rightarrow> string" where
  "print_fields ms = json_object (map (\<lambda>(k, v). json_key k @ json_string v) ms)"

lemma length_join: "length xs \<le> Suc (length (join_with '','' xs))"
proof (induction xs)
  case (Cons x xs)
  then show ?case by (cases "xs = []") (simp_all add: join_with_Cons)
qed simp

lemma first_json_fields:
  assumes "ms \<noteq> []"
  shows "first_json (print_fields ms) = Some (JObj (map (\<lambda>(k, v). (k, JStr v)) ms))"
proof -
  let ?ms = "map (\<lambda>(k, v). (k, json_string v, JStr v)) ms"
  have "print_fields ms = json_object (map (\<lambda>(k, t, v). json_key k @ t) ?ms)"
    by (auto simp: print_fields_def comp_def case_prod_beta intro!: arg_cong [where f = json_object])
  moreover have "reads_as (Suc (length ?ms + 1)) (json_object (map (\<lambda>(k, t, v). json_key k @ t) ?ms))
      (JObj (map (\<lambda>(k, t, v). (k, v)) ?ms))"
    by (rule reads_as_object) (use assms reads_as_string in auto)
  moreover have "length ms + 1 \<le> length (print_fields ms)"
    using length_join [of "map (\<lambda>(k, v). json_key k @ json_string v) ms"]
    by (simp add: print_fields_def json_object_def)
  ultimately have "read_value (Suc (Suc (length (print_fields ms)))) (print_fields ms @ []) =
      Some (JObj (map (\<lambda>(k, t, v). (k, v)) ?ms), [])"
    unfolding reads_as_def by (simp only: length_map Suc_le_mono)
  moreover have "map (\<lambda>(k, t, v). (k, v)) ?ms = map (\<lambda>(k, v). (k, JStr v)) ms" by auto
  ultimately show ?thesis by (simp only: first_json_def append_Nil2 option.map fst_conv)
qed

definition demo_pending :: claims where
  "demo_pending = \<lparr>UserID = ''u1'', Email = ''a@b.co'', Role = ''mfa_pending'', SessionID = ''s9'', IssuedAt = 0,
     ExpiresAt = 5 * minute, Issuer = ''ctrld'', Subject = ''u1''\<rparr>"

definition demo_guess :: "string \<Rightarrow> request" where
  "demo_guess code = (demo_request '''')\<lparr>r_body := print_fields
     [(''mfa_session_token'', the (demo_sign demo_pending ''key'')), (''code'', code), (''type'', ''totp'')]\<rparr>"

lemma demo_members:
  "\<not> equal_fold ''code'' ''type''" "\<not> equal_fold ''mfa_session_token'' ''type''" "\<not> equal_fold ''mfa_session_token'' ''code''"
  "equal_fold s s"
  by (code_simp, code_simp, code_simp, simp add: equal_fold_def)

lemma demo_guess_body:
  "verify_body (demo_guess code) = Some \<lparr>vb_MFASessionToken = the (demo_sign demo_pending ''key''), vb_Code = code,
     vb_Type = ''totp''\<rparr>"
  by (simp add: verify_body_def decode_def demo_guess_def first_json_fields verifyMFARequest_fields_def store_member_def
      demo_members)

lemma demo_guess_token: "ValidateAccessToken demo_ext (the (demo_sign demo_pending ''key'')) ''key'' second = Inr demo_pending"
  by (rule validate_own_token [OF demo_jwt_lawful]) (simp_all add: demo_pending_def demo_sign_def)

lemma demo_guess_refused:
  "fst (run_state (VerifyTOTPForLogin demo_ext ''u1'' ''000000'') demo_mfa_world) = Inl ErrInvalidTOTPCode"
proof -
  have "VerifyTOTP demo_ext s ''000000'' t = Inr False" for s t
    by (simp add: VerifyTOTP_def trim_space_def trim_left_def is_space_def Let_def)
  then have "\<not> cred_accepts demo_ext ''000000'' t c" for t c by (simp add: cred_accepts_def split: option.split)
  then show ?thesis by (simp add: VerifyTOTPForLogin_result q_ListMFACredentialsByUserID_def)
qed

theorem mfa_guesses_unlimited_witness:
  "\<exists>resp w'. run_state (verify_attempts demo_ext demo_cfg [demo_guess ''000000'']) demo_mfa_world = ([resp], w')
     \<and> status resp = 401 \<and> limiter w' = limiter_New
     \<and> fst (run_state (VerifyTOTPForLogin demo_ext ''u1'' ''123456'') w')
       = fst (run_state (VerifyTOTPForLogin demo_ext ''u1'' ''123456'') demo_mfa_world)"
proof -
  obtain resp w' where r: "run_state (h_VerifyMFA demo_ext demo_cfg (demo_guess ''000000'')) demo_mfa_world = (resp, w')"
    by fastforce
  have "decode verifyMFARequest_fields \<lparr>vb_MFASessionToken = '''', vb_Code = '''', vb_Type = ''''\<rparr> (demo_guess ''000000'')
      = Some \<lparr>vb_MFASessionToken = the (demo_sign demo_pending ''key''), vb_Code = ''000000'', vb_Type = ''totp''\<rparr>"
    using demo_guess_body by (simp add: verify_body_def)
  moreover have "the (demo_sign demo_pending ''key'') \<noteq> ''''" by (simp add: demo_sign_def enc_str_def)
  moreover have "Role demo_pending = ''mfa_pending''" "UserID demo_pending = ''u1''" by (simp_all add: demo_pending_def)
  ultimately have s: "status resp = 401"
    using r demo_guess_token demo_guess_refused by (auto simp: h_VerifyMFA_def split: prod.splits sum.splits)
  have run: "run_state (verify_attempts demo_ext demo_cfg [demo_guess ''000000'']) demo_mfa_world = ([resp], w')"
    by (simp add: r)
  from mfa_guesses_unlimited [OF run, of "''u1''" "''123456''"] run s show ?thesis by simp
qed

section \<open>What a finished second factor proves\<close>

interpretation sessions_kept: db_frame "\<lambda>d d'. sessions d' = sessions d"
  by unfold_locales auto

lemma sessions_writes:
  "q_SetBackupCodes c i now d = Inr (x2, d') \<Longrightarrow> sessions d' = sessions d"
  "q_UpdateMFASignCount n i now d = Inr (x6, d') \<Longrightarrow> sessions d' = sessions d"
  "q_CreateAuditEntry i us ses pm ac res rs ipq me sv now d = Inr (x10, d') \<Longrightarrow> sessions d' = sessions d"
  by (auto simp: frame_write_defs split: statement_split)

lemma factor_sessions: "preserves (\<lambda>w w'. sessions (db w') = sessions (db w)) (use_factor E req u)"
  unfolding use_factor_def mfa_parts
  by (intro sessions_kept.composition sessions_kept.silent_in [OF silent_basic(1)] sessions_kept.silent_in [OF silent_basic(2)]
      sessions_kept.silent_in [OF silent_basic(3)] sessions_kept.silent_in [OF silent_basic(4)]
      sessions_kept.statement sessions_writes)

text \<open>What a factor has to show: an unused backup code of the account, or a code of one of its active
  authenticators.\<close>

definition factor_shown :: "ext \<Rightarrow> verifyMFARequest \<Rightarrow> string \<Rightarrow> time \<Rightarrow> database \<Rightarrow> bool" where
  "factor_shown E req u now d =
     (if vb_Type req = ''backup_code''
      then (case stored_codes d u of None \<Rightarrow> False | Some codes \<Rightarrow> 0 < open_codes (vb_Code req) codes)
      else list_ex (\<lambda>m. m_user_id m = u \<and> m_type m = ''totp'' \<and> m_is_active m = 1 \<and> cred_accepts E (vb_Code req) now m) (creds d))"

lemma use_factor_shown:
  assumes run: "run_state (use_factor E req u) w = (Inr ucl, w')" and f: "faults w = []"
  obtains user where "factor_shown E req u (clock w) (db w)" "q_GetUserByID u (db w) = Inr user"
    "ucl = user_claims u (u_email user) (u_role user)" "clock w' = clock w" "faults w' = []"
proof (cases "vb_Type req = ''backup_code''")
  case True
  with run have "run_state (UseBackupCodeForLogin E u (vb_Code req)) w = (Inr ucl, w')" by (simp add: use_factor_def)
  then obtain codes codes' row where c: "stored_codes (db w) u = Some codes"
    "UseBackupCode codes (vb_Code req) (clock w) = Inr codes'" "q_GetUserByID u (db w) = Inr row"
    "ucl = user_claims u (u_email row) (u_role row)" "faults w' = []" "clock w' = clock w"
    by (rule UseBackupCodeForLogin_effect [OF _ f])
  moreover have "0 < open_codes (vb_Code req) codes"
    using UseBackupCode_refused [of "vb_Code req" codes "clock w"] c(2) by auto
  ultimately show thesis using True that [of row] by (simp add: factor_shown_def)
next
  case False
  with run have "run_state (VerifyTOTPForLogin E u (vb_Code req)) w = (Inr ucl, w')" by (simp add: use_factor_def)
  then obtain cs cred row where c: "q_ListMFACredentialsByUserID u (db w) = Inr cs"
    "find (cred_accepts E (vb_Code req) (clock w)) (filter (\<lambda>c. m_type c = ''totp'') cs) = Some cred"
    "q_GetUserByID u (db w) = Inr row" "ucl = user_claims u (u_email row) (u_role row)" "clock w' = clock w"
    "faults w' = []"
    by (rule VerifyTOTPForLogin_effect [OF _ f])
  from c(2) have "cred \<in> set cs" "m_type cred = ''totp''" "cred_accepts E (vb_Code req) (clock w) cred"
    by (auto simp: find_Some_iff dest!: nth_mem)
  with c(1) False have "factor_shown E req u (clock w) (db w)"
    by (auto simp: factor_shown_def q_ListMFACredentialsByUserID_def list_ex_iff)
  with c that show thesis by blast
qed

text \<open>C8: The second step of a login is answered 200 only for a live token of the first step together with an
  unused backup code or an accepted code of an active authenticator of that token's account, which is active;
  exactly one session is opened, for that account, with its stored role and with the tokens of the answer.\<close>

theorem verify_mfa_sound:
  assumes "run_state (h_VerifyMFA E cfg r) w = (resp, w')" "status resp = 200" "faults w = []"
  shows "\<exists>req cl user res s. verify_body r = Some req
    \<and> ValidateAccessToken E (vb_MFASessionToken req) (Secret cfg) (clock w) = Inr cl \<and> Role cl = ''mfa_pending''
    \<and> factor_shown E req (UserID cl) (clock w) (db w)
    \<and> q_GetUserByID (UserID cl) (db w) = Inr user \<and> lr_Role res = u_role user
    \<and> resp = Reply 200 (LoginReply (full_login res))
    \<and> sessions (db w') = sessions (db w) @ [s] \<and> s_user_id s = UserID cl \<and> s_revoked_at s = None
    \<and> s_access_token_hash s = hashToken (lr_AccessToken res) \<and> s_refresh_token_hash s = hashToken (lr_RefreshToken res)"
  using assms(1)
proof (cases rule: h_VerifyMFA_cases)
  case (passed req cl ucl x w1)
  obtain user where u: "factor_shown E req (UserID cl) (clock w) (db w)" "q_GetUserByID (UserID cl) (db w) = Inr user"
    "ucl = user_claims (UserID cl) (u_email user) (u_role user)"
    by (rule use_factor_shown [OF passed(4) assms(3)])
  obtain res where x: "x = Inr res" using passed(6) assms(2) by (cases x) auto
  have "sessions (db w1) = sessions (db w)" using sessions_kept.after [OF factor_sessions passed(4)] .
  with createSession_effect(5) [OF passed(5)] x u passed show ?thesis by (auto simp: user_claims_def)
qed (use assms(2) in \<open>auto split: if_splits\<close>)

lemma demo_createSession:
  assumes "faults w = []" "sessions (db w) = [demo_session]" "users (db w) = [demo_user]"
  shows "\<exists>res w'. run_state (createSession demo_ext demo_cfg ''u1'' em ro ip ua) w = (Inr res, w')"
  using assms by (auto simp: createSession_def IssueTokenPair_def demo_sign_def q_CreateSession_def user_ref_def
      insert_row_def auth_logAudit_def Let_def split: prod.splits)

theorem verify_mfa_sound_witness:
  "\<exists>res w' s. run_state (h_VerifyMFA demo_ext demo_cfg (demo_guess ''123456'')) demo_mfa_world =
      (Reply 200 (LoginReply (full_login res)), w') \<and> lr_Role res = ''admin''
     \<and> sessions (db w') = [demo_session, s] \<and> s_user_id s = ''u1''"
proof -
  obtain cl w1 where f: "run_state (VerifyTOTPForLogin demo_ext ''u1'' ''123456'') demo_mfa_world = (Inr cl, w1)"
    using demo_totp_login by blast
  then have w1: "faults w1 = []" "users (db w1) = [demo_user]" "UserID cl = ''u1''"
    by (rule VerifyTOTPForLogin_effect, simp_all add: user_claims_def)+
  moreover have "sessions (db w1) = [demo_session]"
    using sessions_kept.after [OF factor_sessions, of demo_ext "\<lparr>vb_MFASessionToken = '''', vb_Code = ''123456'', vb_Type = ''''\<rparr>" "''u1''"]
      f by (simp add: use_factor_def)
  ultimately obtain res w' where c: "run_state (createSession demo_ext demo_cfg (UserID cl) (Email cl) (Role cl)
      (realIP (demo_guess ''123456'')) (UserAgent (demo_guess ''123456''))) w1 = (Inr res, w')"
    using demo_createSession by metis
  have run: "run_state (h_VerifyMFA demo_ext demo_cfg (demo_guess ''123456'')) demo_mfa_world
      = (Reply 200 (LoginReply (full_login res)), w')"
    using f c demo_guess_body [of "''123456''"] demo_guess_token
    by (simp add: h_VerifyMFA_def verify_body_def CreateSessionAfterMFA_def demo_pending_def demo_sign_def enc_str_def)
  from verify_mfa_sound [OF run] run show ?thesis
    by (auto simp: demo_guess_body demo_guess_token demo_pending_def q_GetUserByID_def first_row_def split: if_splits)
qed

end
