(* ===== verification/Guarantees.thy ===== *)
theory Guarantees
  imports Security
begin

text \<open>
  What the server as a whole guarantees, over single requests (\<open>handle\<close>) and over its runs (\<open>server_run\<close>): the
  state stays well formed and the audit log only grows, signals need a privileged session, nothing but the setup
  is open before the setup is finished, and only administrators change accounts and privileged sessions.
\<close>

section \<open>The state stays well formed\<close>

lemma moves_facts:
  assumes "moves w w'"
  shows "clock w' = clock w" "db_ok (db w) \<Longrightarrow> db_ok (db w')" "prefix (audits (db w)) (audits (db w'))"
  using assms append_only.steps schema.steps by (auto simp: moves_def appends_def)

text \<open>C1: Whatever requests are served, whenever the clock moves, the limiter is cleaned, faults strike and
  snapshots are pushed: a server that starts with a well-formed database (unique keys, references that resolve,
  roles, kinds and severities as the schema's checks demand) and metrics buffer keeps both well formed, time does
  not run backwards, and of the audit log nothing is ever changed or removed.\<close>

theorem server_keeps_state:
  assumes "server_run E cfg s0 s" "db_ok (db (srv_world s0))" "buffer_ok (srv_buffer s0)"
  shows "db_ok (db (srv_world s)) \<and> buffer_ok (srv_buffer s) \<and> clock (srv_world s0) \<le> clock (srv_world s)
    \<and> prefix (audits (db (srv_world s0))) (audits (db (srv_world s)))"
  using assms
proof (induction rule: server_run.induct)
  case (request s0 s V ep r resp s')
  from moves_facts [OF handle_moves [OF request.hyps(2)]] handle_buffer [OF request.hyps(2)]
    request.IH [OF request.prems]
  show ?case by (auto intro: prefix_order.trans)
qed (auto intro: bf.invar_push)

definition demo_server :: server where
  "demo_server = \<lparr>srv_world = demo_world, srv_buffer = NewBuffer, srv_info = None\<rparr>"

definition demo_env :: environment where
  "demo_env = \<lparr>en_machine = demo_machine, en_signal = (\<lambda>_. True), en_upgrade = (\<lambda>_. None), en_version = ''dev''\<rparr>"

theorem server_keeps_state_witness:
  "db_ok (db (srv_world (snd (handle demo_ext demo_cfg demo_env EP_Login (demo_attempt ''10.0.0.9'') demo_server))))
     \<and> buffer_ok (srv_buffer (snd (handle demo_ext demo_cfg demo_env EP_Login (demo_attempt ''10.0.0.9'') demo_server)))"
proof -
  have "server_run demo_ext demo_cfg demo_server
      (snd (handle demo_ext demo_cfg demo_env EP_Login (demo_attempt ''10.0.0.9'') demo_server))"
    by (rule server_run.request [OF server_run.started]) (rule prod.collapse [symmetric])
  from server_keeps_state [OF this] show "db_ok (db (srv_world (snd (handle demo_ext demo_cfg demo_env EP_Login (demo_attempt ''10.0.0.9'') demo_server))))
     \<and> buffer_ok (srv_buffer (snd (handle demo_ext demo_cfg demo_env EP_Login (demo_attempt ''10.0.0.9'') demo_server)))"
    by (simp add: demo_server_def demo_db_ok bf.invar_new)
qed

section \<open>The machine\<close>

text \<open>C2: A request makes the server do something to the machine only as a termination signal, and then it was the
  request to end a process, with a valid access token whose user has an active privileged session; without a
  database fault exactly that session's action counter has grown, by one.\<close>

theorem signals_need_pim:
  assumes "handle E cfg V ep r s = (resp, s')" "issued (srv_world s') \<noteq> issued (srv_world s)"
  shows "ep = EP_KillProcess \<and> (\<exists>token cl p pid. extractBearerToken r = Inr token
    \<and> ValidateAccessToken E token (Secret cfg) (clock (srv_world s)) = Inr cl
    \<and> p \<in> set (pims (db (srv_world s)))
    \<and> pim_active (current_timestamp (clock (srv_world s))) (UserID cl) p
    \<and> pid > 0 \<and> issued (srv_world s') = issued (srv_world s) @ [Sigterm pid]
    \<and> (faults (srv_world s) = [] \<longrightarrow>
         pims (db (srv_world s')) = map (bump_action (p_id p)) (pims (db (srv_world s)))))"
proof -
  note run = handle_world [OF assms(1)]
  have "\<not> steady (serve E cfg V (srv_buffer s) (srv_info s) ep r)"
    using steadyD(3) [OF _ run] assms(2) by blast
  moreover have "steady (serve E cfg V (srv_buffer s) (srv_info s) ep r)" if "ep \<noteq> EP_KillProcess"
    unfolding steady_preserves [symmetric]
    by (rule advance.request)
      (auto simp: steady_preserves intro: steady_intros public_steady protected_steady [OF _ that])
  ultimately have ep: "ep = EP_KillProcess" by blast
  let ?w = "srv_world s" and ?w' = "srv_world s'"
  have "run_state (setupGuard (Require E (Secret cfg) (h_KillProcess E (en_signal V)) r) r) ?w = (resp, ?w')"
    using run by (simp add: ep serve_def)
  then show ?thesis
  proof (cases rule: setupGuard_cases)
    case shut
    with assms(2) show ?thesis by simp
  next
    case (passed fs)
    from passed(1) show ?thesis
    proof (cases rule: Require_cases)
      case refused
      with assms(2) show ?thesis by simp
    next
      case (admitted token cl)
      from KillProcess_issued [OF admitted(3)] assms(2) obtain p pid where p: "p \<in> set (pims (db ?w))"
        "pim_active (current_timestamp (clock ?w)) (UserID cl) p" "pid > 0"
        "issued ?w' = issued ?w @ [Sigterm pid]"
        "fs = [] \<longrightarrow> pims (db ?w') = map (bump_action (p_id p)) (pims (db ?w))" by auto
      then show ?thesis using ep admitted passed(3) by auto
    qed
  qed
qed

definition demo_flag :: config_row where
  "demo_flag = \<lparr>c_key = configKeySetupDone, c_value = ''true'', c_updated_at = ''0001-01-01 00:00:00'', c_updated_by = None\<rparr>"

definition demo_running :: server where
  "demo_running = demo_server\<lparr>srv_world := demo_world\<lparr>db := demo_db\<lparr>pims := [demo_pim hour], configs := [demo_flag]\<rparr>\<rparr>\<rparr>"

lemma demo_running_fields [simp]:
  "db (srv_world demo_running) = demo_db\<lparr>pims := [demo_pim hour], configs := [demo_flag]\<rparr>"
  "clock (srv_world demo_running) = second" "faults (srv_world demo_running) = []" "issued (srv_world demo_running) = []"
  "srv_info demo_running = None"
  by (simp_all add: demo_running_def demo_server_def)

lemma demo_running_done: "setup_done (demo_db\<lparr>pims := ps, configs := [demo_flag]\<rparr>)"
  by (simp add: setup_done_def q_GetConfig_def first_row_def demo_flag_def)

lemma demo_pim_active: "pim_active (current_timestamp second) ''u1'' (demo_pim hour)"
  by (simp add: pim_active_day [of second hour] demo_range) (simp add: day_of_def secs_of_def)

definition demo_kill :: request where
  "demo_kill = (demo_request demo_token)\<lparr>r_path := ''/api/v1/system/processes/42'', r_param := (\<lambda>_. ''42'')\<rparr>"

theorem signals_need_pim_witness:
  "\<exists>s'. handle demo_ext demo_cfg demo_env EP_KillProcess demo_kill demo_running = (Reply 204 NoContent, s')
     \<and> issued (srv_world s') = [Sigterm 42] \<and> map p_action_count (pims (db (srv_world s'))) = [1]"
proof -
  obtain resp s' where run: "handle demo_ext demo_cfg demo_env EP_KillProcess demo_kill demo_running = (resp, s')" by fastforce
  have tok: "extractBearerToken demo_kill = Inr demo_token"
    using demo_bearer [OF demo_token_sign] by (simp add: demo_kill_def extractBearerToken_def)
  have val: "ValidateAccessToken demo_ext demo_token ''key'' second = Inr demo_claims"
    by (rule validate_own_token [OF demo_jwt_lawful]) (simp_all add: demo_token_sign, simp_all add: demo_claims_def)
  have get: "run_state (pim_GetActive demo_ext ''u1'') (srv_world demo_running)
      = (Inr (toActivePIMSession second (scan_pim (\<lambda>s. s) (demo_pim hour))), srv_world demo_running)"
    by (simp add: run_GetActive demo_pim_active)
  have pid: "parse_int64 ''42'' = Some 42" by code_simp
  have "resp = Reply 204 NoContent \<and> issued (srv_world s') = [Sigterm 42]"
    using run tok val get pid
    by (auto simp: handle_def serve_def setupGuard_def IsCompleted_def q_GetConfig_def first_row_def demo_flag_def
        run_Require h_KillProcess_def demo_claims_def pim_CheckAndRecord_def pim_RecordAction_def
        q_IncrementPIMActionCount_def update_rows_def killProcess_def demo_kill_def demo_env_def split: prod.splits)
  with signals_need_pim [OF run] show ?thesis using run by (auto simp: bump_action_def)
qed
section \<open>Before the setup is finished\<close>

definition open_endpoints :: "endpoint list" where
  "open_endpoints = [EP_Health, EP_WsMetrics, EP_Login, EP_Refresh, EP_VerifyMFA, EP_ListCredentials, EP_InitiateTOTP,
     EP_ConfirmTOTP, EP_RemoveCredential, EP_SetupStatus, EP_CreateAdmin, EP_CompleteSetup]"

lemma has_prefix_split: "has_prefix s p \<Longrightarrow> \<exists>x. s = p @ x"
  by (metis append_take_drop_id has_prefix_def)

definition closed_patterns :: "string list" where
  "closed_patterns = map ((@) ''/api/v1'') [''/auth/logout'', ''/auth/sessions'', ''/auth/sessions/{id}'', ''/users'', ''/users/{id}'',
     ''/users/{id}/role'', ''/pim/request'', ''/pim/active'', ''/pim/break-glass'', ''/audit'', ''/audit/export'', ''/system/info'',
     ''/system/metrics'', ''/system/metrics/history'', ''/system/processes'', ''/system/processes/{pid}'']"

lemma closed_routes: "\<forall>(m, p, ep) \<in> set routes. ep \<in> set open_endpoints \<or> p \<in> set closed_patterns"
  by code_simp

lemma closed_path:
  assumes "routed ep r" "ep \<notin> set open_endpoints"
  shows "\<not> list_ex (has_prefix (r_path r)) setup_allowed"
proof
  assume "list_ex (has_prefix (r_path r)) setup_allowed"
  then obtain x where x: "r_path r = ''/api/v1/setup/'' @ x \<or> r_path r = ''/api/v1/auth/login'' @ x
      \<or> r_path r = ''/api/v1/auth/refresh'' @ x \<or> r_path r = ''/api/v1/auth/mfa/'' @ x \<or> r_path r = ''/api/v1/health'' @ x"
    by (auto simp: setup_allowed_def dest!: has_prefix_split)
  from assms(1) obtain m p where "(m, p, ep) \<in> set routes" and path: "path_matches p (r_path r)"
    by (auto simp: routed_def list_ex_iff)
  with assms(2) have p: "p \<in> set closed_patterns"
    using closed_routes by fastforce
  with path x show False
    by (auto simp: closed_patterns_def path_matches_def segment_matches_def has_prefix_def split: list.splits)
qed

text \<open>C7: Until the setup is finished, every request that is routed to anything but the setup wizard, the login (with
  its second factor and refresh), the health check and the metrics socket is answered 503, and nothing but the
  list of pending faults changes.\<close>

theorem setup_gate:
  assumes "routed ep r" "ep \<notin> set open_endpoints" "\<not> setup_done (db (srv_world s))"
    and "handle E cfg V ep r s = (resp, s')"
  shows "resp = Failure 503 ''SETUP_REQUIRED'' \<and> (\<exists>fs. s' = s\<lparr>srv_world := (srv_world s)\<lparr>faults := fs\<rparr>\<rparr>)"
proof -
  note run = handle_world [OF assms(4)]
  have "public_api E cfg ep = None" "\<exists>h. protected_api E V (srv_buffer s) (srv_info s) ep = Some h"
    using assms(2) by (cases ep; simp add: open_endpoints_def)+
  then obtain m where "run_state (setupGuard m r) (srv_world s) = (resp, srv_world s')"
    using run by (auto simp: serve_def)
  then show ?thesis
  proof (cases rule: setupGuard_cases)
    case (shut fs)
    with assms(4) show ?thesis by (cases s) (auto simp: handle_def split: prod.splits)
  next
    case (passed fs)
    with closed_path [OF assms(1,2)] assms(3) show ?thesis by blast
  qed
qed

definition demo_list :: request where
  "demo_list = (demo_request demo_token)\<lparr>r_path := ''/api/v1/users''\<rparr>"

theorem setup_gate_witness:
  "\<exists>s'. handle demo_ext demo_cfg demo_env EP_ListUsers demo_list demo_server = (Failure 503 ''SETUP_REQUIRED'', s')"
proof -
  have r: "routed EP_ListUsers demo_list"
    by (simp add: routed_def routes_def setup_routes_def demo_list_def demo_request_def path_matches_def segment_matches_def
        has_prefix_def)
  obtain resp s' where run: "handle demo_ext demo_cfg demo_env EP_ListUsers demo_list demo_server = (resp, s')" by fastforce
  from setup_gate [OF r _ _ run] run show ?thesis
    by (auto simp: open_endpoints_def demo_server_def setup_done_def q_GetConfig_def first_row_def)
qed

section \<open>Without the administrator's role\<close>

text \<open>The reads of the services, for any frame of the database.\<close>

lemma handler_reads:
  "silent (ListSessions E u)" "silent (users_List E)" "silent (users_Get E i)" "silent (InitiateTOTPSetup E u)"
  "silent (mfa_ListCredentials E u)"
  unfolding ListSessions_def users_List_def users_Get_def InitiateTOTPSetup_def mfa_ListCredentials_def
  by (intro silent_intros)+

lemmas handler_intros = admin_intros admin_kept_auth admin_kept_factors admin_kept_pim
  handler_reads [THEN admin_kept.silent_in] IsCompleted_silent [THEN admin_kept.silent_in]
  GetStatus_silent [THEN admin_kept.silent_in] pim_GetActive_silent [THEN admin_kept.silent_in]
  audit_Query_silent [THEN admin_kept.silent_in] ServeMetrics_silent [THEN admin_kept.silent_in]

lemma case_pim_error_kept:
  "keeps_administered a \<Longrightarrow> keeps_administered b \<Longrightarrow> keeps_administered (case e of ErrPIMNotActive \<Rightarrow> a | _ \<Rightarrow> b)"
  by (cases e) auto

lemma h_CreateAdmin_done:
  assumes "setup_done (db w)" "faults w = []" "run_state (h_CreateAdmin E r) w = (resp, w')"
  shows "db w' = db w"
  using assms IsCompleted_effect(3) [OF prod.collapse [symmetric], of w]
  by (auto simp: h_CreateAdmin_def CreateAdmin_def Let_def split: option.splits prod.splits)

lemma h_CompleteSetup_done:
  assumes "setup_done (db w)" "faults w = []" "run_state (h_CompleteSetup r) w = (resp, w')"
  shows "db w' = db w"
  using assms IsCompleted_effect(3) [OF prod.collapse [symmetric], of w]
  by (auto simp: h_CompleteSetup_def Complete_def Let_def split: option.splits prod.splits)

lemma public_administered:
  assumes "public_api E cfg ep = Some h" "ep \<noteq> EP_CreateAdmin" "ep \<noteq> EP_CompleteSetup"
  shows "keeps_administered (h r)"
  using assms by (cases ep)
    (auto simp: h_Login_def h_Refresh_def h_VerifyMFA_def CreateSessionAfterMFA_def h_SetupStatus_def intro!: handler_intros)

lemma protected_administered:
  assumes "protected_api E V b c ep = Some h" "Role cl \<noteq> ''admin''"
  shows "keeps_administered (h (Some cl) r)"
  using assms
  by (cases ep) (auto simp: auth_handler_defs admin_handler_defs is_admin_def h_KillProcess_def killProcess_def
      info_handler_def intro!: handler_intros case_pim_error_kept)

definition admin_token :: "ext \<Rightarrow> TokenConfig \<Rightarrow> time \<Rightarrow> request \<Rightarrow> bool" where
  "admin_token E cfg now r =
     (case extractBearerToken r of
        Inl _ \<Rightarrow> False
      | Inr t \<Rightarrow> (case ValidateAccessToken E t (Secret cfg) now of Inl _ \<Rightarrow> False | Inr cl \<Rightarrow> Role cl = ''admin''))"

lemma guarded_public_kept:
  assumes "public_api E cfg ep = Some h" "run_state (setupGuard (h r) r) w = (resp, w')" "setup_done (db w)" "faults w = []"
  shows "administered (db w') = administered (db w)"
  using assms(2)
proof (cases rule: setupGuard_cases)
  case (passed fs)
  with assms(4) have w: "run_state (h r) w = (resp, w')" by (cases w) simp
  consider "ep = EP_CreateAdmin" | "ep = EP_CompleteSetup" | "ep \<noteq> EP_CreateAdmin" "ep \<noteq> EP_CompleteSetup" by blast
  then show ?thesis
  proof cases
    case 1
    with assms(1) w h_CreateAdmin_done [OF assms(3,4), of E r] show ?thesis by auto
  next
    case 2
    with assms(1) w h_CompleteSetup_done [OF assms(3,4), of r] show ?thesis by auto
  next
    case 3
    from admin_kept.after [OF public_administered [OF assms(1) this] w] show ?thesis .
  qed
qed simp

lemma guarded_protected_kept:
  assumes "protected_api E V b c ep = Some h" "run_state (setupGuard (Require E (Secret cfg) h r) r) w = (resp, w')"
    and "\<not> admin_token E cfg (clock w) r"
  shows "administered (db w') = administered (db w)"
  using assms(2)
proof (cases rule: setupGuard_cases)
  case (passed fs)
  from passed(1) show ?thesis
  proof (cases rule: Require_cases)
    case (admitted token cl)
    then have "Role cl \<noteq> ''admin''" using assms(3) by (simp add: admin_token_def)
    from admin_kept.after [OF protected_administered [OF assms(1) this] admitted(3)] show ?thesis by simp
  qed simp
qed simp

text \<open>C6: Once the setup is finished, no request without a valid administrator's access token changes an account,
  its password or role, the configuration, or which privileged sessions there are (no driver fault).\<close>

theorem non_admin_powerless:
  assumes "handle E cfg V ep r s = (resp, s')" "setup_done (db (srv_world s))" "faults (srv_world s) = []"
    and "\<not> admin_token E cfg (clock (srv_world s)) r"
  shows "administered (db (srv_world s')) = administered (db (srv_world s))"
proof (cases "public_api E cfg ep")
  case (Some h)
  with handle_world [OF assms(1)] guarded_public_kept [OF Some _ assms(2,3)] show ?thesis by (simp add: serve_def)
next
  case public: None
  show ?thesis
  proof (cases "protected_api E V (srv_buffer s) (srv_info s) ep")
    case (Some h)
    with handle_world [OF assms(1)] public guarded_protected_kept [OF Some _ assms(4)] show ?thesis by (simp add: serve_def)
  next
    case None
    have "silent (serve E cfg V (srv_buffer s) (srv_info s) ep r)"
      unfolding serve_def public None by (simp, intro conjI impI silent_intros)
    from admin_kept.after [OF admin_kept.silent_in [OF this] handle_world [OF assms(1)]] show ?thesis .
  qed
qed

definition demo_viewer :: claims where
  "demo_viewer = demo_claims\<lparr>Role := ''viewer''\<rparr>"

theorem non_admin_powerless_witness:
  "administered (db (srv_world (snd (handle demo_ext demo_cfg demo_env EP_DeactivateUser
      (with_id ''u1'' (demo_request (the (demo_sign demo_viewer ''key'')))) demo_running)))) = administered (db (srv_world demo_running))"
proof -
  let ?r = "with_id ''u1'' (demo_request (the (demo_sign demo_viewer ''key'')))"
  have "demo_sign demo_viewer ''key'' = Some (the (demo_sign demo_viewer ''key''))" by (simp add: demo_sign_def)
  from demo_bearer [OF this] validate_own_token [OF demo_jwt_lawful, of demo_viewer "''key''" _ second]
  have "\<not> admin_token demo_ext demo_cfg second ?r"
    by (simp add: admin_token_def demo_viewer_def demo_claims_def demo_sign_def)
  then show ?thesis
    by (intro non_admin_powerless [OF prod.collapse [symmetric]]) (simp_all add: demo_running_done)
qed

end
