(* ===== verification/Tail.thy ===== *)
theory Tail
  imports HandlerHost
begin

text \<open>
  The live tail of the journal: \<open>TailLogs\<close> of \<open>internal/handler/logs.go\<close> and the goroutines \<open>Tail\<close> of
  \<open>internal/logs/tail.go\<close> starts. A reader turns journalctl's lines into entries and puts them on a channel of 256
  places, waiting while it is full; the handler's loop takes them off and writes them to the socket. Their
  turns are the steps of a labelled relation, in any order the scheduler may choose.
\<close>

section \<open>The goroutines and the channel\<close>

type_synonym TailEntry = "Entry \<times> bool"

text \<open>
  What is still to come: the lines journalctl will print, each with the instant at which the reader gets to it, or the
  demonstration's counter.
\<close>

datatype tail_source = Journal "(string \<times> time) list" | Demonstration nat

record tail =
  tl_source :: tail_source
  tl_held :: "TailEntry option"
  tl_chan :: "TailEntry list"
  tl_sent :: "TailEntry list"
  tl_open :: bool
  tl_done :: bool

definition tail_cap :: nat where "tail_cap = 256"

definition tail_start :: "tail_source \<Rightarrow> tail" where
  "tail_start src = \<lparr>tl_source = src, tl_held = None, tl_chan = [], tl_sent = [], tl_open = True, tl_done = False\<rparr>"

definition overlong :: "string \<times> time \<Rightarrow> bool" where
  "overlong lt = (MaxScanTokenSize \<le> length (fst lt))"

definition tail_line :: "string \<times> time \<Rightarrow> TailEntry option" where
  "tail_line lt = map_option (\<lambda>e. (e, True)) (journald_line (snd lt) (fst lt))"

text \<open>\<open>json.Marshal\<close> fails for a time outside the years 0 to 9999; year 0 has 366 days.\<close>

definition tail_marshals :: "TailEntry \<Rightarrow> bool" where
  "tail_marshals e = (- (366 * 24 * hour) \<le> le_Timestamp (fst e) \<and> year_of (le_Timestamp (fst e)) \<le> 9999)"

text \<open>
  \<open>Cancelled\<close> is the end of the request's context from outside; the context also ends when the handler returns, after
  a failed write (\<open>Lost\<close>) or because it saw the context end (\<open>Returned\<close>). Then journalctl is killed (\<open>Killed\<close>) and
  a reader that waits for room may give up. A line of 64 KiB or more ends the reader (\<open>TooLong\<close>): the scanner stops, and
  nobody looks at its error.
\<close>

datatype tail_event = Scanned | Skipped | TooLong | Put | Ticked time | Written | Unprintable | Lost | Cancelled | Returned
  | GaveUp | Killed

inductive tail_step :: "tail_event \<Rightarrow> tail \<Rightarrow> tail \<Rightarrow> bool" where
  scanned: "tl_source s = Journal (lt # lts) \<Longrightarrow> tl_held s = None \<Longrightarrow> \<not> overlong lt \<Longrightarrow>
    tail_line lt = Some e \<Longrightarrow>
    tail_step Scanned s (s\<lparr>tl_source := Journal lts, tl_held := Some e\<rparr>)"
| skipped: "tl_source s = Journal (lt # lts) \<Longrightarrow> tl_held s = None \<Longrightarrow> \<not> overlong lt \<Longrightarrow>
    tail_line lt = None \<Longrightarrow>
    tail_step Skipped s (s\<lparr>tl_source := Journal lts\<rparr>)"
| too_long: "tl_source s = Journal (lt # lts) \<Longrightarrow> tl_held s = None \<Longrightarrow> overlong lt \<Longrightarrow>
    tail_step TooLong s (s\<lparr>tl_source := Journal []\<rparr>)"
| put: "tl_held s = Some e \<Longrightarrow> length (tl_chan s) < tail_cap \<Longrightarrow>
    tail_step Put s (s\<lparr>tl_held := None, tl_chan := tl_chan s @ [e]\<rparr>)"
| ticked: "tl_source s = Demonstration i \<Longrightarrow>
    tail_step (Ticked now) s (s\<lparr>tl_source := Demonstration (Suc i),
      tl_chan := (if length (tl_chan s) < tail_cap then tl_chan s @ [tailDemo_entry i now] else tl_chan s)\<rparr>)"
| socket_written: "tl_open s \<Longrightarrow> tl_chan s = e # es \<Longrightarrow> tail_marshals e \<Longrightarrow>
    tail_step Written s (s\<lparr>tl_chan := es, tl_sent := tl_sent s @ [e]\<rparr>)"
| unprintable: "tl_open s \<Longrightarrow> tl_chan s = e # es \<Longrightarrow> \<not> tail_marshals e \<Longrightarrow>
    tail_step Unprintable s (s\<lparr>tl_chan := es\<rparr>)"
| lost: "tl_open s \<Longrightarrow> tl_chan s = e # es \<Longrightarrow> tail_marshals e \<Longrightarrow>
    tail_step Lost s (s\<lparr>tl_chan := es, tl_open := False, tl_done := True\<rparr>)"
| cancelled: "\<not> tl_done s \<Longrightarrow> tail_step Cancelled s (s\<lparr>tl_done := True\<rparr>)"
| returned: "tl_open s \<Longrightarrow> tl_done s \<Longrightarrow> tail_step Returned s (s\<lparr>tl_open := False\<rparr>)"
| gave_up: "tl_held s = Some e \<Longrightarrow> tl_done s \<Longrightarrow>
    tail_step GaveUp s (s\<lparr>tl_held := None, tl_source := Journal []\<rparr>)"
| killed: "tl_source s = Journal lts \<Longrightarrow> lts \<noteq> [] \<Longrightarrow> tl_done s \<Longrightarrow>
    tail_step Killed s (s\<lparr>tl_source := Journal []\<rparr>)"

code_pred (modes: i \<Rightarrow> i \<Rightarrow> o \<Rightarrow> bool) tail_step .

inductive tail_run :: "tail_event list \<Rightarrow> tail \<Rightarrow> tail \<Rightarrow> bool" where
  rest: "tail_run [] s s"
| step: "tail_run es s s' \<Longrightarrow> tail_step e s' s'' \<Longrightarrow> tail_run (es @ [e]) s s''"

section \<open>The handler\<close>

text \<open>How starting journalctl turns out: its output, a missing program, or another error.\<close>

datatype journal_start = Running "(string \<times> time) list" | Missing | Broken

definition logs_Tail :: "(string list \<Rightarrow> journal_start) \<Rightarrow> string \<Rightarrow> tail option" where
  "logs_Tail start unit =
     (case start (''journalctl'' # tail_args unit) of
        Running lts \<Rightarrow> Some (tail_start (Journal lts))
      | Missing \<Rightarrow> Some (tail_start (Demonstration 0))
      | Broken \<Rightarrow> None)"

text \<open>
  An HTTP status (401, or gorilla's when the handshake fails), or the upgraded connection: with a running tail, or closed
  at once when the tail cannot start.
\<close>

definition h_TailLogs :: "ext \<Rightarrow> string \<Rightarrow> (request \<Rightarrow> nat option) \<Rightarrow> (string list \<Rightarrow> journal_start) \<Rightarrow> request
    \<Rightarrow> (nat + tail option) action" where
  "h_TailLogs E secret upgrade start r = do {
     now \<leftarrow> reads clock;
     ret (case ValidateAccessToken E (ws_token r) secret now of
            Inl _ \<Rightarrow> Inl 401
          | Inr _ \<Rightarrow> (case upgrade r of
                Some code \<Rightarrow> Inl code
              | None \<Rightarrow> Inr (logs_Tail start (r_query r ''unit''))))
   }"

section \<open>Properties\<close>

text \<open>The entries of journalctl's lines, up to the first line of 64 KiB or more.\<close>

definition journal_entries :: "(string \<times> time) list \<Rightarrow> TailEntry list" where
  "journal_entries lts = List.map_filter tail_line (takeWhile (\<lambda>lt. length (fst lt) < 64 * 1024) lts)"

fun to_come :: "tail_source \<Rightarrow> TailEntry list" where
  "to_come (Journal lts) = journal_entries lts"
| "to_come (Demonstration i) = []"

definition in_flight :: "tail \<Rightarrow> TailEntry list" where
  "in_flight s = tl_chan s @ (case tl_held s of None \<Rightarrow> [] | Some e \<Rightarrow> [e]) @ to_come (tl_source s)"

definition tail_inv :: "TailEntry list \<Rightarrow> tail \<Rightarrow> bool" where
  "tail_inv all s =
     ((\<exists>lts. tl_source s = Journal lts) \<and> length (tl_chan s) \<le> tail_cap \<and> prefix (tl_sent s) all
      \<and> (tl_open s \<longrightarrow> prefix (tl_sent s @ filter tail_marshals (in_flight s)) all)
      \<and> (\<not> tl_done s \<longrightarrow> tl_open s \<and> tl_sent s @ filter tail_marshals (in_flight s) = all))"

lemma journal_entries_Cons [simp]:
  "\<not> overlong lt \<Longrightarrow>
     journal_entries (lt # lts) = (case tail_line lt of None \<Rightarrow> [] | Some e \<Rightarrow> [e]) @ journal_entries lts"
  "overlong lt \<Longrightarrow> journal_entries (lt # lts) = []"
  "journal_entries [] = []"
  by (simp_all add: journal_entries_def overlong_def MaxScanTokenSize_def map_filter_simps split: option.split)

lemma tail_inv_start: "tail_inv (filter tail_marshals (journal_entries lts)) (tail_start (Journal lts))"
  by (simp add: tail_inv_def tail_start_def in_flight_def)

lemma tail_inv_step:
  assumes "tail_step e s s'" "tail_inv all s"
  shows "tail_inv all s'"
  using assms
proof (induction rule: tail_step.induct)
  case (socket_written s e es)
  then have "prefix ((tl_sent s @ [e]) @ filter tail_marshals (in_flight (s\<lparr>tl_chan := es\<rparr>))) all"
    by (simp add: tail_inv_def in_flight_def)
  then have "prefix (tl_sent s @ [e]) all" by (rule append_prefixD)
  with socket_written show ?case by (auto simp: tail_inv_def in_flight_def)
next
  case (gave_up s e)
  then have "prefix ((tl_sent s @ filter tail_marshals (tl_chan s)) @
      filter tail_marshals (e # to_come (tl_source s))) all" if "tl_open s"
    using that by (simp add: tail_inv_def in_flight_def)
  then have "prefix (tl_sent s @ filter tail_marshals (tl_chan s)) all" if "tl_open s"
    using that append_prefixD by blast
  with gave_up show ?case by (auto simp: tail_inv_def in_flight_def)
next
  case (killed s lts)
  let ?here = "tl_chan s @ (case tl_held s of None \<Rightarrow> [] | Some e \<Rightarrow> [e])"
  from killed have "prefix ((tl_sent s @ filter tail_marshals ?here) @ filter tail_marshals (journal_entries lts)) all"
    if "tl_open s" using that by (simp add: tail_inv_def in_flight_def)
  then have "prefix (tl_sent s @ filter tail_marshals ?here) all" if "tl_open s" using that append_prefixD by blast
  with killed show ?case by (auto simp: tail_inv_def in_flight_def)
qed (auto simp: tail_inv_def in_flight_def)

lemma tail_run_inv: "tail_run es s s' \<Longrightarrow> tail_inv all s \<Longrightarrow> tail_inv all s'"
  by (induction rule: tail_run.induct) (auto intro: tail_inv_step)

text \<open>Every turn uses up some of the work.\<close>

definition tail_work :: "tail \<Rightarrow> nat" where
  "tail_work s = (case tl_source s of Journal lts \<Rightarrow> 3 * length lts | Demonstration i \<Rightarrow> 0)
     + (if tl_held s = None then 0 else 2) + length (tl_chan s) + of_bool (tl_open s) + of_bool (\<not> tl_done s)"

lemma tail_work_less:
  assumes "tail_step e s s'" "tl_source s = Journal lts"
  shows "tail_work s' < tail_work s"
  using assms by (induction rule: tail_step.induct) (auto simp: tail_work_def)

lemma tail_run_work:
  assumes "tail_run es s s'" "tail_inv all s"
  shows "length es + tail_work s' \<le> tail_work s"
  using assms
proof (induction rule: tail_run.induct)
  case (step es s s' e s'')
  from tail_run_inv [OF step.hyps(1) step.prems] obtain lts where "tl_source s' = Journal lts" by (auto simp: tail_inv_def)
  from tail_work_less [OF step.hyps(2) this] step.IH [OF step.prems] show ?case by simp
qed simp

lemma tail_progress:
  assumes "tail_inv all s" "\<not> tl_done s" "\<And>e s'. tail_step e s s' \<Longrightarrow> e \<in> {Cancelled, Lost}"
  shows "tl_sent s = all"
proof -
  from assms(1,2) obtain lts where src: "tl_source s = Journal lts" and op: "tl_open s"
    and eq: "tl_sent s @ filter tail_marshals (in_flight s) = all" by (auto simp: tail_inv_def)
  have chan: "tl_chan s = []"
  proof (cases "tl_chan s")
    case (Cons e es)
    with op assms(3) [OF socket_written] assms(3) [OF unprintable] show ?thesis by (cases "tail_marshals e") auto
  qed
  have held: "tl_held s = None"
    using assms(3) [OF put] chan by (cases "tl_held s") (auto simp: tail_cap_def)
  have "lts = []"
  proof (cases lts)
    case (Cons lt ls)
    with src have at: "tl_source s = Journal (lt # ls)" by simp
    have short: "\<not> overlong lt" using assms(3) [OF too_long [OF at held]] by auto
    show ?thesis
    proof (cases "tail_line lt")
      case None
      from assms(3) [OF skipped [OF at held short None]] show ?thesis by simp
    next
      case (Some e)
      from assms(3) [OF scanned [OF at held short Some]] show ?thesis by simp
    qed
  qed
  with eq src chan held show ?thesis by (simp add: in_flight_def)
qed

text \<open>C15: The live tail loses nothing before a line of 64 KiB: whatever turns the reader, the handler's loop and the
  end of the request take, what the client has received is an initial part, in order, of the printable entries of
  journalctl's lines up to the first of 64 KiB or more, which ends the reader, and the channel never holds more than
  its 256. The turns are bounded by the number of lines, so there is no livelock; and while the request lives, either
  some goroutine can take a useful turn or all these entries have been sent, so there is no deadlock either (but after
  a line that is too long the connection stays open and nothing more comes).\<close>

theorem log_tail_no_gaps:
  assumes "tail_run es (tail_start (Journal lts)) s"
  shows "prefix (tl_sent s) (filter tail_marshals (journal_entries lts)) \<and> length (tl_chan s) \<le> 256
    \<and> length es \<le> 3 * length lts + 2
    \<and> (tl_done s \<or> (\<exists>e s'. tail_step e s s' \<and> e \<noteq> Cancelled \<and> e \<noteq> Lost)
       \<or> tl_sent s = filter tail_marshals (journal_entries lts))"
proof -
  note inv = tail_run_inv [OF assms tail_inv_start]
  have "length es \<le> tail_work (tail_start (Journal lts))" using tail_run_work [OF assms tail_inv_start] by linarith
  then have "length es \<le> 3 * length lts + 2" by (simp add: tail_work_def tail_start_def)
  moreover have "tl_sent s = filter tail_marshals (journal_entries lts)"
    if "\<not> tl_done s" "\<And>e s'. tail_step e s s' \<Longrightarrow> e = Cancelled \<or> e = Lost"
    using tail_progress [OF inv that(1)] that(2) by auto
  ultimately show ?thesis using inv unfolding tail_inv_def tail_cap_def by blast
qed

text \<open>One line of the journal reaches the client.\<close>

definition demo_line :: string where
  "demo_line = ''{\"MESSAGE\":\"up\",\"PRIORITY\":\"6\"}''"

definition demo_entry :: Entry where
  "demo_entry = \<lparr>le_Timestamp = 5, le_Severity = ''info'', le_Unit = '''', le_Message = ''up'', le_Source = ''journald'',
     le_PID = ''''\<rparr>"

lemma demo_tail_line: "tail_line (demo_line, 5) = Some (demo_entry, True)"
  by code_simp

lemma demo_short: "\<not> overlong (demo_line, 5)"
  by (simp add: overlong_def demo_line_def MaxScanTokenSize_def)

lemma demo_marshals: "tail_marshals (demo_entry, True)"
  by (simp add: tail_marshals_def demo_entry_def year_of_def civil_of_day_def year_index_def day_of_def secs_of_def Let_def)

definition demo_tail_end :: tail where
  "demo_tail_end = (tail_start (Journal []))\<lparr>tl_sent := [(demo_entry, True)]\<rparr>"

lemma demo_tail_run: "tail_run [Scanned, Put, Written] (tail_start (Journal [(demo_line, 5)])) demo_tail_end"
proof -
  let ?e = "(demo_entry, True)"
  let ?s0 = "tail_start (Journal [(demo_line, 5)])"
  let ?s1 = "?s0\<lparr>tl_source := Journal [], tl_held := Some ?e\<rparr>"
  let ?s2 = "?s1\<lparr>tl_held := None, tl_chan := tl_chan ?s1 @ [?e]\<rparr>"
  let ?s3 = "?s2\<lparr>tl_chan := [], tl_sent := tl_sent ?s2 @ [?e]\<rparr>"
  have "tail_step Scanned ?s0 ?s1" by (rule scanned [where lt = "(demo_line, 5)"])
    (simp_all add: tail_start_def demo_tail_line demo_short)
  moreover have "tail_step Put ?s1 ?s2" by (rule put) (simp_all add: tail_start_def tail_cap_def)
  moreover have "tail_step Written ?s2 ?s3" by (rule socket_written) (simp_all add: tail_start_def demo_marshals)
  ultimately have "tail_run ((([] @ [Scanned]) @ [Put]) @ [Written]) ?s0 ?s3" by (blast intro: tail_run.intros)
  moreover have "?s3 = demo_tail_end" by (simp add: tail_start_def demo_tail_end_def)
  ultimately show ?thesis by simp
qed

theorem log_tail_no_gaps_witness:
  "prefix (tl_sent demo_tail_end) (filter tail_marshals (journal_entries [(demo_line, 5)]))
     \<and> tl_sent demo_tail_end = [(demo_entry, True)]"
  using log_tail_no_gaps [OF demo_tail_run] by (simp add: demo_tail_end_def)

text \<open>Only a holder of a valid access token gets a tail.\<close>

lemma tail_needs_token:
  assumes "run_state (h_TailLogs E secret upgrade start r) w = (Inr t, w')"
  shows "\<exists>cl. ValidateAccessToken E (ws_token r) secret (clock w) = Inr cl"
  using assms by (auto simp: h_TailLogs_def split: sum.splits)

end
