(* ===== verification/HostApi.thy ===== *)
theory HostApi
  imports Guarantees Tail
begin

text \<open>
  The routes of the handlers for services, logs, alerts and the system, as their \<open>RegisterRoutes\<close> list them. \<open>server.go\<close>
  does not call these; a server that did would guard the routes with \<open>Require\<close>, as here.
\<close>

section \<open>Routes\<close>

datatype host_endpoint =
    HE_ListServices | HE_GetService | HE_ExecuteAction | HE_GetServiceLogs
  | HE_GetLogs | HE_GetUnits | HE_GetSources | HE_ExportLogs
  | HE_ListActive | HE_ListAll | HE_GetThresholds | HE_UpdateThresholds
  | HE_GetUpdateStatus | HE_GetTLSInfo | HE_GenerateSelfSigned

type_synonym host_route = "string \<times> string \<times> host_endpoint"

definition services_routes :: "host_route list" where
  "services_routes = [(''GET'', ''/services'', HE_ListServices), (''GET'', ''/services/{name}'', HE_GetService),
     (''POST'', ''/services/{name}/action'', HE_ExecuteAction), (''GET'', ''/services/{name}/logs'', HE_GetServiceLogs)]"

definition logs_routes :: "host_route list" where
  "logs_routes = [(''GET'', ''/logs'', HE_GetLogs), (''GET'', ''/logs/units'', HE_GetUnits),
     (''GET'', ''/logs/sources'', HE_GetSources), (''GET'', ''/logs/export'', HE_ExportLogs)]"

definition alerts_routes :: "host_route list" where
  "alerts_routes = [(''GET'', ''/alerts'', HE_ListActive), (''GET'', ''/alerts/history'', HE_ListAll),
     (''GET'', ''/alerts/thresholds'', HE_GetThresholds), (''PUT'', ''/alerts/thresholds'', HE_UpdateThresholds)]"

definition system_routes :: "host_route list" where
  "system_routes = [(''GET'', ''/system/update-status'', HE_GetUpdateStatus), (''GET'', ''/system/tls'', HE_GetTLSInfo),
     (''POST'', ''/system/tls/generate'', HE_GenerateSelfSigned)]"

text \<open>What the services, logs and alerts routes run behind \<open>Require\<close>. The thresholds are state of the
  alert service; the two certificate routes act on files, as \<open>h_GetTLSInfo\<close> and \<open>h_GenerateSelfSigned\<close> of \<open>Tls\<close>.\<close>

fun host_api :: "ext \<Rightarrow> commands \<Rightarrow> log_env \<Rightarrow> alert_svc \<Rightarrow> UpdateStatus \<Rightarrow> host_endpoint \<Rightarrow> payload handler option" where
  "host_api E X G a u HE_ListServices = Some (\<lambda>_. h_ListServices X)"
| "host_api E X G a u HE_GetService = Some (\<lambda>_. h_GetService X)"
| "host_api E X G a u HE_ExecuteAction = Some (h_ExecuteAction E X)"
| "host_api E X G a u HE_GetServiceLogs = Some (\<lambda>_. h_GetServiceLogs X)"
| "host_api E X G a u HE_GetLogs = Some (\<lambda>_. h_GetLogs G)"
| "host_api E X G a u HE_GetUnits = Some (\<lambda>_ _. h_GetUnits G)"
| "host_api E X G a u HE_GetSources = Some (\<lambda>_ _. ret (h_GetSources G))"
| "host_api E X G a u HE_ExportLogs = Some (\<lambda>_. h_ExportLogs G)"
| "host_api E X G a u HE_ListActive = Some (\<lambda>_ _. h_ListActive E)"
| "host_api E X G a u HE_ListAll = Some (\<lambda>_ _. h_ListAll E)"
| "host_api E X G a u HE_GetThresholds = Some (\<lambda>_ _. ret (h_GetThresholds a))"
| "host_api E X G a u HE_UpdateThresholds = Some (\<lambda>cl r. ret (fst (h_UpdateThresholds cl r a)))"
| "host_api E X G a u HE_GetUpdateStatus = Some (\<lambda>cl _. ret (h_GetUpdateStatus cl u))"
| "host_api E X G a u _ = None"

section \<open>Properties\<close>

text \<open>No pattern of these handlers is a route of the server.\<close>

lemma host_routes_unregistered:
  "list_all (\<lambda>(m, p, h). \<not> list_ex (\<lambda>(m', p', e). m' = m \<and> p' = ''/api/v1'' @ p) routes)
     (services_routes @ logs_routes @ alerts_routes @ system_routes)"
  by code_simp

lemma ListActive_steady: "steady (h_ListActive E)" "steady (h_ListAll E)"
  unfolding h_ListActive_def h_ListAll_def ListActive_def ListAll_def listAlerts_def by (intro steady_intros)+

lemma host_api_steady:
  "host_api E X G a u ep = Some h \<Longrightarrow> ep \<in> {HE_GetSources, HE_ListActive, HE_ListAll, HE_GetThresholds,
     HE_UpdateThresholds, HE_GetUpdateStatus} \<Longrightarrow> steady (h cl r)"
  by (auto intro: steady_intros ListActive_steady)

text \<open>A command that only looks at the machine: \<open>systemctl list-units\<close>, \<open>systemctl show\<close>, or \<open>journalctl\<close> with
  no options but those that choose and format entries (others rotate, vacuum or flush the journal).\<close>

definition journal_reading :: "string list" where
  "journal_reading = [''--output='', ''--no-pager'', ''--lines='', ''--unit='', ''--since='', ''--until='',
     ''--priority='', ''--field='']"

definition reading_command :: "string list \<Rightarrow> bool" where
  "reading_command cmd =
     (case cmd of
        prog # arg # args \<Rightarrow>
          (if prog = ''journalctl'' then list_all (\<lambda>a. list_ex (has_prefix a) journal_reading) (arg # args)
           else prog = ''systemctl'' \<and> arg \<in> {''list-units'', ''show''})
      | _ \<Rightarrow> False)"

lemma reading_option: "has_prefix a p \<Longrightarrow> p \<in> set journal_reading \<Longrightarrow> list_ex (has_prefix a) journal_reading"
  by (auto simp: list_ex_iff)

lemma reading_commands:
  "reading_command [''systemctl'', ''list-units'', ''--type=service'', ''--all'', ''--no-pager'', ''--no-legend'', ''--plain'']"
  "reading_command [''systemctl'', ''show'', name, opts, ''--no-pager'']"
  "reading_command [''journalctl'', ''--unit='' @ name, ''--lines='' @ n, ''--no-pager'', ''--output=short-iso'']"
  "reading_command [''journalctl'', ''--field=_SYSTEMD_UNIT'', ''--no-pager'']"
  "reading_command (''journalctl'' # journald_args p)"
  by (simp_all add: reading_command_def journal_reading_def has_prefix_def journald_args_def)

lemma run_Read: "run_state (Read G p) w = (r, w') \<Longrightarrow>
    w' = w \<or> (\<exists>cmd. w' = w\<lparr>issued := issued w @ [Command cmd]\<rparr> \<and> reading_command cmd)"
  using reading_commands(5) by (fastforce simp: Read_def readJournald_def Let_def split: if_splits)

lemma reading_issued:
  assumes "host_api E X G a u ep = Some h" "run_state (h cl r) w = (resp, w')" "ep \<noteq> HE_ExecuteAction"
  shows "issued w' = issued w \<or> (\<exists>cmd. issued w' = issued w @ [Command cmd] \<and> reading_command cmd)"
proof -
  have logs: "issued w' = issued w \<or> (\<exists>cmd. issued w' = issued w @ [Command cmd] \<and> reading_command cmd)"
    if "run_state (Read G p \<bind> (\<lambda>x. ret (f x))) w = (resp, w')" for p f
    using that run_Read [of G p w] by (auto split: prod.splits)
  show ?thesis
  proof (cases "ep \<in> {HE_GetLogs, HE_ExportLogs}")
    case True
    then show ?thesis using assms logs by (auto simp: h_GetLogs_def h_ExportLogs_def Let_def)
  next
    case False
    then show ?thesis
    proof (cases "ep \<in> {HE_ListServices, HE_GetService, HE_GetServiceLogs, HE_GetUnits}")
      case True
      then show ?thesis using assms reading_commands(1-4)
        by (auto simp: h_ListServices_def services_List_def h_GetService_def services_Get_def h_GetServiceLogs_def
            services_GetLogs_def h_GetUnits_def ListUnits_def Let_def)
    next
      case other: False
      with False assms(1,3) have "steady (h cl r)"
        by (intro host_api_steady [OF assms(1)]) (cases ep; simp)
      then show ?thesis using steadyD(3) [OF _ assms(2)] by blast
    qed
  qed
qed


definition demo_restart :: request where
  "demo_restart = (demo_request demo_token)\<lparr>r_body := print_fields [(''action'', ''restart'')],
     r_param := (\<lambda>_. ''nginx.service'')\<rparr>"

definition demo_systemctl :: commands where
  "demo_systemctl cmd = ('''', None)"

lemma demo_restart_body:
  "decode actionRequest_fields \<lparr>xb_Action = ''''\<rparr> demo_restart = Some \<lparr>xb_Action = ''restart''\<rparr>"
  by (simp add: decode_def demo_restart_def first_json_fields actionRequest_fields_def store_member_def demo_members)


end
