(* ===== verification/Hub.thy ===== *)
theory Hub
  imports Buffer
begin

text \<open>
  The WebSocket hub (\<open>internal/websocket/hub.go\<close>): the loop \<open>Run\<close>, the goroutines of a connection
  (\<open>sendHistory\<close>, \<open>writePump\<close>, \<open>readPump\<close>) and the channels between them. Each event is one pass of the loop or
  one turn of a goroutine; the scheduler is any order of enabled events. Go's channels are modelled with their
  panics. The handshake and the token check of \<open>ServeMetrics\<close> are in the theory \<open>Server\<close>.
\<close>

section \<open>Channels\<close>

datatype go_panic = SendOnClosed | CloseOfClosed

record 'm chan =
  ch_buf :: "'m list"
  ch_closed :: bool

definition chan_cap :: nat where "chan_cap = 256"

text \<open>\<open>select { case ch <- m: default: }\<close>, with \<open>Inr None\<close> for the default branch.\<close>

definition try_send :: "'m \<Rightarrow> 'm chan \<Rightarrow> go_panic + 'm chan option" where
  "try_send m ch =
     (if ch_closed ch then Inl SendOnClosed
      else if length (ch_buf ch) < chan_cap then Inr (Some (ch\<lparr>ch_buf := ch_buf ch @ [m]\<rparr>))
      else Inr None)"

definition close_chan :: "'m chan \<Rightarrow> go_panic + 'm chan" where
  "close_chan ch = (if ch_closed ch then Inl CloseOfClosed else Inr (ch\<lparr>ch_closed := True\<rparr>))"

section \<open>The hub\<close>

text \<open>A message: its type and what its data is the JSON text of.\<close>

datatype message = MetricsMsg Snapshot | HistoryMsg "Snapshot option list"

datatype loop = Looping | Blocked | Stopped

text \<open>
  Clients are numbered in the order they are made. Beside the fields of \<open>Hub\<close> the state holds each client's
  channel, the goroutines that have not finished, and what has been written to each connection. \<open>Blocked\<close> is the
  loop waiting to send to its own full channel.
\<close>

record hub =
  hb_clients :: "nat list"
  hb_broadcast :: "message list"
  hb_send :: "nat \<Rightarrow> message chan"
  hb_next :: nat
  hb_history :: "nat list"
  hb_readers :: "nat list"
  hb_writers :: "nat list"
  hb_out :: "nat \<Rightarrow> message list"
  hb_loop :: loop

definition NewHub :: hub where
  "NewHub = \<lparr>hb_clients = [], hb_broadcast = [], hb_send = (\<lambda>_. \<lparr>ch_buf = [], ch_closed = False\<rparr>), hb_next = 0,
     hb_history = [], hb_readers = [], hb_writers = [], hb_out = (\<lambda>_. []), hb_loop = Looping\<rparr>"

text \<open>\<open>h.register <- c\<close> in \<open>ServeMetrics\<close> meets \<open>case c := <-h.register\<close>; three goroutines start.\<close>

definition hub_register :: "hub \<Rightarrow> hub" where
  "hub_register h =
     (let c = hb_next h in
      h\<lparr>hb_clients := hb_clients h @ [c], hb_send := (hb_send h)(c := \<lparr>ch_buf = [], ch_closed = False\<rparr>),
        hb_next := Suc c, hb_history := hb_history h @ [c], hb_readers := hb_readers h @ [c],
        hb_writers := hb_writers h @ [c]\<rparr>)"

text \<open>Closing a client's channel and taking the client off the map.\<close>

definition drop_client :: "nat \<Rightarrow> hub \<Rightarrow> go_panic + hub" where
  "drop_client c h =
     (case close_chan (hb_send h c) of
        Inl p \<Rightarrow> Inl p
      | Inr ch \<Rightarrow> Inr (h\<lparr>hb_send := (hb_send h)(c := ch), hb_clients := removeAll c (hb_clients h)\<rparr>))"

text \<open>\<open>readPump\<close> has failed to read, and its deferred call meets \<open>case c := <-h.unregister\<close>.\<close>

definition hub_unregister :: "nat \<Rightarrow> hub \<Rightarrow> go_panic + hub" where
  "hub_unregister c h =
     (let h = h\<lparr>hb_readers := removeAll c (hb_readers h)\<rparr> in
      if c \<in> set (hb_clients h) then drop_client c h else Inr h)"

text \<open>The range over the clients; a client whose channel is full is dropped.\<close>

fun hub_deliver :: "message \<Rightarrow> nat list \<Rightarrow> hub \<Rightarrow> go_panic + hub" where
  "hub_deliver m [] h = Inr h"
| "hub_deliver m (c # cs) h =
     (case try_send m (hb_send h c) of
        Inl p \<Rightarrow> Inl p
      | Inr (Some ch) \<Rightarrow> hub_deliver m cs (h\<lparr>hb_send := (hb_send h)(c := ch)\<rparr>)
      | Inr None \<Rightarrow> (case drop_client c h of Inl p \<Rightarrow> Inl p | Inr h \<Rightarrow> hub_deliver m cs h))"

text \<open>\<open>case <-ticker.C\<close> with \<open>broadcastSnapshot\<close>.\<close>

definition hub_tick :: "buffer \<Rightarrow> hub \<Rightarrow> hub" where
  "hub_tick b h =
     (case Latest b of
        None \<Rightarrow> h
      | Some snap \<Rightarrow>
          if length (hb_broadcast h) < chan_cap then h\<lparr>hb_broadcast := hb_broadcast h @ [MetricsMsg snap]\<rparr>
          else h\<lparr>hb_loop := Blocked\<rparr>)"

definition sendHistory :: "buffer \<Rightarrow> nat \<Rightarrow> hub \<Rightarrow> go_panic + hub" where
  "sendHistory b c h =
     (let h = h\<lparr>hb_history := remove1 c (hb_history h)\<rparr> in
      if History b = [] then Inr h
      else (case try_send (HistoryMsg (History b)) (hb_send h c) of
              Inl p \<Rightarrow> Inl p
            | Inr None \<Rightarrow> Inr h
            | Inr (Some ch) \<Rightarrow> Inr (h\<lparr>hb_send := (hb_send h)(c := ch)\<rparr>)))"

text \<open>
  One turn of \<open>writePump\<close>'s select on the channel; \<open>ok\<close> says whether the connection takes the message. The writer
  ends on an error and on the closed channel.
\<close>

definition writePump :: "bool \<Rightarrow> nat \<Rightarrow> hub \<Rightarrow> hub" where
  "writePump ok c h =
     (case ch_buf (hb_send h c) of
        m # ms \<Rightarrow>
          let h = h\<lparr>hb_send := (hb_send h)(c := (hb_send h c)\<lparr>ch_buf := ms\<rparr>)\<rparr> in
          if ok then h\<lparr>hb_out := (hb_out h)(c := hb_out h c @ [m])\<rparr>
          else h\<lparr>hb_writers := removeAll c (hb_writers h)\<rparr>
      | [] \<Rightarrow> h\<lparr>hb_writers := removeAll c (hb_writers h)\<rparr>)"

text \<open>A turn of its select on the ping ticker: a failed ping ends the writer too.\<close>

definition writePump_ping :: "bool \<Rightarrow> nat \<Rightarrow> hub \<Rightarrow> hub" where
  "writePump_ping ok c h = (if ok then h else h\<lparr>hb_writers := removeAll c (hb_writers h)\<rparr>)"

datatype event =
    Register | Unregister nat | Broadcast | Tick buffer | Stop
  | History_of nat buffer | Write nat bool | Ping nat bool

text \<open>An event, when it can happen (\<open>None\<close> when not).\<close>

fun hub_do :: "event \<Rightarrow> hub \<Rightarrow> (go_panic + hub) option" where
  "hub_do Register h = (if hb_loop h = Looping then Some (Inr (hub_register h)) else None)"
| "hub_do (Unregister c) h =
     (if hb_loop h = Looping \<and> c \<in> set (hb_readers h) then Some (hub_unregister c h) else None)"
| "hub_do Broadcast h =
     (case hb_broadcast h of
        m # ms \<Rightarrow> if hb_loop h = Looping then Some (hub_deliver m (hb_clients h) (h\<lparr>hb_broadcast := ms\<rparr>)) else None
      | [] \<Rightarrow> None)"
| "hub_do (Tick b) h = (if hb_loop h = Looping then Some (Inr (hub_tick b h)) else None)"
| "hub_do (History_of c b) h = (if c \<in> set (hb_history h) then Some (sendHistory b c h) else None)"
| "hub_do (Write c ok) h =
     (if c \<in> set (hb_writers h) \<and> (ch_buf (hb_send h c) \<noteq> [] \<or> ch_closed (hb_send h c))
      then Some (Inr (writePump ok c h)) else None)"
| "hub_do (Ping c ok) h = (if c \<in> set (hb_writers h) then Some (Inr (writePump_ping ok c h)) else None)"
| "hub_do Stop h = (if hb_loop h = Looping then Some (Inr (h\<lparr>hb_loop := Stopped\<rparr>)) else None)"

definition ClientCount :: "hub \<Rightarrow> nat" where
  "ClientCount h = length (hb_clients h)"

text \<open>The runs of a hub, with what happened in which state.\<close>

inductive hub_run :: "(event \<times> hub) list \<Rightarrow> hub \<Rightarrow> bool" where
  start: "hub_run [] NewHub"
| step: "hub_run tr h \<Longrightarrow> hub_do e h = Some (Inr h') \<Longrightarrow> hub_run (tr @ [(e, h)]) h'"

section \<open>The invariant\<close>

definition hub_ok :: "hub \<Rightarrow> bool" where
  "hub_ok h =
     (distinct (hb_clients h)
      \<and> set (hb_clients h) \<union> set (hb_history h) \<union> set (hb_readers h) \<union> set (hb_writers h) \<subseteq> {..<hb_next h}
      \<and> (\<forall>c < hb_next h. ch_closed (hb_send h c) \<longleftrightarrow> c \<notin> set (hb_clients h))
      \<and> (\<forall>c. length (ch_buf (hb_send h c)) \<le> chan_cap) \<and> length (hb_broadcast h) \<le> chan_cap
      \<and> (\<forall>c \<ge> hb_next h. hb_out h c = []))"

lemma hub_ok_open: "hub_ok h \<Longrightarrow> c \<in> set (hb_clients h) \<Longrightarrow> \<not> ch_closed (hb_send h c)"
  by (auto simp: hub_ok_def)

definition offer :: "'m \<Rightarrow> 'm chan \<Rightarrow> 'm chan" where
  "offer m ch = (if length (ch_buf ch) < chan_cap then ch\<lparr>ch_buf := ch_buf ch @ [m]\<rparr> else ch\<lparr>ch_closed := True\<rparr>)"

definition delivered :: "message \<Rightarrow> nat list \<Rightarrow> hub \<Rightarrow> hub" where
  "delivered m cs h =
     h\<lparr>hb_send := (\<lambda>c. if c \<in> set cs then offer m (hb_send h c) else hb_send h c),
       hb_clients := filter (\<lambda>c. c \<in> set cs \<longrightarrow> length (ch_buf (hb_send h c)) < chan_cap) (hb_clients h)\<rparr>"

lemma hub_deliver_eq:
  assumes "distinct cs" "\<forall>c \<in> set cs. \<not> ch_closed (hb_send h c)"
  shows "hub_deliver m cs h = Inr (delivered m cs h)"
  using assms
proof (induction cs arbitrary: h)
  case (Cons c cs)
  define h1 where "h1 = (if length (ch_buf (hb_send h c)) < chan_cap
    then h\<lparr>hb_send := (hb_send h)(c := offer m (hb_send h c))\<rparr>
    else h\<lparr>hb_send := (hb_send h)(c := offer m (hb_send h c)), hb_clients := removeAll c (hb_clients h)\<rparr>)"
  have "hub_deliver m (c # cs) h = hub_deliver m cs h1"
    using Cons.prems(2) by (simp add: h1_def try_send_def offer_def drop_client_def close_chan_def)
  also have "\<dots> = Inr (delivered m cs h1)"
    using Cons.prems by (intro Cons.IH) (auto simp: h1_def)
  also have "delivered m cs h1 = delivered m (c # cs) h"
    using Cons.prems(1) unfolding h1_def delivered_def
    by (cases h) (auto simp: fun_eq_iff removeAll_filter_not_eq intro!: filter_cong)
  finally show ?case .
qed (simp add: delivered_def)

lemma unregister_eq:
  assumes "hub_ok h"
  shows "hub_unregister c h = Inr (h\<lparr>hb_readers := removeAll c (hb_readers h), hb_clients := removeAll c (hb_clients h),
    hb_send := (if c \<in> set (hb_clients h) then (hb_send h)(c := (hb_send h c)\<lparr>ch_closed := True\<rparr>) else hb_send h)\<rparr>)"
  using hub_ok_open [OF assms] by (auto simp: hub_unregister_def drop_client_def close_chan_def Let_def removeAll_id)

lemma broadcast_eq:
  assumes "hub_ok h" "hb_broadcast h = m # ms"
  shows "hub_deliver m (hb_clients h) (h\<lparr>hb_broadcast := ms\<rparr>) = Inr (delivered m (hb_clients h) (h\<lparr>hb_broadcast := ms\<rparr>))"
  using assms by (intro hub_deliver_eq) (auto simp: hub_ok_def)

lemma hub_ok_New: "hub_ok NewHub"
  by (simp add: hub_ok_def NewHub_def)

text \<open>What an event does to a well-formed hub, when it does not panic.\<close>

lemma hub_do_cases:
  assumes "hub_ok h" "hub_do e h = Some (Inr h')"
  obtains (register) "e = Register" "h' = hub_register h"
    | (unregister) c where "e = Unregister c" "c \<in> set (hb_readers h)"
        "h' = h\<lparr>hb_readers := removeAll c (hb_readers h), hb_clients := removeAll c (hb_clients h),
           hb_send := (if c \<in> set (hb_clients h) then (hb_send h)(c := (hb_send h c)\<lparr>ch_closed := True\<rparr>) else hb_send h)\<rparr>"
    | (broadcast) m ms where "e = Broadcast" "hb_broadcast h = m # ms"
        "h' = delivered m (hb_clients h) (h\<lparr>hb_broadcast := ms\<rparr>)"
    | (queued) b snap where "e = Tick b" "length (hb_broadcast h) < chan_cap"
        "h' = h\<lparr>hb_broadcast := hb_broadcast h @ [MetricsMsg snap]\<rparr>"
    | (loop) l where "e = Stop \<or> (\<exists>b. e = Tick b) \<or> (\<exists>c. e = Ping c True)" "h' = h\<lparr>hb_loop := l\<rparr>"
    | (skipped) c b where "e = History_of c b" "c \<in> set (hb_history h)" "h' = h\<lparr>hb_history := remove1 c (hb_history h)\<rparr>"
    | (history) c b where "e = History_of c b" "c \<in> set (hb_history h)" "length (ch_buf (hb_send h c)) < chan_cap"
        "h' = h\<lparr>hb_history := remove1 c (hb_history h),
           hb_send := (hb_send h)(c := (hb_send h c)\<lparr>ch_buf := ch_buf (hb_send h c) @ [HistoryMsg (History b)]\<rparr>)\<rparr>"
    | (wrote) c m ms where "e = Write c True" "c \<in> set (hb_writers h)" "ch_buf (hb_send h c) = m # ms"
        "h' = h\<lparr>hb_send := (hb_send h)(c := (hb_send h c)\<lparr>ch_buf := ms\<rparr>), hb_out := (hb_out h)(c := hb_out h c @ [m])\<rparr>"
    | (lost) c m ms where "e = Write c False" "c \<in> set (hb_writers h)" "ch_buf (hb_send h c) = m # ms"
        "h' = h\<lparr>hb_send := (hb_send h)(c := (hb_send h c)\<lparr>ch_buf := ms\<rparr>), hb_writers := removeAll c (hb_writers h)\<rparr>"
    | (ended) c ok where "e = Write c ok \<or> e = Ping c ok" "c \<in> set (hb_writers h)"
        "h' = h\<lparr>hb_writers := removeAll c (hb_writers h)\<rparr>"
proof (cases e)
  case Register
  with assms(2) register show thesis by (auto split: if_splits)
next
  case (Unregister c)
  with assms(2) unregister_eq [OF assms(1), of c] unregister [of c] show thesis by (auto split: if_splits)
next
  case Broadcast
  then obtain m ms where m: "hb_broadcast h = m # ms" using assms(2) by (auto split: list.splits)
  with broadcast_eq [OF assms(1) m] assms(2) Broadcast broadcast [of m ms] show thesis by (auto split: if_splits)
next
  case (Tick b)
  then have h': "h' = hub_tick b h" using assms(2) by (auto split: if_splits)
  show thesis
  proof (cases "Latest b")
    case None
    with h' Tick loop [of "hb_loop h"] show thesis by (simp add: hub_tick_def)
  next
    case (Some snap)
    with h' Tick queued [of b snap] loop [of Blocked] show thesis by (simp add: hub_tick_def split: if_splits)
  qed
next
  case Stop
  with assms(2) loop [of Stopped] show thesis by (auto split: if_splits)
next
  case (History_of c b)
  then have c: "c \<in> set (hb_history h)" and h': "sendHistory b c h = Inr h'" using assms(2) by (auto split: if_splits)
  show thesis
  proof (cases "History b = [] \<or> \<not> length (ch_buf (hb_send h c)) < chan_cap")
    case True
    with h' have "h' = h\<lparr>hb_history := remove1 c (hb_history h)\<rparr>"
      by (auto simp: sendHistory_def try_send_def Let_def split: if_splits)
    with History_of c show thesis by (rule skipped)
  next
    case False
    with h' have "h' = h\<lparr>hb_history := remove1 c (hb_history h),
        hb_send := (hb_send h)(c := (hb_send h c)\<lparr>ch_buf := ch_buf (hb_send h c) @ [HistoryMsg (History b)]\<rparr>)\<rparr>"
      by (auto simp: sendHistory_def try_send_def Let_def split: if_splits)
    with History_of c False show thesis by (intro history) auto
  qed
next
  case (Write c ok)
  then have c: "c \<in> set (hb_writers h)" and h': "h' = writePump ok c h" using assms(2) by (auto split: if_splits)
  show thesis
  proof (cases "ch_buf (hb_send h c)")
    case Nil
    with h' Write c show thesis by (intro ended) (auto simp: writePump_def)
  next
    case (Cons m ms)
    then show thesis using h' Write c wrote [OF _ c Cons] lost [OF _ c Cons] by (cases ok) (simp_all add: writePump_def Let_def)
  qed
next
  case (Ping c ok)
  then have c: "c \<in> set (hb_writers h)" and h': "h' = writePump_ping ok c h" using assms(2) by (auto split: if_splits)
  then show thesis using Ping ended [OF _ c] loop [of "hb_loop h"] by (cases ok) (simp_all add: writePump_ping_def)
qed

lemma hub_ok_do:
  assumes "hub_ok h" "hub_do e h = Some (Inr h')"
  shows "hub_ok h'"
  using assms
proof (cases rule: hub_do_cases)
  case register
  with assms(1) show ?thesis by (auto simp: hub_ok_def hub_register_def Let_def)
next
  case (unregister c)
  then show ?thesis
    using assms(1) unfolding hub_ok_def by (cases "c \<in> set (hb_clients h)") (auto simp: distinct_removeAll)
next
  case (broadcast m ms)
  with assms(1) show ?thesis by (auto simp: hub_ok_def delivered_def offer_def)
next
  case (skipped c b)
  with assms(1) set_remove1_subset [of c "hb_history h"] show ?thesis by (auto simp: hub_ok_def)
next
  case (history c b)
  with assms(1) set_remove1_subset [of c "hb_history h"] show ?thesis by (auto simp: hub_ok_def)
next
  case (wrote c m ms)
  then have "length (ch_buf (hb_send h c)) = Suc (length ms)" by simp
  then have "Suc (length ms) \<le> chan_cap" using assms(1) unfolding hub_ok_def by metis
  with wrote assms(1) show ?thesis by (auto simp: hub_ok_def)
next
  case (lost c m ms)
  then have "length (ch_buf (hb_send h c)) = Suc (length ms)" by simp
  then have "Suc (length ms) \<le> chan_cap" using assms(1) unfolding hub_ok_def by metis
  with lost assms(1) show ?thesis by (auto simp: hub_ok_def)
qed (use assms(1) in \<open>auto simp: hub_ok_def\<close>)

lemma hub_run_ok: "hub_run tr h \<Longrightarrow> hub_ok h"
  by (induction rule: hub_run.induct) (auto intro: hub_ok_New hub_ok_do)

section \<open>What can go wrong\<close>

text \<open>C13: In every run of the hub each client on the map has an open channel and every other client a closed one, no
  channel holds more than 256 messages, and no channel is closed twice: the only event that can panic is the
  goroutine that sends the history, and it does so exactly when its client has left the map before and there is a
  history to send.\<close>

theorem hub_panics_iff:
  assumes "hub_run tr h" "hub_do e h = Some r"
  shows "(\<forall>c < hb_next h. ch_closed (hb_send h c) \<longleftrightarrow> c \<notin> set (hb_clients h))
    \<and> (\<forall>c. length (ch_buf (hb_send h c)) \<le> chan_cap)
    \<and> (r = Inl p \<longleftrightarrow> p = SendOnClosed \<and> (\<exists>c b. e = History_of c b \<and> History b \<noteq> [] \<and> c \<notin> set (hb_clients h)))"
proof -
  note ok = hub_run_ok [OF assms(1)]
  have "r = Inl p \<longleftrightarrow> p = SendOnClosed \<and> (\<exists>c b. e = History_of c b \<and> History b \<noteq> [] \<and> c \<notin> set (hb_clients h))"
  proof (cases e)
    case (Unregister c)
    with assms(2) unregister_eq [OF ok, of c] show ?thesis by (auto split: if_splits)
  next
    case Broadcast
    then obtain m ms where m: "hb_broadcast h = m # ms" using assms(2) by (auto split: list.splits)
    with Broadcast assms(2) broadcast_eq [OF ok m] show ?thesis by (auto split: if_splits)
  next
    case (History_of c b)
    then have "c \<in> set (hb_history h)" using assms(2) by (auto split: if_splits)
    then have "ch_closed (hb_send h c) \<longleftrightarrow> c \<notin> set (hb_clients h)" using ok by (auto simp: hub_ok_def)
    with History_of assms(2) show ?thesis
      by (auto simp: sendHistory_def try_send_def Let_def split: if_splits)
  qed (use assms(2) in \<open>auto split: if_splits\<close>)
  with ok show ?thesis by (simp add: hub_ok_def)
qed

text \<open>A client that connects and goes away before its history was sent stops the whole process: after any run of
  the hub whose loop is running, accepting a client, unregistering it and then its \<open>sendHistory\<close>, with at least one
  snapshot measured, is a send on a closed channel, which panics in a goroutine of its own.\<close>

theorem quick_disconnect_panics:
  assumes "hub_run tr h" "hb_loop h = Looping" "History b \<noteq> []"
  shows "\<exists>tr' h'. hub_run (tr @ tr') h' \<and> map fst tr' = [Register, Unregister (hb_next h)]
    \<and> hub_do (History_of (hb_next h) b) h' = Some (Inl SendOnClosed)"
proof -
  let ?c = "hb_next h"
  let ?h1 = "hub_register h"
  have one: "hub_run (tr @ [(Register, h)]) ?h1" by (rule hub_run.step [OF assms(1)]) (simp add: assms(2))
  have l: "hb_loop ?h1 = Looping" "?c \<in> set (hb_readers ?h1)" "?c \<in> set (hb_clients ?h1)" "?c \<in> set (hb_history ?h1)"
    using assms(2) by (simp_all add: hub_register_def Let_def)
  obtain h2 where h2: "hub_unregister ?c ?h1 = Inr h2" "ch_closed (hb_send h2 ?c)" "hb_history h2 = hb_history ?h1"
    using unregister_eq [OF hub_run_ok [OF one], of ?c] l(3) by simp
  have "hub_run ((tr @ [(Register, h)]) @ [(Unregister ?c, ?h1)]) h2"
    by (rule hub_run.step [OF one]) (simp add: l h2(1))
  moreover have "hub_do (History_of ?c b) h2 = Some (Inl SendOnClosed)"
    using l(4) h2 assms(3) by (simp add: sendHistory_def try_send_def Let_def)
  ultimately show ?thesis by (intro exI [of _ "[(Register, h), (Unregister ?c, ?h1)]"] exI [of _ h2]) simp
qed

definition demo_snapshots :: buffer where
  "demo_snapshots = Push NewBuffer (fst (Collect demo_kernel 1 demo_collector))"

lemma demo_snapshots_history: "History demo_snapshots \<noteq> []"
  using History_Push [of NewBuffer] by (simp add: demo_snapshots_def NewBuffer_def BufferSize_def History_def)

theorem quick_disconnect_panics_witness:
  "\<exists>tr' h'. hub_run tr' h' \<and> map fst tr' = [Register, Unregister 0]
    \<and> hub_do (History_of 0 demo_snapshots) h' = Some (Inl SendOnClosed)"
  using quick_disconnect_panics [OF hub_run.start _ demo_snapshots_history] by (simp add: NewHub_def)

theorem hub_panics_iff_witness:
  "\<exists>tr h. hub_run tr h \<and> map fst tr = [Register, Unregister 0] \<and> ch_closed (hb_send h 0)
     \<and> hub_do (History_of 0 demo_snapshots) h = Some (Inl SendOnClosed)"
proof -
  let ?h1 = "hub_register NewHub"
  have one: "hub_run ([] @ [(Register, NewHub)]) ?h1"
    by (rule hub_run.step [OF hub_run.start]) (simp add: NewHub_def)
  obtain h2 where h2: "hub_do (Unregister 0) ?h1 = Some (Inr h2)" "hb_clients h2 = []" "hb_history h2 = [0]" "hb_next h2 = 1"
    by (simp add: NewHub_def hub_register_def hub_unregister_def drop_client_def close_chan_def Let_def)
  have two: "hub_run (([] @ [(Register, NewHub)]) @ [(Unregister 0, ?h1)]) h2" by (rule hub_run.step [OF one h2(1)])
  obtain r where r: "hub_do (History_of 0 demo_snapshots) h2 = Some r" using h2(3) by simp
  from hub_panics_iff [OF two r, of SendOnClosed] h2 r two demo_snapshots_history show ?thesis
    by (intro exI [of _ "[(Register, NewHub), (Unregister 0, ?h1)]"] exI [of _ h2]) auto
qed

section \<open>What a client receives\<close>

definition is_metrics :: "message \<Rightarrow> bool" where
  "is_metrics m = (case m of MetricsMsg _ \<Rightarrow> True | HistoryMsg _ \<Rightarrow> False)"

lemma is_metrics_simps [simp]: "is_metrics (MetricsMsg s)" "\<not> is_metrics (HistoryMsg l)"
  by (simp_all add: is_metrics_def)

text \<open>What the loop broadcast since a client was accepted.\<close>

definition heard :: "nat \<Rightarrow> (event \<times> hub) list \<Rightarrow> message list" where
  "heard c tr = concat (map (\<lambda>(e, h). if e = Broadcast \<and> c < hb_next h then take 1 (hb_broadcast h) else []) tr)"

lemma heard_simps [simp]:
  "heard c [] = []"
  "heard c (tr @ [(e, h)]) = heard c tr @ (if e = Broadcast \<and> c < hb_next h then take 1 (hb_broadcast h) else [])"
  by (simp_all add: heard_def)

text \<open>A client's metrics: those written, and those written or waiting.\<close>

definition written :: "hub \<Rightarrow> nat \<Rightarrow> message list" where
  "written h c = filter is_metrics (hb_out h c)"

definition got :: "hub \<Rightarrow> nat \<Rightarrow> message list" where
  "got h c = filter is_metrics (hb_out h c @ ch_buf (hb_send h c))"

definition fed :: "(event \<times> hub) list \<Rightarrow> hub \<Rightarrow> bool" where
  "fed tr h =
     ((\<forall>m \<in> set (hb_broadcast h). is_metrics m)
      \<and> (\<forall>c \<ge> hb_next h. heard c tr = [])
      \<and> (\<forall>c. prefix (written h c) (heard c tr))
      \<and> (\<forall>c \<in> set (hb_writers h). prefix (got h c) (heard c tr) \<and> (c \<in> set (hb_clients h) \<longrightarrow> got h c = heard c tr)))"

lemma fedI:
  assumes "\<And>m. m \<in> set (hb_broadcast h) \<Longrightarrow> is_metrics m" "\<And>c. c \<ge> hb_next h \<Longrightarrow> heard c tr = []"
    and "\<And>c. prefix (written h c) (heard c tr)" "\<And>c. c \<in> set (hb_writers h) \<Longrightarrow> prefix (got h c) (heard c tr)"
    and "\<And>c. c \<in> set (hb_writers h) \<Longrightarrow> c \<in> set (hb_clients h) \<Longrightarrow> got h c = heard c tr"
  shows "fed tr h"
  using assms by (simp add: fed_def)

lemma fedD:
  assumes "fed tr h"
  shows "m \<in> set (hb_broadcast h) \<Longrightarrow> is_metrics m" "c \<ge> hb_next h \<Longrightarrow> heard c tr = []"
    "prefix (written h c) (heard c tr)" "c \<in> set (hb_writers h) \<Longrightarrow> prefix (got h c) (heard c tr)"
    "c \<in> set (hb_writers h) \<Longrightarrow> c \<in> set (hb_clients h) \<Longrightarrow> got h c = heard c tr"
  using assms by (simp_all add: fed_def)

lemma fed_broadcast:
  assumes "fed tr h" "hub_ok h" "hb_broadcast h = m # ms"
  shows "fed (tr @ [(Broadcast, h)]) (delivered m (hb_clients h) (h\<lparr>hb_broadcast := ms\<rparr>))"
    (is "fed ?tr ?h")
proof (rule fedI)
  note D = fedD [OF assms(1)]
  have m: "is_metrics m" using D(1) assms(3) by simp
  have h: "heard c ?tr = heard c tr @ (if c < hb_next h then [m] else [])" for c using assms(3) by simp
  fix c
  have w: "written ?h c = written h c" by (simp add: written_def delivered_def)
  have g: "got ?h c = (if c \<in> set (hb_clients h) \<and> length (ch_buf (hb_send h c)) < chan_cap then got h c @ [m] else got h c)"
    using m by (simp add: got_def delivered_def offer_def)
  show "prefix (written ?h c) (heard c ?tr)" unfolding w h by (rule prefix_prefix [OF D(3)])
  show "hb_next ?h \<le> c \<Longrightarrow> heard c ?tr = []" using D(2) by (simp add: h delivered_def)
  have in_next: "c \<in> set (hb_clients h) \<Longrightarrow> c < hb_next h" using assms(2) by (auto simp: hub_ok_def)
  assume "c \<in> set (hb_writers ?h)"
  then have c: "c \<in> set (hb_writers h)" by (simp add: delivered_def)
  show "prefix (got ?h c) (heard c ?tr)"
    using D(4,5) [OF c] in_next unfolding g h by (auto intro: prefix_prefix)
  assume "c \<in> set (hb_clients ?h)"
  then show "got ?h c = heard c ?tr" using D(5) [OF c] in_next unfolding g h by (auto simp: delivered_def)
qed (use assms fedD(1) [OF assms(1)] in \<open>auto simp: delivered_def\<close>)

lemma fed_other:
  assumes "fed tr h" "e \<noteq> Broadcast" "hb_broadcast h' = hb_broadcast h" "hb_next h' = hb_next h"
    and "\<And>c. written h' c = written h c \<or> c \<in> set (hb_writers h) \<and> prefix (written h' c) (got h c)"
    and "\<And>c. c \<in> set (hb_writers h') \<Longrightarrow> c \<in> set (hb_writers h) \<and> got h' c = got h c"
    and "set (hb_clients h') \<subseteq> set (hb_clients h)"
  shows "fed (tr @ [(e, h)]) h'"
proof (rule fedI)
  note D = fedD [OF assms(1)]
  have same: "heard c (tr @ [(e, h)]) = heard c tr" for c using assms(2) by simp
  fix c
  show "hb_next h' \<le> c \<Longrightarrow> heard c (tr @ [(e, h)]) = []" using D(2) assms(4) unfolding same by simp
  show "prefix (written h' c) (heard c (tr @ [(e, h)]))"
    using assms(5) [of c] D(3,4) unfolding same by (metis prefix_order.trans)
  assume w: "c \<in> set (hb_writers h')"
  then show "prefix (got h' c) (heard c (tr @ [(e, h)]))" using assms(6) D(4) unfolding same by metis
  assume "c \<in> set (hb_clients h')"
  with w show "got h' c = heard c (tr @ [(e, h)])" using assms(6,7) D(5) unfolding same by (metis subsetD)
qed (use assms fedD(1) [OF assms(1)] in auto)

lemma fed_do:
  assumes "fed tr h" "hub_ok h" "hub_do e h = Some (Inr h')"
  shows "fed (tr @ [(e, h)]) h'"
  using assms(2,3)
proof (cases rule: hub_do_cases)
  case register
  show ?thesis
  proof (rule fedI)
    note D = fedD [OF assms(1)]
    have same: "heard c (tr @ [(e, h)]) = heard c tr" for c using register(1) by simp
    have new: "got h' (hb_next h) = []" "written h' (hb_next h) = []" "heard (hb_next h) tr = []"
      using assms(2) D(2) register(2) by (simp_all add: hub_ok_def got_def written_def hub_register_def Let_def)
    have old: "got h' c = got h c" "written h' c = written h c" if "c \<noteq> hb_next h" for c
      using that register(2) by (simp_all add: got_def written_def hub_register_def Let_def)
    fix c
    show "prefix (written h' c) (heard c (tr @ [(e, h)]))"
      using new old [of c] D(3) unfolding same by (cases "c = hb_next h") auto
    show "hb_next h' \<le> c \<Longrightarrow> heard c (tr @ [(e, h)]) = []"
      using D(2) register(2) unfolding same by (simp add: hub_register_def Let_def)
    assume "c \<in> set (hb_writers h')"
    then have w: "c = hb_next h \<or> c \<in> set (hb_writers h) \<and> c \<noteq> hb_next h"
      using register(2) by (auto simp: hub_register_def Let_def)
    then show "prefix (got h' c) (heard c (tr @ [(e, h)]))" using new old [of c] D(4) unfolding same by auto
    assume "c \<in> set (hb_clients h')"
    then have "c = hb_next h \<or> c \<in> set (hb_clients h)" using register(2) by (auto simp: hub_register_def Let_def)
    with w show "got h' c = heard c (tr @ [(e, h)])" using new old [of c] D(5) unfolding same by auto
  qed (use register fedD(1) [OF assms(1)] in \<open>auto simp: hub_register_def Let_def\<close>)
next
  case (broadcast m ms)
  with fed_broadcast [OF assms(1,2)] show ?thesis by simp
next
  case (queued b snap)
  have "fed (tr @ [(e, h)]) h" by (rule fed_other [OF assms(1)]) (use queued in auto)
  then show ?thesis using queued(3) by (auto simp: fed_def got_def written_def)
next
  case (unregister c)
  show ?thesis by (rule fed_other [OF assms(1)]) (use unregister in \<open>auto simp: got_def written_def\<close>)
next
  case (loop l)
  show ?thesis by (rule fed_other [OF assms(1)]) (use loop in \<open>auto simp: got_def written_def\<close>)
next
  case (skipped c b)
  show ?thesis by (rule fed_other [OF assms(1)]) (use skipped in \<open>auto simp: got_def written_def\<close>)
next
  case (history c b)
  show ?thesis by (rule fed_other [OF assms(1)]) (use history in \<open>auto simp: got_def written_def\<close>)
next
  case (wrote c m ms)
  show ?thesis by (rule fed_other [OF assms(1)]) (use wrote in \<open>auto simp: got_def written_def\<close>)
next
  case (lost c m ms)
  show ?thesis by (rule fed_other [OF assms(1)]) (use lost in \<open>auto simp: got_def written_def\<close>)
next
  case (ended c ok)
  show ?thesis by (rule fed_other [OF assms(1)]) (use ended in \<open>auto simp: got_def written_def\<close>)
qed

lemma hub_run_fed: "hub_run tr h \<Longrightarrow> fed tr h"
proof (induction rule: hub_run.induct)
  case start
  show ?case by (simp add: fed_def NewHub_def written_def)
next
  case (step tr h e h')
  from fed_do [OF step.IH hub_run_ok [OF step.hyps(1)] step.hyps(2)] show ?case .
qed

text \<open>C14: What a connection is sent has no gaps: at every moment the metrics written to it are an initial part of
  those the loop broadcast since it was accepted, in order, none missing or repeated; and while the client is on
  the map and its writer runs, what was written and what waits in its channel are together exactly those
  broadcasts. A client that cannot keep up is taken off the map instead.\<close>

theorem hub_no_gaps:
  assumes "hub_run tr h"
  shows "prefix (written h c) (heard c tr)
    \<and> (c \<in> set (hb_clients h) \<longrightarrow> c \<in> set (hb_writers h) \<longrightarrow> got h c = heard c tr)"
  using fedD [OF hub_run_fed [OF assms]] by blast

fun hub_events :: "event list \<Rightarrow> hub \<Rightarrow> hub option" where
  "hub_events [] h = Some h"
| "hub_events (e # es) h = (case hub_do e h of Some (Inr h') \<Rightarrow> hub_events es h' | _ \<Rightarrow> None)"

lemma hub_events_run:
  "hub_run tr h \<Longrightarrow> hub_events es h = Some h' \<Longrightarrow> \<exists>tr'. hub_run (tr @ tr') h' \<and> map fst tr' = es"
proof (induction es arbitrary: tr h)
  case Nil
  then show ?case by (intro exI [of _ "[]"]) simp
next
  case (Cons e es)
  then obtain h1 where h1: "hub_do e h = Some (Inr h1)" "hub_events es h1 = Some h'"
    by (auto split: option.splits sum.splits)
  from Cons.IH [OF hub_run.step [OF Cons.prems(1) h1(1)] h1(2)] obtain tr' where
    "hub_run ((tr @ [(e, h)]) @ tr') h'" "map fst tr' = es" by blast
  then show ?case by (intro exI [of _ "(e, h) # tr'"]) simp
qed

theorem hub_no_gaps_witness:
  "\<exists>tr h snap. hub_run tr h \<and> map fst tr = [Register, Tick demo_snapshots, Broadcast, Write 0 True]
     \<and> heard 0 tr = [MetricsMsg snap] \<and> written h 0 = heard 0 tr"
proof -
  let ?es = "[Register, Tick demo_snapshots, Broadcast, Write 0 True]"
  obtain snap where snap: "Latest demo_snapshots = Some snap"
    using bf.latest_pushes [of "[fst (Collect demo_kernel 1 demo_collector)]"] by (simp add: demo_snapshots_def BufferSize_def)
  obtain h where h: "hub_events ?es NewHub = Some h" "hb_out h 0 = [MetricsMsg snap]" "hb_clients h = [0]" "hb_writers h = [0]"
    "ch_buf (hb_send h 0) = []"
    by (simp add: NewHub_def hub_register_def hub_tick_def snap chan_cap_def try_send_def writePump_def Let_def)
  from hub_events_run [OF hub_run.start h(1)] obtain tr where tr: "hub_run tr h" "map fst tr = ?es" by auto
  from hub_no_gaps [OF tr(1), of 0] h have "got h 0 = heard 0 tr" by simp
  moreover have "written h 0 = [MetricsMsg snap]" "got h 0 = [MetricsMsg snap]" by (simp_all add: written_def got_def h(2,5))
  ultimately show ?thesis using tr by metis
qed

section \<open>The hub comes to rest\<close>

text \<open>The turns that take something from a queue, and all those that neither accept a client nor measure
  anything.\<close>

fun driven :: "event \<Rightarrow> bool" where
  "driven Broadcast = True"
| "driven (History_of c b) = True"
| "driven (Write c ok) = True"
| "driven _ = False"

fun internal :: "event \<Rightarrow> bool" where
  "internal (Unregister c) = True"
| "internal (Ping c ok) = True"
| "internal e = driven e"

fun good_ping :: "event \<Rightarrow> bool" where
  "good_ping (Ping c ok) = ok"
| "good_ping _ = False"

lemma good_ping_nothing: "good_ping e \<Longrightarrow> hub_do e h = Some (Inr h') \<Longrightarrow> h' = h"
  by (cases e) (auto simp: writePump_ping_def split: if_splits)

lemma internal_loop: "internal e \<Longrightarrow> hub_ok h \<Longrightarrow> hub_do e h = Some (Inr h') \<Longrightarrow> hb_loop h' = hb_loop h"
  by (cases e) (auto simp: hub_deliver_eq broadcast_eq unregister_eq delivered_def sendHistory_def writePump_def
      writePump_ping_def Let_def split: if_splits list.splits sum.splits option.splits)

text \<open>The work left: what is queued may still be copied to every client.\<close>

definition hub_work :: "hub \<Rightarrow> nat" where
  "hub_work h = (hb_next h + 1) * length (hb_broadcast h) + (\<Sum>c < hb_next h. length (ch_buf (hb_send h c)))
     + 2 * length (hb_history h) + length (hb_readers h) + length (hb_writers h)"

lemma sum_chan_update:
  assumes "c < n" "\<And>d. d \<noteq> c \<Longrightarrow> g d = f d"
  shows "(\<Sum>d < n. length (ch_buf (g d))) + length (ch_buf (f c)) = (\<Sum>d < (n :: nat). length (ch_buf (f d))) + length (ch_buf (g c))"
proof -
  have "(\<Sum>d \<in> {..<n} - {c}. length (ch_buf (g d))) = (\<Sum>d \<in> {..<n} - {c}. length (ch_buf (f d)))"
    using assms(2) by (intro sum.cong) auto
  with assms(1) show ?thesis
    using sum.remove [of "{..<n}" c "\<lambda>d. length (ch_buf (g d))"] sum.remove [of "{..<n}" c "\<lambda>d. length (ch_buf (f d))"]
    by simp
qed

lemma sum_offer: "(\<Sum>c < n. length (ch_buf (if P c then offer m (f c) else f c))) \<le> (\<Sum>c < (n :: nat). length (ch_buf (f c))) + n"
proof -
  have "(\<Sum>c < n. length (ch_buf (if P c then offer m (f c) else f c))) \<le> (\<Sum>c < n. length (ch_buf (f c)) + 1)"
    by (rule sum_mono) (simp add: offer_def)
  also have "\<dots> = (\<Sum>c < n. length (ch_buf (f c))) + n" unfolding sum.distrib by simp
  finally show ?thesis .
qed

lemma length_removeAll_less: "c \<in> set xs \<Longrightarrow> length (removeAll c xs) < length xs"
  by (simp add: removeAll_filter_not_eq length_filter_less)

lemma hub_work_less:
  assumes "hub_ok h" "hub_do e h = Some (Inr h')" "internal e" "\<not> good_ping e"
  shows "hub_work h' < hub_work h"
  using assms(1,2)
proof (cases rule: hub_do_cases)
  case (unregister c)
  have "(\<Sum>d < hb_next h. length (ch_buf (hb_send h' d))) = (\<Sum>d < hb_next h. length (ch_buf (hb_send h d)))"
    using unregister(3) by (intro sum.cong) auto
  with unregister(3) length_removeAll_less [OF unregister(2)] show ?thesis by (simp add: hub_work_def)
next
  case (broadcast m ms)
  then have "hb_send h' = (\<lambda>c. if c \<in> set (hb_clients h) then offer m (hb_send h c) else hb_send h c)"
    by (auto simp: delivered_def fun_eq_iff)
  with sum_offer [of "\<lambda>c. c \<in> set (hb_clients h)" m "hb_send h" "hb_next h"] broadcast(2,3)
  show ?thesis by (simp add: hub_work_def) (simp add: delivered_def)
next
  case (skipped c b)
  then have "length (hb_history h') < length (hb_history h)" using length_pos_if_in_set [OF skipped(2)] by (simp add: length_remove1)
  with skipped(3) show ?thesis by (simp add: hub_work_def)
next
  case (history c b)
  then have l: "length (hb_history h) = Suc (length (hb_history h'))"
    using length_pos_if_in_set [OF history(2)] by (simp add: length_remove1)
  have "c < hb_next h" using history(2) assms(1) by (auto simp: hub_ok_def)
  from sum_chan_update [OF this, of "hb_send h'" "hb_send h"] history(4) l show ?thesis by (simp add: hub_work_def)
next
  case (wrote c m ms)
  have "c < hb_next h" using wrote(2) assms(1) by (auto simp: hub_ok_def)
  from sum_chan_update [OF this, of "hb_send h'" "hb_send h"] wrote(3,4) show ?thesis by (simp add: hub_work_def)
next
  case (lost c m ms)
  have "c < hb_next h" using lost(2) assms(1) by (auto simp: hub_ok_def)
  from sum_chan_update [OF this, of "hb_send h'" "hb_send h"] lost(3,4) length_removeAll_less [OF lost(2)]
  show ?thesis by (simp add: hub_work_def)
next
  case (ended c ok)
  with length_removeAll_less [OF ended(2)] show ?thesis by (simp add: hub_work_def)
qed (use assms(3,4) in auto)

text \<open>C16: Left alone, the hub comes to rest. Without new connections and measurements, and with the loop not
  ended from outside, its goroutines can take turns in any order, whatever the connections do. Successful pings
  come as often as their ticker fires, but change nothing: without them the same turns lead to the same state.
  All other turns together are no more than the work that was left. The loop goes on if it was running; then,
  when no turn that takes from a queue is possible any more, everything queued has been handled, and the
  writers that still run are those of clients on the map. (A loop that waits on its own full channel stays there,
  its broadcasts unhandled.)\<close>

theorem hub_comes_to_rest:
  assumes "hub_run tr h" "hub_events es h = Some h'" "list_all internal es"
  shows "length (filter (\<lambda>e. \<not> good_ping e) es) + hub_work h' \<le> hub_work h
    \<and> hub_events (filter (\<lambda>e. \<not> good_ping e) es) h = Some h'
    \<and> hb_loop h' = hb_loop h
    \<and> (hb_loop h = Looping \<longrightarrow> (\<forall>e. driven e \<longrightarrow> hub_do e h' = None)
        \<longrightarrow> hb_broadcast h' = [] \<and> hb_history h' = []
          \<and> (\<forall>c \<in> set (hb_writers h'). ch_buf (hb_send h' c) = [] \<and> c \<in> set (hb_clients h')))"
proof -
  have turns: "length (filter (\<lambda>e. \<not> good_ping e) es) + hub_work h' \<le> hub_work h
      \<and> hub_events (filter (\<lambda>e. \<not> good_ping e) es) h = Some h' \<and> hb_loop h' = hb_loop h"
    using hub_run_ok [OF assms(1)] assms(2,3)
  proof (induction es arbitrary: h)
    case (Cons e es)
    then obtain h1 where h1: "hub_do e h = Some (Inr h1)" "hub_events es h1 = Some h'"
      by (auto split: option.splits sum.splits)
    from Cons.prems(3) have e: "internal e" "list_all internal es" by simp_all
    note IH = Cons.IH [OF hub_ok_do [OF Cons.prems(1) h1(1)] h1(2) e(2)]
    from internal_loop [OF e(1) Cons.prems(1) h1(1)] have "hb_loop h1 = hb_loop h" .
    moreover have "good_ping e \<Longrightarrow> h1 = h" using good_ping_nothing h1(1) by blast
    moreover have "\<not> good_ping e \<Longrightarrow> hub_work h1 < hub_work h" using hub_work_less [OF Cons.prems(1) h1(1) e(1)] by blast
    ultimately show ?case using IH h1(1) by (cases "good_ping e") auto
  qed simp
  from hub_events_run [OF assms(1,2)] have ok: "hub_ok h'" by (blast intro: hub_run_ok)
  have "hb_broadcast h' = [] \<and> hb_history h' = []
      \<and> (\<forall>c \<in> set (hb_writers h'). ch_buf (hb_send h' c) = [] \<and> c \<in> set (hb_clients h'))"
    if l: "hb_loop h = Looping" and none: "\<forall>e. driven e \<longrightarrow> hub_do e h' = None"
  proof -
    from l turns have l': "hb_loop h' = Looping" by simp
    have "hb_broadcast h' = []" using none [rule_format, of Broadcast] l' by (simp split: list.splits)
    moreover have "c \<notin> set (hb_history h')" for c using none [rule_format, of "History_of c NewBuffer"] by (simp split: if_splits)
    then have "hb_history h' = []" by (metis last_in_set)
    moreover have "ch_buf (hb_send h' c) = [] \<and> c \<in> set (hb_clients h')" if "c \<in> set (hb_writers h')" for c
    proof -
      have "ch_buf (hb_send h' c) = []" "\<not> ch_closed (hb_send h' c)"
        using none [rule_format, of "Write c True"] that by (auto split: if_splits)
      moreover have "c < hb_next h'" using ok that by (auto simp: hub_ok_def)
      ultimately show ?thesis using ok by (auto simp: hub_ok_def)
    qed
    ultimately show ?thesis by blast
  qed
  with turns show ?thesis by blast
qed

theorem hub_comes_to_rest_witness:
  "\<exists>h h'. hub_events [Register, Tick demo_snapshots] NewHub = Some h \<and> hub_work h = 6
     \<and> hub_events [Broadcast, Ping 0 True, Write 0 True, History_of 0 NewBuffer] h = Some h' \<and> hub_work h' \<le> 3"
proof -
  obtain snap where snap: "Latest demo_snapshots = Some snap"
    using bf.latest_pushes [of "[fst (Collect demo_kernel 1 demo_collector)]"] by (simp add: demo_snapshots_def BufferSize_def)
  obtain h where h: "hub_events [Register, Tick demo_snapshots] NewHub = Some h" "hub_work h = 6"
    and e: "\<exists>h'. hub_events [Broadcast, Ping 0 True, Write 0 True, History_of 0 NewBuffer] h = Some h'"
    by (simp add: NewHub_def hub_register_def hub_tick_def snap chan_cap_def try_send_def writePump_def Let_def hub_work_def
        writePump_ping_def sendHistory_def History_def NewBuffer_def)
  obtain h' where h': "hub_events [Broadcast, Ping 0 True, Write 0 True, History_of 0 NewBuffer] h = Some h'" using e by blast
  from hub_events_run [OF hub_run.start h(1)] obtain tr where "hub_run tr h" by auto
  from hub_comes_to_rest [OF this h'] h h' show ?thesis by auto
qed

end
