(* ===== verification/Tls.thy ===== *)
theory Tls
  imports Handler
begin

text \<open>
  The manager of the server's certificate (\<open>internal/tls/manager.go\<close>) and its two handlers
  (\<open>internal/handler/system.go\<close>). Keys, X.509 and PEM are the record \<open>crypto\<close>; files are a map from paths to a
  mode and a content, and every call into the operating system may fail.
\<close>

section \<open>IP addresses\<close>

text \<open>The 16 bytes \<open>net.ParseIP\<close> reads from a text: dotted decimals without leading zeros, or eight groups of hexadecimal
  digits, of which one \<open>::\<close> stands for one or more zero groups and the last two may be a dotted decimal.\<close>

definition parse_ipv4 :: "string \<Rightarrow> string option" where
  "parse_ipv4 s =
     (let ps = split_on (CHR ''.'') s in
      if length ps = 4 \<and> list_all (\<lambda>p. p \<noteq> '''' \<and> list_all is_digit p \<and> length p \<le> 3 \<and> digits_value p \<le> 255
        \<and> (length p > 1 \<longrightarrow> hd p \<noteq> CHR ''0'')) ps
      then Some (map (\<lambda>p. char_of (digits_value p)) ps) else None)"

definition ipv6_group :: "string \<Rightarrow> string option" where
  "ipv6_group s =
     (if s \<noteq> '''' \<and> length s \<le> 4 \<and> list_all (\<lambda>c. hex_value c \<noteq> None) s
      then let n = foldl (\<lambda>n c. 16 * n + the (hex_value c)) 0 s in Some [char_of (n div 256), char_of (n mod 256)]
      else None)"

fun ipv6_groups :: "bool \<Rightarrow> string list \<Rightarrow> string option" where
  "ipv6_groups v4 [] = Some ''''"
| "ipv6_groups v4 (p # ps) =
     (case (if v4 \<and> ps = [] then parse_ipv4 p else None) of
        Some b \<Rightarrow> Some b
      | None \<Rightarrow>
          (case ipv6_group p of
             None \<Rightarrow> None
           | Some g \<Rightarrow> (case ipv6_groups v4 ps of None \<Rightarrow> None | Some b \<Rightarrow> Some (g @ b))))"

definition ipv6_part :: "bool \<Rightarrow> string \<Rightarrow> string option" where
  "ipv6_part v4 s = (if s = '''' then Some '''' else ipv6_groups v4 (split_on (CHR '':'') s))"

definition parse_ipv6 :: "string \<Rightarrow> string option" where
  "parse_ipv6 s =
     (case str_index s ''::'' of
        None \<Rightarrow> (case ipv6_part True s of None \<Rightarrow> None | Some b \<Rightarrow> if length b = 16 then Some b else None)
      | Some i \<Rightarrow>
          (case (ipv6_part False (take i s), ipv6_part True (drop (i + 2) s)) of
             (Some a, Some b) \<Rightarrow>
               if length a + length b \<le> 14 then Some (a @ replicate (16 - length a - length b) (CHR 0x00) @ b) else None
           | _ \<Rightarrow> None))"

definition v4_prefix :: string where
  "v4_prefix = replicate 10 (CHR 0x00) @ [CHR 0xFF, CHR 0xFF]"

definition ParseIP :: "string \<Rightarrow> string option" where
  "ParseIP s = (case parse_ipv4 s of Some b \<Rightarrow> Some (v4_prefix @ b) | None \<Rightarrow> parse_ipv6 s)"

text \<open>\<open>ip.To4\<close>, where it is not nil: the four bytes of an IPv4 address, else the address as it is.\<close>

definition short_ip :: "string \<Rightarrow> string" where
  "short_ip ip = (if take 12 ip = v4_prefix then drop 12 ip else ip)"

section \<open>Certificates\<close>

record CertTemplate =
  ct_Serial :: nat
  ct_Organization :: string
  ct_CommonName :: string
  ct_NotBefore :: time
  ct_NotAfter :: time
  ct_IPAddresses :: "string list"
  ct_DNSNames :: "string list"

text \<open>What \<open>x509.ParseCertificate\<close> returns of it; the last two are the names' texts.\<close>

record Certificate =
  ce_Subject :: string
  ce_Issuer :: string
  ce_NotBefore :: time
  ce_NotAfter :: time
  ce_DNSNames :: "string list"
  ce_IPAddresses :: "string list"
  ce_SubjectText :: string
  ce_IssuerText :: string

text \<open>
  The n-th key and serial number, the n-th certificate of a template signed with its own key, the DER form of a key,
  a PEM block of a type and some bytes and the bytes of the first block of a text, and the parser.
\<close>

record 'k crypto =
  cy_key :: "nat \<Rightarrow> 'k option"
  cy_serial :: "nat \<Rightarrow> nat option"
  cy_create :: "nat \<Rightarrow> CertTemplate \<Rightarrow> 'k \<Rightarrow> string option"
  cy_marshal :: "'k \<Rightarrow> string option"
  cy_pem :: "string \<Rightarrow> string \<Rightarrow> string"
  cy_pem_decode :: "string \<Rightarrow> string option"
  cy_parse :: "string \<Rightarrow> Certificate option"

record CertInfo =
  in_Subject :: string
  in_Issuer :: string
  in_NotBefore :: time
  in_NotAfter :: time
  in_DNSNames :: "string list"
  in_IsSelfSigned :: bool
  in_DaysLeft :: int
  in_IsExpired :: bool
  in_IsValid :: bool

section \<open>Files\<close>

text \<open>
  \<open>dk_faults\<close> are the outcomes of the calls still to come: \<open>None\<close> succeeds, and so do all calls beyond the list; \<open>Some n\<close>
  fails, and what it was writing ends after \<open>n\<close> bytes.
\<close>

record disk =
  dk_files :: "string \<Rightarrow> (nat \<times> string) option"
  dk_clock :: time
  dk_rand :: nat
  dk_faults :: "nat option list"

type_synonym 'a io = "(disk, 'a) state"

abbreviation io_ret :: "'a \<Rightarrow> 'a io" where "io_ret \<equiv> State_Monad.return"

definition os_call :: "(disk \<Rightarrow> 'a \<times> disk) \<Rightarrow> 'a option io" where
  "os_call f = State (\<lambda>k.
     case dk_faults k of
       Some _ # fs \<Rightarrow> (None, k\<lparr>dk_faults := fs\<rparr>)
     | fs \<Rightarrow> (case f (k\<lparr>dk_faults := tl fs\<rparr>) of (a, k) \<Rightarrow> (Some a, k)))"

definition now_io :: "time io" where "now_io = State (\<lambda>k. (dk_clock k, k))"

definition rand_io :: "(nat \<Rightarrow> 'a) \<Rightarrow> 'a io" where
  "rand_io f = State (\<lambda>k. (f (dk_rand k), k\<lparr>dk_rand := dk_rand k + 1\<rparr>))"

definition MkdirAll :: "unit option io" where "MkdirAll = os_call (\<lambda>k. ((), k))"

text \<open>\<open>O_WRONLY|O_CREATE|O_TRUNC\<close>: an existing file keeps its mode.\<close>

definition OpenFile :: "string \<Rightarrow> nat \<Rightarrow> unit option io" where
  "OpenFile path mode = os_call (\<lambda>k. ((), k\<lparr>dk_files := (dk_files k)(path :=
     (case dk_files k path of None \<Rightarrow> Some (mode, '''') | Some (m, _) \<Rightarrow> Some (m, '''')))\<rparr>))"

text \<open>\<open>pem.Encode\<close> to a file just opened: its header, lines and footer are writes of their own, so that a failure leaves
  what had been written until then, any initial part of the text.\<close>

definition set_content :: "string \<Rightarrow> string \<Rightarrow> disk \<Rightarrow> disk" where
  "set_content path s k = k\<lparr>dk_files := (dk_files k)(path := map_option (\<lambda>(m, _). (m, s)) (dk_files k path))\<rparr>"

definition pem_Encode :: "string \<Rightarrow> string \<Rightarrow> unit option io" where
  "pem_Encode path s = State (\<lambda>k.
     case dk_faults k of
       Some n # fs \<Rightarrow> (None, set_content path (take n s) (k\<lparr>dk_faults := fs\<rparr>))
     | fs \<Rightarrow> (Some (), set_content path s (k\<lparr>dk_faults := tl fs\<rparr>)))"

definition ReadFile :: "string \<Rightarrow> string option io" where
  "ReadFile path = do {
     c \<leftarrow> os_call (\<lambda>k. (map_option snd (dk_files k path), k));
     io_ret (case c of None \<Rightarrow> None | Some r \<Rightarrow> r)
   }"

definition Stat :: "string \<Rightarrow> bool io" where
  "Stat path = do { c \<leftarrow> os_call (\<lambda>k. (dk_files k path \<noteq> None, k)); io_ret (c = Some True) }"

section \<open>The manager\<close>

record Manager =
  mg_certFile :: string
  mg_keyFile :: string

text \<open>For a directory in the canonical form \<open>filepath.Join\<close> gives.\<close>

definition NewManager :: "string \<Rightarrow> Manager" where
  "NewManager certDir = \<lparr>mg_certFile = certDir @ ''/cert.pem'', mg_keyFile = certDir @ ''/key.pem''\<rparr>"

datatype tls_error =
    ErrMkdir | ErrKey | ErrSerial | ErrCreate | ErrCertOpen | ErrCertWrite | ErrKeyOpen | ErrKeyMarshal
  | ErrKeyWrite | ErrCertMissing | ErrBadPEM | ErrParse

definition cert_template :: "nat \<Rightarrow> time \<Rightarrow> string list \<Rightarrow> int \<Rightarrow> CertTemplate" where
  "cert_template serial now hosts validDays =
     \<lparr>ct_Serial = serial, ct_Organization = ''CTRLD'', ct_CommonName = ''CTRLD Self-Signed Certificate'',
      ct_NotBefore = now, ct_NotAfter = now + sw64 (validDays * 24 * hour),
      ct_IPAddresses = List.map_filter ParseIP hosts, ct_DNSNames = filter (\<lambda>h. ParseIP h = None) hosts\<rparr>"

text \<open>Writing the pair of files: the certificate first.\<close>

definition save_pair :: "'k crypto \<Rightarrow> Manager \<Rightarrow> 'k \<Rightarrow> string \<Rightarrow> (tls_error + unit) io" where
  "save_pair C m priv certDER = do {
     f \<leftarrow> OpenFile (mg_certFile m) 420;
     (case f of None \<Rightarrow> io_ret (Inl ErrCertOpen) | Some _ \<Rightarrow> do {
     wr \<leftarrow> pem_Encode (mg_certFile m) (cy_pem C ''CERTIFICATE'' certDER);
     (case wr of None \<Rightarrow> io_ret (Inl ErrCertWrite) | Some _ \<Rightarrow> do {
     f \<leftarrow> OpenFile (mg_keyFile m) 384;
     (case f of None \<Rightarrow> io_ret (Inl ErrKeyOpen) | Some _ \<Rightarrow>
     (case cy_marshal C priv of None \<Rightarrow> io_ret (Inl ErrKeyMarshal) | Some keyDER \<Rightarrow> do {
     wr \<leftarrow> pem_Encode (mg_keyFile m) (cy_pem C ''EC PRIVATE KEY'' keyDER);
     (case wr of None \<Rightarrow> io_ret (Inl ErrKeyWrite) | Some _ \<Rightarrow> io_ret (Inr ())) })) }) }) }"

definition GenerateSelfSigned :: "'k crypto \<Rightarrow> Manager \<Rightarrow> string list \<Rightarrow> int \<Rightarrow> (tls_error + unit) io" where
  "GenerateSelfSigned C m hosts validDays = do {
     dir \<leftarrow> MkdirAll;
     (case dir of None \<Rightarrow> io_ret (Inl ErrMkdir) | Some _ \<Rightarrow> do {
     priv \<leftarrow> rand_io (cy_key C);
     (case priv of None \<Rightarrow> io_ret (Inl ErrKey) | Some priv \<Rightarrow> do {
     serial \<leftarrow> rand_io (cy_serial C);
     (case serial of None \<Rightarrow> io_ret (Inl ErrSerial) | Some serial \<Rightarrow> do {
     now \<leftarrow> now_io;
     certDER \<leftarrow> rand_io (\<lambda>n. cy_create C n (cert_template serial now hosts validDays) priv);
     (case certDER of None \<Rightarrow> io_ret (Inl ErrCreate) | Some certDER \<Rightarrow> save_pair C m priv certDER) }) }) }) }"

text \<open>\<open>time.Time.Sub\<close> stays within 64 bits; \<open>int(d.Hours() / 24)\<close> drops the fraction toward zero.\<close>

definition time_sub :: "time \<Rightarrow> time \<Rightarrow> int" where
  "time_sub a b = max (- (2 ^ 63)) (min (2 ^ 63 - 1) (a - b))"

definition whole_days :: "int \<Rightarrow> int" where
  "whole_days d = (if d < 0 then - ((- d) div (24 * hour)) else d div (24 * hour))"

definition cert_info :: "Certificate \<Rightarrow> time \<Rightarrow> CertInfo" where
  "cert_info c now =
     \<lparr>in_Subject = ce_Subject c, in_Issuer = ce_Issuer c, in_NotBefore = ce_NotBefore c, in_NotAfter = ce_NotAfter c,
      in_DNSNames = ce_DNSNames c, in_IsSelfSigned = (ce_SubjectText c = ce_IssuerText c),
      in_DaysLeft = whole_days (time_sub (ce_NotAfter c) now), in_IsExpired = (ce_NotAfter c < now),
      in_IsValid = (ce_NotBefore c < now \<and> \<not> ce_NotAfter c < now)\<rparr>"

definition GetCertInfo :: "'k crypto \<Rightarrow> Manager \<Rightarrow> (tls_error + CertInfo) io" where
  "GetCertInfo C m = do {
     certPEM \<leftarrow> ReadFile (mg_certFile m);
     (case certPEM of None \<Rightarrow> io_ret (Inl ErrCertMissing) | Some certPEM \<Rightarrow>
     (case cy_pem_decode C certPEM of None \<Rightarrow> io_ret (Inl ErrBadPEM) | Some bytes \<Rightarrow>
     (case cy_parse C bytes of None \<Rightarrow> io_ret (Inl ErrParse) | Some cert \<Rightarrow> do {
       now \<leftarrow> now_io;
       io_ret (Inr (cert_info cert now))
     })))
   }"

definition HasCertificate :: "Manager \<Rightarrow> bool io" where
  "HasCertificate m = Stat (mg_certFile m)"

section \<open>The handlers\<close>

datatype tls_payload = NoCertificate | CertReply CertInfo | GeneratedReply CertInfo string string

record tlsRequest =
  tq_Hosts :: "string list"
  tq_ValidDays :: int

definition tlsRequest_fields :: "tlsRequest field list" where
  "tlsRequest_fields = [(''hosts'', list_value string_element (\<lambda>hs r. r\<lparr>tq_Hosts := hs\<rparr>)),
     (''valid_days'', int_value (\<lambda>n r. r\<lparr>tq_ValidDays := n\<rparr>))]"

definition h_GetTLSInfo :: "'k crypto \<Rightarrow> Manager \<Rightarrow> claims option \<Rightarrow> tls_payload response io" where
  "h_GetTLSInfo C m claims =
     (if (case claims of None \<Rightarrow> True | Some cl \<Rightarrow> Role cl \<noteq> ''admin'') then io_ret (Failure 403 ''FORBIDDEN'')
      else do {
        found \<leftarrow> HasCertificate m;
        (if \<not> found then io_ret (Reply 200 NoCertificate)
         else do {
           info \<leftarrow> GetCertInfo C m;
           io_ret (case info of Inl _ \<Rightarrow> Failure 500 ''INTERNAL_ERROR'' | Inr i \<Rightarrow> Reply 200 (CertReply i))
         })
      })"

definition clamp_days :: "int \<Rightarrow> int" where
  "clamp_days n = (let n = (if n \<le> 0 then 365 else n) in if n > 3650 then 3650 else n)"

definition h_GenerateSelfSigned :: "'k crypto \<Rightarrow> Manager \<Rightarrow> claims option \<Rightarrow> request \<Rightarrow> tls_payload response io" where
  "h_GenerateSelfSigned C m claims r =
     (if (case claims of None \<Rightarrow> True | Some cl \<Rightarrow> Role cl \<noteq> ''admin'') then io_ret (Failure 403 ''FORBIDDEN'')
      else (case decode tlsRequest_fields \<lparr>tq_Hosts = [], tq_ValidDays = 0\<rparr> r of
              None \<Rightarrow> io_ret (Failure 400 ''INVALID_REQUEST'')
            | Some req \<Rightarrow>
                if tq_Hosts req = [] then io_ret (Failure 400 ''INVALID_REQUEST'')
                else if list_ex (\<lambda>h. trim_space h = '''') (tq_Hosts req) then io_ret (Failure 400 ''INVALID_REQUEST'')
                else do {
                  res \<leftarrow> GenerateSelfSigned C m (tq_Hosts req) (clamp_days (tq_ValidDays req));
                  (case res of Inl _ \<Rightarrow> io_ret (Failure 500 ''INTERNAL_ERROR'') | Inr _ \<Rightarrow> do {
                     info \<leftarrow> GetCertInfo C m;
                     io_ret (case info of Inl _ \<Rightarrow> Failure 500 ''INTERNAL_ERROR''
                            | Inr i \<Rightarrow> Reply 201 (GeneratedReply i (mg_certFile m) (mg_keyFile m)))
                  })
                }))"

section \<open>What a generation does\<close>

definition os_fails :: "disk \<Rightarrow> bool" where
  "os_fails k = (dk_faults k \<noteq> [] \<and> hd (dk_faults k) \<noteq> None)"

definition os_next :: "disk \<Rightarrow> disk" where
  "os_next k = k\<lparr>dk_faults := tl (dk_faults k)\<rparr>"

lemma run_os_call: "run_state (os_call f) k = (if os_fails k then (None, os_next k) else map_prod Some id (f (os_next k)))"
  by (auto simp: os_call_def os_fails_def os_next_def split: list.splits prod.splits option.splits)

lemma run_pem_Encode: "run_state (pem_Encode path s) k =
    (if os_fails k then (None, set_content path (take (the (hd (dk_faults k))) s) (os_next k))
     else (Some (), set_content path s (os_next k)))"
  by (auto simp: pem_Encode_def os_fails_def os_next_def split: list.splits option.splits)

lemma os_next_fields [simp]:
  "dk_files (os_next k) = dk_files k" "dk_clock (os_next k) = dk_clock k" "dk_rand (os_next k) = dk_rand k"
  by (simp_all add: os_next_def)

lemma run_now_io [simp]: "run_state now_io k = (dk_clock k, k)"
  by (simp add: now_io_def)

lemma run_rand_io [simp]: "run_state (rand_io f) k = (f (dk_rand k), k\<lparr>dk_rand := dk_rand k + 1\<rparr>)"
  by (simp add: rand_io_def)

text \<open>The mode a file has after it was opened to be created with a mode.\<close>

definition kept_mode :: "disk \<Rightarrow> string \<Rightarrow> nat \<Rightarrow> nat" where
  "kept_mode k path mode = (case dk_files k path of None \<Rightarrow> mode | Some (m, _) \<Rightarrow> m)"

lemma OpenFile_Some:
  assumes "run_state (OpenFile path mode) k = (Some u, k')"
  shows "dk_files k' = (dk_files k)(path \<mapsto> (kept_mode k path mode, ''''))" "dk_clock k' = dk_clock k" "dk_rand k' = dk_rand k"
  using assms by (auto simp: OpenFile_def run_os_call kept_mode_def split: if_splits option.splits)

lemma pem_Encode_effect:
  assumes "run_state (pem_Encode path s) k = (x, k')" "dk_files k path = Some (m, t)"
  shows "\<exists>n. dk_files k' = (dk_files k)(path \<mapsto> (m, if x = None then take n s else s))"
    "dk_clock k' = dk_clock k" "dk_rand k' = dk_rand k"
  using assms by (auto simp: run_pem_Encode set_content_def split: if_splits)

lemma OpenFile_None: "run_state (OpenFile path mode) k = (None, k') \<Longrightarrow> dk_files k' = dk_files k"
  by (auto simp: OpenFile_def run_os_call split: if_splits)


text \<open>What \<open>save_pair\<close> leaves in the two files, by its outcome.\<close>

definition cert_left :: "'k crypto \<Rightarrow> Manager \<Rightarrow> disk \<Rightarrow> string \<Rightarrow> string \<Rightarrow> (nat \<times> string) option" where
  "cert_left C m k text = (dk_files k)(mg_certFile m \<mapsto> (kept_mode k (mg_certFile m) 420, text))"

definition pair_left :: "'k crypto \<Rightarrow> Manager \<Rightarrow> disk \<Rightarrow> string \<Rightarrow> string \<Rightarrow> string \<Rightarrow> (nat \<times> string) option" where
  "pair_left C m k cert key = (cert_left C m k cert)(mg_keyFile m \<mapsto> (kept_mode k (mg_keyFile m) 384, key))"

text \<open>The last argument is how many bytes a failed write had written.\<close>

definition disk_after ::
    "'k crypto \<Rightarrow> Manager \<Rightarrow> 'k \<Rightarrow> string \<Rightarrow> disk \<Rightarrow> tls_error + unit \<Rightarrow> nat \<Rightarrow> string \<Rightarrow> (nat \<times> string) option" where
  "disk_after C m priv der k x n =
     (let cert = cy_pem C ''CERTIFICATE'' der; key = cy_pem C ''EC PRIVATE KEY'' (the (cy_marshal C priv)) in
      case x of
        Inr _ \<Rightarrow> pair_left C m k cert key
      | Inl e \<Rightarrow>
          if e = ErrCertWrite then cert_left C m k (take n cert)
          else if e = ErrKeyOpen then cert_left C m k cert
          else if e = ErrKeyMarshal then pair_left C m k cert ''''
          else if e = ErrKeyWrite then pair_left C m k cert (take n key)
          else dk_files k)"

lemma save_pair_effect:
  assumes run: "run_state (save_pair C m priv der) k = (x, k')" and ne: "mg_certFile m \<noteq> mg_keyFile m"
  shows "\<exists>n. dk_files k' = disk_after C m priv der k x n"
    "x = Inr () \<Longrightarrow> dk_clock k' = dk_clock k" "x \<in> {Inr (), Inl ErrKeyWrite} \<Longrightarrow> cy_marshal C priv \<noteq> None"
    "x \<in> {Inr (), Inl ErrCertOpen, Inl ErrCertWrite, Inl ErrKeyOpen, Inl ErrKeyMarshal, Inl ErrKeyWrite}"
proof -
  let ?key = "cy_pem C ''EC PRIVATE KEY'' (the (cy_marshal C priv))"
  obtain x1 k1 where r1: "run_state (OpenFile (mg_certFile m) 420) k = (x1, k1)" by fastforce
  obtain x2 k2 where r2: "run_state (pem_Encode (mg_certFile m) (cy_pem C ''CERTIFICATE'' der)) k1 = (x2, k2)" by fastforce
  obtain x3 k3 where r3: "run_state (OpenFile (mg_keyFile m) 384) k2 = (x3, k3)" by fastforce
  obtain x4 k4 where r4: "run_state (pem_Encode (mg_keyFile m) ?key) k3 = (x4, k4)" by fastforce
  have "(\<exists>n. dk_files k' = disk_after C m priv der k x n) \<and> (x = Inr () \<longrightarrow> dk_clock k' = dk_clock k)
    \<and> (x \<in> {Inr (), Inl ErrKeyWrite} \<longrightarrow> cy_marshal C priv \<noteq> None)
    \<and> x \<in> {Inr (), Inl ErrCertOpen, Inl ErrCertWrite, Inl ErrKeyOpen, Inl ErrKeyMarshal, Inl ErrKeyWrite}"
  proof (cases x1)
    case None
    with run r1 OpenFile_None [of "mg_certFile m" 420 k k1] show ?thesis
      by (auto simp: save_pair_def disk_after_def)
  next
    case x1: (Some u1)
    note o1 = OpenFile_Some [OF r1 [unfolded x1]]
    note o2 = pem_Encode_effect [OF r2, of "kept_mode k (mg_certFile m) 420" "''''", unfolded o1, simplified]
    show ?thesis
    proof (cases x2)
      case None
      with run r1 r2 x1 o2(1) show ?thesis
        by (auto simp: save_pair_def disk_after_def cert_left_def)
    next
      case x2: (Some u2)
      have c: "dk_files k2 = cert_left C m k (cy_pem C ''CERTIFICATE'' der)" using o2(1) x2 by (simp add: cert_left_def)
      have same: "kept_mode k2 (mg_keyFile m) 384 = kept_mode k (mg_keyFile m) 384"
        using ne by (simp add: kept_mode_def c cert_left_def)
      show ?thesis
      proof (cases x3)
        case None
        with run r1 r2 r3 x1 x2 OpenFile_None [OF r3 [unfolded None]] c show ?thesis
          by (auto simp: save_pair_def disk_after_def)
      next
        case x3: (Some u3)
        note o3 = OpenFile_Some [OF r3 [unfolded x3], unfolded same c]
        show ?thesis
        proof (cases "cy_marshal C priv")
          case None
          with run r1 r2 r3 x1 x2 x3 o3(1) show ?thesis by (auto simp: save_pair_def disk_after_def pair_left_def)
        next
          case key: (Some der')
          note o4 = pem_Encode_effect [OF r4, of "kept_mode k (mg_keyFile m) 384" "''''", unfolded o3(1), simplified]
          from run r1 r2 r3 r4 x1 x2 x3 key have k': "k' = k4" "x = (if x4 = None then Inl ErrKeyWrite else Inr ())"
            by (cases x4; auto simp: save_pair_def)+
          show ?thesis
            using k' o3(2) o2(2) o4 key by (cases x4) (auto simp: disk_after_def pair_left_def)
        qed
      qed
    qed
  qed
  then show "\<exists>n. dk_files k' = disk_after C m priv der k x n"
    "x = Inr () \<Longrightarrow> dk_clock k' = dk_clock k" "x \<in> {Inr (), Inl ErrKeyWrite} \<Longrightarrow> cy_marshal C priv \<noteq> None"
    "x \<in> {Inr (), Inl ErrCertOpen, Inl ErrCertWrite, Inl ErrKeyOpen, Inl ErrKeyMarshal, Inl ErrKeyWrite}" by blast+
qed

lemma GenerateSelfSigned_stages:
  assumes run: "run_state (GenerateSelfSigned C m hosts days) k = (x, k')"
  obtains (early) e where "x = Inl e" "e \<in> {ErrMkdir, ErrKey, ErrSerial, ErrCreate}" "dk_files k' = dk_files k"
    | (saving) priv serial der k1 where "cy_key C (dk_rand k) = Some priv" "cy_serial C (dk_rand k + 1) = Some serial"
        "cy_create C (dk_rand k + 2) (cert_template serial (dk_clock k) hosts days) priv = Some der"
        "dk_files k1 = dk_files k" "dk_clock k1 = dk_clock k" "run_state (save_pair C m priv der) k1 = (x, k')"
proof -
  obtain d k1 where k1: "run_state MkdirAll k = (d, k1)" by fastforce
  then have f1: "dk_files k1 = dk_files k" "dk_clock k1 = dk_clock k" "dk_rand k1 = dk_rand k"
    by (auto simp: MkdirAll_def run_os_call split: if_splits)
  show thesis
  proof (cases "d = None \<or> cy_key C (dk_rand k) = None \<or> cy_serial C (dk_rand k + 1) = None
      \<or> (\<forall>p s. cy_key C (dk_rand k) = Some p \<longrightarrow> cy_serial C (dk_rand k + 1) = Some s \<longrightarrow>
           cy_create C (dk_rand k + 2) (cert_template s (dk_clock k) hosts days) p = None)")
    case True
    have "\<exists>e. x = Inl e \<and> e \<in> {ErrMkdir, ErrKey, ErrSerial, ErrCreate} \<and> dk_files k' = dk_files k"
      using run k1 f1 True by (auto simp: GenerateSelfSigned_def split: option.splits)
    with early show thesis by blast
  next
    case False
    then obtain priv serial der where p: "d \<noteq> None" "cy_key C (dk_rand k) = Some priv" "cy_serial C (dk_rand k + 1) = Some serial"
      "cy_create C (dk_rand k + 2) (cert_template serial (dk_clock k) hosts days) priv = Some der" by auto
    then have "run_state (save_pair C m priv der) (k1\<lparr>dk_rand := dk_rand k + 3\<rparr>) = (x, k')"
      using run k1 f1 by (auto simp: GenerateSelfSigned_def numeral_eq_Suc)
    from saving [OF p(2-4) _ _ this] f1 show thesis by simp
  qed
qed

lemma GetCertInfo_effect:
  assumes "run_state (GetCertInfo C m) k = (Inr i, k')" "dk_files k (mg_certFile m) = Some (mode, pem)"
  shows "\<exists>bytes cert. cy_pem_decode C pem = Some bytes \<and> cy_parse C bytes = Some cert \<and> i = cert_info cert (dk_clock k)
    \<and> dk_files k' = dk_files k"
  using assms by (auto simp: GetCertInfo_def ReadFile_def run_os_call split: if_splits option.splits)

text \<open>What the library does: the first block of a PEM text is what was put into it, and a parsed certificate shows its
  template's names and hosts (an IPv4 address in its four bytes), its own subject as the issuer, and the template's
  times to the second.\<close>

definition x509_lawful :: "'k crypto \<Rightarrow> bool" where
  "x509_lawful C =
     ((\<forall>ty s. cy_pem_decode C (cy_pem C ty s) = Some s)
      \<and> (\<forall>n t key der. cy_create C n t key = Some der \<longrightarrow>
           (\<exists>c. cy_parse C der = Some c \<and> ce_Subject c = ct_CommonName t \<and> ce_SubjectText c = ce_IssuerText c
              \<and> ce_Issuer c = ct_CommonName t \<and> ce_DNSNames c = ct_DNSNames t
              \<and> ce_IPAddresses c = map short_ip (ct_IPAddresses t)
              \<and> ce_NotBefore c = ct_NotBefore t - ct_NotBefore t mod second
              \<and> ce_NotAfter c = ct_NotAfter t - ct_NotAfter t mod second)))"

lemma parsed_certificate:
  assumes "x509_lawful C" "cy_create C n t key = Some der" "cy_parse C der = Some c"
  shows "ce_SubjectText c = ce_IssuerText c" "ce_DNSNames c = ct_DNSNames t" "ce_IPAddresses c = map short_ip (ct_IPAddresses t)"
    "ce_NotBefore c = ct_NotBefore t - ct_NotBefore t mod second" "ce_NotAfter c = ct_NotAfter t - ct_NotAfter t mod second"
proof -
  from assms(1,2) obtain c' where "cy_parse C der = Some c'" "ce_SubjectText c' = ce_IssuerText c'"
    "ce_DNSNames c' = ct_DNSNames t" "ce_IPAddresses c' = map short_ip (ct_IPAddresses t)"
    "ce_NotBefore c' = ct_NotBefore t - ct_NotBefore t mod second" "ce_NotAfter c' = ct_NotAfter t - ct_NotAfter t mod second"
    unfolding x509_lawful_def by metis
  with assms(3) show "ce_SubjectText c = ce_IssuerText c" "ce_DNSNames c = ct_DNSNames t"
    "ce_IPAddresses c = map short_ip (ct_IPAddresses t)"
    "ce_NotBefore c = ct_NotBefore t - ct_NotBefore t mod second" "ce_NotAfter c = ct_NotAfter t - ct_NotAfter t mod second"
    by simp_all
qed

lemma clamp_days_range: "1 \<le> clamp_days n" "clamp_days n \<le> 3650"
  by (simp_all add: clamp_days_def Let_def)

lemma lifetime_exact: "0 \<le> d \<Longrightarrow> d \<le> 3650 \<Longrightarrow> sw64 (d * 24 * hour) = d * (24 * hour)"
  by (subst sw64_id) (simp_all add: mult.assoc)

lemma whole_days_left:
  assumes "0 \<le> f" "f < second" "1 \<le> d" "d \<le> 3650"
  shows "whole_days (time_sub (n - f + d * (24 * hour)) n) = (if f = 0 then d else d - 1)"
proof -
  have "(d * (24 * hour) - f) div (24 * hour) = (if f = 0 then d else d - 1)"
  proof (cases "f = 0")
    case False
    have "d * (24 * hour) - f = (24 * hour - f) + (d - 1) * (24 * hour)" by (simp add: algebra_simps)
    also have "\<dots> div (24 * hour) = d - 1 + (24 * hour - f) div (24 * hour)" by (subst div_mult_self1) simp_all
    also have "(24 * hour - f) div (24 * hour) = 0" using assms(1,2) False by (intro div_pos_pos_trivial) auto
    finally show ?thesis using False by simp
  qed simp
  moreover have "time_sub (n - f + d * (24 * hour)) n = d * (24 * hour) - f"
    using assms by (simp add: time_sub_def)
  moreover have "0 \<le> d * (24 * hour) - f" using assms by simp
  ultimately show ?thesis by (simp add: whole_days_def)
qed

text \<open>C39: A certificate is generated exactly as asked: when the handler answers 201, an administrator asked, no host was
  blank, and the certificate then on disk names exactly the hosts asked for, in order: those that \<open>net.ParseIP\<close> reads as
  addresses (of four bytes for IPv4, of sixteen for IPv6), the others as DNS names. It is self-signed and lives for
  the days asked, cut to 1 to 3650 with 365 for none. Its times are whole seconds, so that the days the answer reports as
  left are one less than that unless the request fell on a whole second, and then it is not valid yet. The answer
  reports this certificate.\<close>

theorem tls_certificate_as_asked:
  assumes run: "run_state (h_GenerateSelfSigned C m claims r) k = (resp, k')" and "status resp = 201"
    and law: "x509_lawful C" and ne: "mg_certFile m \<noteq> mg_keyFile m"
  shows "\<exists>cl req i d mode pem der cert. claims = Some cl \<and> Role cl = ''admin''
    \<and> decode tlsRequest_fields \<lparr>tq_Hosts = [], tq_ValidDays = 0\<rparr> r = Some req
    \<and> tq_Hosts req \<noteq> [] \<and> '''' \<notin> trim_space ` set (tq_Hosts req)
    \<and> d = clamp_days (tq_ValidDays req) \<and> 1 \<le> d \<and> d \<le> 3650
    \<and> dk_files k' (mg_certFile m) = Some (mode, pem) \<and> cy_pem_decode C pem = Some der \<and> cy_parse C der = Some cert
    \<and> ce_DNSNames cert = filter (\<lambda>h. ParseIP h = None) (tq_Hosts req)
    \<and> ce_IPAddresses cert = map short_ip (List.map_filter ParseIP (tq_Hosts req))
    \<and> resp = Reply 201 (GeneratedReply i (mg_certFile m) (mg_keyFile m)) \<and> i = cert_info cert (dk_clock k)
    \<and> in_IsSelfSigned i \<and> in_NotAfter i = in_NotBefore i + d * (24 * hour)
    \<and> in_DaysLeft i = (if dk_clock k mod second = 0 then d else d - 1)
    \<and> in_IsValid i = (dk_clock k mod second \<noteq> 0)"
proof -
  obtain cl where cl: "claims = Some cl" "Role cl = ''admin''"
    using assms(1,2) by (auto simp: h_GenerateSelfSigned_def split: option.splits if_splits)
  obtain req where req: "decode tlsRequest_fields \<lparr>tq_Hosts = [], tq_ValidDays = 0\<rparr> r = Some req"
    "tq_Hosts req \<noteq> []" "\<not> list_ex (\<lambda>h. trim_space h = '''') (tq_Hosts req)"
    using assms(1,2) cl by (auto simp: h_GenerateSelfSigned_def split: option.splits if_splits)
  define d where "d = clamp_days (tq_ValidDays req)"
  obtain x k1 where x: "run_state (GenerateSelfSigned C m (tq_Hosts req) d) k = (x, k1)" by fastforce
  with run assms(2) cl req have x1: "x = Inr ()" by (cases x) (auto simp: h_GenerateSelfSigned_def d_def)
  obtain y k2 where y: "run_state (GetCertInfo C m) k1 = (y, k2)" by fastforce
  with run assms(2) cl req x x1 obtain i where y1: "y = Inr i" and k': "k' = k2"
    and resp: "resp = Reply 201 (GeneratedReply i (mg_certFile m) (mg_keyFile m))"
    by (cases y) (auto simp: h_GenerateSelfSigned_def d_def)
  from x [unfolded x1] obtain priv serial der ks where s:
    "cy_create C (dk_rand k + 2) (cert_template serial (dk_clock k) (tq_Hosts req) d) priv = Some der"
    "dk_clock ks = dk_clock k" "run_state (save_pair C m priv der) ks = (Inr (), k1)"
    by (cases rule: GenerateSelfSigned_stages) auto
  then obtain mode where e: "dk_clock k1 = dk_clock k"
    "dk_files k1 (mg_certFile m) = Some (mode, cy_pem C ''CERTIFICATE'' der)"
    using save_pair_effect(1,2) [OF s(3) ne] ne by (auto simp: disk_after_def pair_left_def cert_left_def)
  have dec: "cy_pem_decode C (cy_pem C ''CERTIFICATE'' der) = Some der" using law by (simp add: x509_lawful_def)
  from GetCertInfo_effect [OF y [unfolded y1] e(2)] dec obtain cert where c: "cy_parse C der = Some cert"
    and i: "i = cert_info cert (dk_clock k)" and stored: "dk_files k' (mg_certFile m) = Some (mode, cy_pem C ''CERTIFICATE'' der)"
    using e k' by auto
  let ?now = "dk_clock k"
  have dr: "1 \<le> d" "d \<le> 3650" by (simp_all add: d_def clamp_days_range)
  have t: "ce_SubjectText cert = ce_IssuerText cert" "ce_DNSNames cert = filter (\<lambda>h. ParseIP h = None) (tq_Hosts req)"
    "ce_IPAddresses cert = map short_ip (List.map_filter ParseIP (tq_Hosts req))"
    "ce_NotBefore cert = ?now - ?now mod second"
    "ce_NotAfter cert = (?now + d * (24 * hour)) - (?now + d * (24 * hour)) mod second"
    using parsed_certificate [OF law s(1) c] dr lifetime_exact [of d] by (simp_all add: cert_template_def)
  have "d * (24 * hour) = second * (d * 86400)" by simp
  then have "(?now + d * (24 * hour)) mod second = ?now mod second" by (simp only: mod_mult_self2)
  with t(5) have na: "ce_NotAfter cert = ?now - ?now mod second + d * (24 * hour)" by simp
  have f: "0 \<le> ?now mod second" "?now mod second < second" by simp_all
  have "in_DaysLeft i = (if ?now mod second = 0 then d else d - 1)"
    using whole_days_left [OF f dr, of ?now] by (simp add: i cert_info_def na)
  moreover have "\<not> ce_NotAfter cert < ?now" using na f dr by linarith
  then have "in_IsValid i = (?now mod second \<noteq> 0)" using t(4) f(1) by (simp add: i cert_info_def) linarith
  moreover have "in_NotAfter i = in_NotBefore i + d * (24 * hour)" "in_IsSelfSigned i"
    by (simp_all add: i cert_info_def t(1,4) na)
  moreover have "'''' \<notin> trim_space ` set (tq_Hosts req)" using req(3) by (auto simp: list_ex_iff)
  ultimately show ?thesis using cl req(1,2) resp dr d_def stored dec c t(2,3) i
    by (intro exI [of _ cl] exI [of _ req] exI [of _ i] exI [of _ d] exI [of _ mode]
        exI [of _ "cy_pem C ''CERTIFICATE'' der"] exI [of _ der] exI [of _ cert] conjI)
qed

text \<open>A lawful instance: a certificate is an encoding of its template.\<close>

fun dec_strs :: "nat \<Rightarrow> string \<Rightarrow> string list" where
  "dec_strs 0 s = []"
| "dec_strs (Suc n) s = (case dec_str s of None \<Rightarrow> [] | Some (x, r) \<Rightarrow> x # dec_strs n r)"

lemma dec_strs_enc: "length xs \<le> n \<Longrightarrow> dec_strs n (concat (map enc_str xs)) = xs"
proof (induction xs arbitrary: n)
  case Nil
  then show ?case by (cases n) simp_all
next
  case (Cons x xs)
  then obtain n' where "n = Suc n'" "length xs \<le> n'" by (cases n) auto
  with Cons.IH show ?case by simp
qed

lemma length_enc_strs: "length xs \<le> length (concat (map enc_str xs))"
  by (induction xs) (auto simp: enc_str_def)

definition demo_crypto :: "nat crypto" where
  "demo_crypto = \<lparr>cy_key = Some, cy_serial = Some,
     cy_create = (\<lambda>n t key. Some (enc_int (ct_NotBefore t) @ enc_int (ct_NotAfter t) @ enc_str (ct_CommonName t)
       @ enc_str (concat (map enc_str (ct_DNSNames t))) @ concat (map enc_str (map short_ip (ct_IPAddresses t))))),
     cy_marshal = (\<lambda>key. Some ''key''), cy_pem = (\<lambda>ty s. s), cy_pem_decode = Some,
     cy_parse = (\<lambda>der. do { (nb, r) \<leftarrow> dec_int der; (na, r) \<leftarrow> dec_int r; (cn, r) \<leftarrow> dec_str r; (ds, r) \<leftarrow> dec_str r;
       Some \<lparr>ce_Subject = cn, ce_Issuer = cn, ce_NotBefore = nb - nb mod second, ce_NotAfter = na - na mod second,
         ce_DNSNames = dec_strs (length ds) ds, ce_IPAddresses = dec_strs (length r) r, ce_SubjectText = cn,
         ce_IssuerText = cn\<rparr> })\<rparr>"

lemma dec_all_strs [simp]: "dec_strs (length (concat (map enc_str xs))) (concat (map enc_str xs)) = xs"
  by (intro dec_strs_enc length_enc_strs)

lemma demo_crypto_lawful: "x509_lawful demo_crypto"
  by (auto simp: x509_lawful_def demo_crypto_def simp del: map_map)

definition demo_disk :: disk where
  "demo_disk = \<lparr>dk_files = Map.empty, dk_clock = 1500000000, dk_rand = 0, dk_faults = []\<rparr>"

definition demo_hosts :: string where
  "demo_hosts = ''['' @ join_with '','' (map json_string [''ctrld.lan'', ''10.0.0.1'']) @ '']''"

definition demo_tls_request :: request where
  "demo_tls_request = (demo_request demo_token)\<lparr>r_body := json_object [json_key ''hosts'' @ demo_hosts]\<rparr>"

lemma demo_hosts_read: "reads_as 4 demo_hosts (JArr [JStr ''ctrld.lan'', JStr ''10.0.0.1''])"
  unfolding reads_as_def
proof (intro allI impI)
  fix n s assume "4 \<le> (n :: nat)"
  then obtain n' where n: "n = Suc n'" "length [''ctrld.lan'', ''10.0.0.1''] + 1 \<le> n'" by (cases n) auto
  have "read_elements n' (join_with '','' (map json_string [''ctrld.lan'', ''10.0.0.1'']) @ '']'' @ s)
      = Some (map JStr [''ctrld.lan'', ''10.0.0.1''], s)"
    by (rule read_elements_print) (use n(2) reads_as_string in auto)
  then show "read_value n (demo_hosts @ s) = Some (JArr [JStr ''ctrld.lan'', JStr ''10.0.0.1''], s)"
    by (simp add: n(1) demo_hosts_def read_value_array skip_ws_char json_string_def del: read_value.simps)
qed

lemma demo_tls_body: "decode tlsRequest_fields \<lparr>tq_Hosts = [], tq_ValidDays = 0\<rparr> demo_tls_request
    = Some \<lparr>tq_Hosts = [''ctrld.lan'', ''10.0.0.1''], tq_ValidDays = 0\<rparr>"
proof -
  let ?body = "json_object [json_key ''hosts'' @ demo_hosts]"
  have "reads_as 6 ?body (JObj [(''hosts'', JArr [JStr ''ctrld.lan'', JStr ''10.0.0.1''])])"
    using reads_as_object [of "[(''hosts'', demo_hosts, JArr [JStr ''ctrld.lan'', JStr ''10.0.0.1''])]" 4] demo_hosts_read by simp
  moreover have "6 \<le> Suc (Suc (length ?body))" by (simp add: json_object_def json_key_def json_string_def)
  ultimately have "read_value (Suc (Suc (length ?body))) (?body @ []) = Some (JObj [(''hosts'', JArr [JStr ''ctrld.lan'', JStr ''10.0.0.1''])], [])"
    unfolding reads_as_def by blast
  then have "first_json ?body = Some (JObj [(''hosts'', JArr [JStr ''ctrld.lan'', JStr ''10.0.0.1''])])"
    unfolding first_json_def append_Nil2 by (simp del: read_value.simps)
  moreover have "equal_fold ''hosts'' ''hosts''" by (simp add: equal_fold_def)
  ultimately show ?thesis
    by (simp add: decode_def demo_tls_request_def tlsRequest_fields_def store_member_def)
qed

lemma demo_not_ips: "ParseIP ''ctrld.lan'' = None" "ParseIP ''1.2.3.04'' = None" "ParseIP ''1::2::3'' = None"
  by code_simp+

lemma demo_ipv4: "ParseIP ''10.0.0.1'' = Some (v4_prefix @ map char_of [10, 0, 0, 1 :: nat])"
  by (simp add: ParseIP_def parse_ipv4_def digits_value_def undigit_def is_digit_def)

lemma demo_ipv6: "ParseIP ''fe80::1:10.0.0.1'' =
    Some (map char_of [254, 128 :: nat] @ replicate 8 (CHR 0x00) @ map char_of [0, 1, 10, 0, 0, 1 :: nat])"
  by (simp add: ParseIP_def parse_ipv4_def parse_ipv6_def ipv6_part_def ipv6_group_def digits_value_def undigit_def
      is_digit_def hex_value_def has_prefix_def)

lemmas demo_ips = demo_not_ips demo_ipv4 demo_ipv6

lemma demo_tls_run:
  "\<exists>i k'. run_state (h_GenerateSelfSigned demo_crypto (NewManager ''/etc/ctrld'') (Some demo_claims) demo_tls_request) demo_disk
     = (Reply 201 (GeneratedReply i ''/etc/ctrld/cert.pem'' ''/etc/ctrld/key.pem''), k')"
  using demo_tls_body
  by (simp add: h_GenerateSelfSigned_def demo_claims_def trim_space_def trim_left_def is_space_def GenerateSelfSigned_def
      save_pair_def GetCertInfo_def MkdirAll_def OpenFile_def run_pem_Encode set_content_def ReadFile_def run_os_call os_fails_def
      os_next_def demo_disk_def demo_crypto_def NewManager_def)

theorem tls_certificate_as_asked_witness:
  "\<exists>i k'. run_state (h_GenerateSelfSigned demo_crypto (NewManager ''/etc/ctrld'') (Some demo_claims) demo_tls_request) demo_disk
     = (Reply 201 (GeneratedReply i ''/etc/ctrld/cert.pem'' ''/etc/ctrld/key.pem''), k')
     \<and> in_DNSNames i = [''ctrld.lan''] \<and> in_DaysLeft i = 364 \<and> in_IsValid i
     \<and> (\<exists>mode pem der cert. dk_files k' ''/etc/ctrld/cert.pem'' = Some (mode, pem) \<and> cy_pem_decode demo_crypto pem = Some der
          \<and> cy_parse demo_crypto der = Some cert \<and> ce_IPAddresses cert = [map char_of [10, 0, 0, 1 :: nat]])"
proof -
  obtain i k' where run: "run_state (h_GenerateSelfSigned demo_crypto (NewManager ''/etc/ctrld'') (Some demo_claims) demo_tls_request) demo_disk
     = (Reply 201 (GeneratedReply i ''/etc/ctrld/cert.pem'' ''/etc/ctrld/key.pem''), k')" using demo_tls_run by blast
  have d: "clamp_days 0 = 365" by (simp add: clamp_days_def)
  have short: "short_ip (v4_prefix @ b) = b" for b
    by (simp add: short_ip_def v4_prefix_def)
  from tls_certificate_as_asked [OF run _ demo_crypto_lawful] obtain mode pem der cert where
    "dk_files k' ''/etc/ctrld/cert.pem'' = Some (mode, pem)" "cy_pem_decode demo_crypto pem = Some der"
    "cy_parse demo_crypto der = Some cert" "i = cert_info cert (dk_clock demo_disk)"
    "ce_IPAddresses cert = [map char_of [10, 0, 0, 1 :: nat]]" "ce_DNSNames cert = [''ctrld.lan'']"
    "in_DaysLeft i = 364" "in_IsValid i"
    by (auto simp: NewManager_def demo_tls_body demo_ips demo_disk_def d map_filter_simps short)
  with run show ?thesis by (intro exI [of _ i] exI [of _ k'] conjI) (auto simp: cert_info_def)
qed

section \<open>What a failed generation leaves\<close>

text \<open>C40: What is on disk when generating a certificate fails. Nothing has changed when it fails before the
  certificate's file was opened; a failed write of the certificate leaves an initial part of it, perhaps none, in place
  of the old one; and once the certificate was written, any later failure leaves the whole new certificate beside the
  old key, an emptied key file or an initial part of the new key, so that the pair no longer fits. Files that
  existed keep their modes.\<close>

theorem tls_failure_states:
  assumes run: "run_state (GenerateSelfSigned C m hosts days) k = (Inl e, k')" and ne: "mg_certFile m \<noteq> mg_keyFile m"
  shows "(e \<in> {ErrMkdir, ErrKey, ErrSerial, ErrCreate, ErrCertOpen} \<and> dk_files k' = dk_files k)
    \<or> (\<exists>priv serial der n. cy_key C (dk_rand k) = Some priv
         \<and> cy_create C (dk_rand k + 2) (cert_template serial (dk_clock k) hosts days) priv = Some der
         \<and> (e = ErrCertWrite
             \<and> dk_files k' = (dk_files k)(mg_certFile m \<mapsto>
                 (kept_mode k (mg_certFile m) 420, take n (cy_pem C ''CERTIFICATE'' der)))
           \<or> e \<in> {ErrKeyOpen, ErrKeyMarshal, ErrKeyWrite}
             \<and> dk_files k' (mg_certFile m) = Some (kept_mode k (mg_certFile m) 420, cy_pem C ''CERTIFICATE'' der)
             \<and> (if e = ErrKeyOpen then dk_files k' (mg_keyFile m) = dk_files k (mg_keyFile m)
                else if e = ErrKeyMarshal then dk_files k' (mg_keyFile m) = Some (kept_mode k (mg_keyFile m) 384, '''')
                else \<exists>key. cy_marshal C priv = Some key \<and> dk_files k' (mg_keyFile m) =
                       Some (kept_mode k (mg_keyFile m) 384, take n (cy_pem C ''EC PRIVATE KEY'' key)))))"
  using run
proof (cases rule: GenerateSelfSigned_stages)
  case (saving priv serial der k1)
  have modes: "kept_mode k1 p n = kept_mode k p n" for p n using saving(4) by (simp add: kept_mode_def)
  note eff = save_pair_effect [OF saving(6) ne]
  from eff(1) obtain n where n: "dk_files k' = disk_after C m priv der k1 (Inl e) n" ..
  show ?thesis
  proof (cases "e = ErrCertOpen")
    case True
    with n saving(4) show ?thesis by (simp add: disk_after_def)
  next
    case False
    with eff(4) have e: "e \<in> {ErrCertWrite, ErrKeyOpen, ErrKeyMarshal, ErrKeyWrite}" by auto
    have key: "e = ErrKeyWrite \<Longrightarrow> \<exists>key. cy_marshal C priv = Some key" using eff(3) by auto
    show ?thesis
    proof (rule disjI2, intro exI conjI)
      show "cy_key C (dk_rand k) = Some priv" by (rule saving(1))
      show "cy_create C (dk_rand k + 2) (cert_template serial (dk_clock k) hosts days) priv = Some der" by (rule saving(3))
      show "e = ErrCertWrite \<and> dk_files k' = (dk_files k)(mg_certFile m \<mapsto>
            (kept_mode k (mg_certFile m) 420, take n (cy_pem C ''CERTIFICATE'' der)))
        \<or> e \<in> {ErrKeyOpen, ErrKeyMarshal, ErrKeyWrite}
          \<and> dk_files k' (mg_certFile m) = Some (kept_mode k (mg_certFile m) 420, cy_pem C ''CERTIFICATE'' der)
          \<and> (if e = ErrKeyOpen then dk_files k' (mg_keyFile m) = dk_files k (mg_keyFile m)
             else if e = ErrKeyMarshal then dk_files k' (mg_keyFile m) = Some (kept_mode k (mg_keyFile m) 384, '''')
             else \<exists>key. cy_marshal C priv = Some key \<and> dk_files k' (mg_keyFile m) =
                    Some (kept_mode k (mg_keyFile m) 384, take n (cy_pem C ''EC PRIVATE KEY'' key)))"
        using e key n ne saving(4) modes by (auto simp: disk_after_def pair_left_def cert_left_def)
    qed
  qed
qed auto

theorem tls_failure_states_witness:
  "\<exists>k'. run_state (GenerateSelfSigned demo_crypto (NewManager ''/c'') [] 30)
      (demo_disk\<lparr>dk_files := [''/c/cert.pem'' \<mapsto> (420, ''old''), ''/c/key.pem'' \<mapsto> (420, ''old key'')],
         dk_faults := [None, None, None, Some 0]\<rparr>) = (Inl ErrKeyOpen, k')
     \<and> dk_files k' ''/c/cert.pem'' \<noteq> Some (420, ''old'') \<and> dk_files k' ''/c/key.pem'' = Some (420, ''old key'')"
proof -
  let ?k = "demo_disk\<lparr>dk_files := [''/c/cert.pem'' \<mapsto> (420, ''old''), ''/c/key.pem'' \<mapsto> (420, ''old key'')],
         dk_faults := [None, None, None, Some 0]\<rparr>"
  obtain k' where run: "run_state (GenerateSelfSigned demo_crypto (NewManager ''/c'') [] 30) ?k = (Inl ErrKeyOpen, k')"
    by (simp add: GenerateSelfSigned_def save_pair_def MkdirAll_def OpenFile_def run_pem_Encode set_content_def run_os_call
        os_fails_def os_next_def demo_disk_def demo_crypto_def NewManager_def)
  have new: "cy_pem demo_crypto ty der \<noteq> ''old''" if "cy_create demo_crypto n t key = Some der" for ty n t key der
    using that by (auto simp: demo_crypto_def enc_int_def split: if_splits)
  have files: "mg_certFile (NewManager ''/c'') = ''/c/cert.pem''" "mg_keyFile (NewManager ''/c'') = ''/c/key.pem''"
    by (simp_all add: NewManager_def)
  from tls_failure_states [OF run] obtain n t key der where "cy_create demo_crypto n t key = Some der"
    "dk_files k' ''/c/cert.pem'' = Some (kept_mode ?k ''/c/cert.pem'' 420, cy_pem demo_crypto ''CERTIFICATE'' der)"
    "dk_files k' ''/c/key.pem'' = dk_files ?k ''/c/key.pem''"
    by (auto simp: files)
  with run new show ?thesis by auto
qed

end
