(* ===== verification/Installation.thy ===== *)
theory Installation
  imports Guarantees
begin

text \<open>
  The promise that spans the setup wizard, the user administration and every other request: once the setup
  is finished there is always an active administrator, whatever the server does and whatever database faults strike.
\<close>

section \<open>What the parts leave alone\<close>

interpretation configs_kept: db_frame "\<lambda>d d'. configs d' = configs d"
  by unfold_locales auto

interpretation accounts_kept: db_frame "\<lambda>d d'. accounts d' = accounts d"
  by unfold_locales auto

lemma configs_writes:
  "q_CreateUser i em h ro bc now d = Inr (x1, d') \<Longrightarrow> configs d' = configs d"
  "q_UpdateUserRole ro i now d = Inr (x2, d') \<Longrightarrow> configs d' = configs d"
  "q_DeactivateUser i now d = Inr (x3, d') \<Longrightarrow> configs d' = configs d"
  "q_RevokeAllUserSessions i now d = Inr (x4, d') \<Longrightarrow> configs d' = configs d"
  "q_CreatePIMSession i u se re mi ex gl now d = Inr (x5, d') \<Longrightarrow> configs d' = configs d"
  "q_CreateAuditEntry i us ses pm ac res rs ipq me sv now d = Inr (x6, d') \<Longrightarrow> configs d' = configs d"
  by (auto simp: frame_write_defs split: statement_split)

lemma accounts_writes:
  "q_CreatePIMSession i u se re mi ex gl now d = Inr (x5, d') \<Longrightarrow> accounts d' = accounts d"
  "q_CreateAuditEntry i us ses pm ac res rs ipq me sv now d = Inr (x6, d') \<Longrightarrow> accounts d' = accounts d"
  by (auto simp: accounts_def frame_write_defs split: statement_split)

lemma configs_written:
  "preserves (\<lambda>w w'. configs (db w') = configs (db w)) (db_write (q_CreateUser i em h ro bc))"
  "preserves (\<lambda>w w'. configs (db w') = configs (db w)) (db_write (q_UpdateUserRole ro i))"
  "preserves (\<lambda>w w'. configs (db w') = configs (db w)) (db_write (q_DeactivateUser i))"
  "preserves (\<lambda>w w'. configs (db w') = configs (db w)) (db_write (q_RevokeAllUserSessions i))"
  "preserves (\<lambda>w w'. configs (db w') = configs (db w)) (db_write (q_CreatePIMSession i u se re mi ex gl))"
  "preserves (\<lambda>w w'. configs (db w') = configs (db w)) (db_write (q_CreateAuditEntry i us ses pm ac res rs ipq me sv))"
  by (rule configs_kept.statement, erule configs_writes)+

lemma HashPassword_configs: "preserves (\<lambda>w w'. configs (db w') = configs (db w)) (HashPassword E pw)"
  by (rule configs_kept.silent_in) (rule HashPassword_silent)

lemmas configs_intros = configs_kept.composition configs_kept.silent_in [OF silent_basic(1)]
  configs_kept.silent_in [OF silent_basic(2)] configs_kept.silent_in [OF silent_basic(3)]
  configs_kept.silent_in [OF checkLastAdmin_silent] HashPassword_configs

lemma users_configs:
  "preserves (\<lambda>w w'. configs (db w') = configs (db w)) (users_Create E cp)"
  "preserves (\<lambda>w w'. configs (db w') = configs (db w)) (users_UpdateRole E up)"
  "preserves (\<lambda>w w'. configs (db w') = configs (db w)) (users_Deactivate E u rq)"
  unfolding users_Create_def users_UpdateRole_def users_Deactivate_def users_logAudit_def
  by (intro configs_intros configs_written)+

lemma pim_Request_kept:
  "preserves (\<lambda>w w'. configs (db w') = configs (db w)) (pim_Request E ps)"
  "preserves (\<lambda>w w'. accounts (db w') = accounts (db w)) (pim_Request E ps)"
proof -
  show "preserves (\<lambda>w w'. configs (db w') = configs (db w)) (pim_Request E ps)"
    unfolding pim_Request_def pim_logAudit_def by (intro configs_intros configs_written)
  have "preserves (\<lambda>w w'. accounts (db w') = accounts (db w)) (db_write (q_CreatePIMSession i u se re mi ex gl))"
    "preserves (\<lambda>w w'. accounts (db w') = accounts (db w)) (db_write (q_CreateAuditEntry i us sess pm ac res rs ipq me sv))"
    for i u se re mi ex gl us sess pm ac res rs ipq me sv
    by (rule accounts_kept.statement, erule accounts_writes)+
  then show "preserves (\<lambda>w w'. accounts (db w') = accounts (db w)) (pim_Request E ps)"
    unfolding pim_Request_def pim_logAudit_def
    by (intro accounts_kept.composition accounts_kept.silent_in [OF silent_basic(1)]
        accounts_kept.silent_in [OF silent_basic(2)] accounts_kept.silent_in [OF silent_basic(3)])
qed

section \<open>Somebody is in charge\<close>

text \<open>
  From a well-formed database: it stays so, an active administrator does not vanish, and if the setup is finished
  only with an administrator then it stays like that.
\<close>

definition in_charge :: "database \<Rightarrow> bool" where
  "in_charge d = (setup_done d \<longrightarrow> has_admin d)"

definition keeps_charge :: "database \<Rightarrow> database \<Rightarrow> bool" where
  "keeps_charge d d' = (db_ok d \<longrightarrow> db_ok d' \<and> (has_admin d \<longrightarrow> has_admin d') \<and> (in_charge d \<longrightarrow> in_charge d'))"

interpretation charge: db_frame keeps_charge
  by unfold_locales (auto simp: keeps_charge_def)

abbreviation charged :: "'a action \<Rightarrow> bool" where
  "charged \<equiv> preserves (\<lambda>w w'. keeps_charge (db w) (db w'))"

lemma has_admin_accounts: "accounts d' = accounts d \<Longrightarrow> has_admin d' = has_admin d"
proof -
  have "has_admin d = (\<exists>x \<in> set (accounts d). case x of (_, _, _, ro, a) \<Rightarrow> ro = ''admin'' \<and> a = 1)" for d
    by (auto simp: has_admin_def accounts_def)
  then show "accounts d' = accounts d \<Longrightarrow> has_admin d' = has_admin d" by simp
qed

lemma setup_done_configs: "configs d' = configs d \<Longrightarrow> setup_done d' = setup_done d"
  by (simp add: setup_done_def q_GetConfig_def)

lemma chargedI:
  assumes "preserves moves m"
    and "\<And>w r w'. run_state m w = (r, w') \<Longrightarrow> db_ok (db w) \<Longrightarrow> has_admin (db w) \<Longrightarrow> has_admin (db w')"
    and "preserves (\<lambda>w w'. configs (db w') = configs (db w)) m"
  shows "charged m"
  unfolding preserves_def
proof
  fix w
  obtain r w' where run: "run_state m w = (r, w')" by fastforce
  from move.after [OF assms(1) run] have "db_ok (db w) \<longrightarrow> db_ok (db w')" using moves_facts(2) by blast
  moreover from configs_kept.after [OF assms(3) run] have "setup_done (db w') = setup_done (db w)"
    by (rule setup_done_configs)
  ultimately show "keeps_charge (db w) (db (snd (run_state m w)))"
    using assms(2) [OF run] run by (auto simp: keeps_charge_def in_charge_def)
qed

lemma charged_quiet:
  assumes "preserves moves m" "keeps_administered m"
  shows "charged m"
proof (rule chargedI [OF assms(1)])
  show "preserves (\<lambda>w w'. configs (db w') = configs (db w)) m"
    using assms(2) by (simp add: preserves_def administered_def)
  fix w r w'
  assume "run_state m w = (r, w')" "has_admin (db w)"
  then show "has_admin (db w')"
    using admin_kept.after [OF assms(2)] has_admin_accounts [of "db w'" "db w"] by (auto simp: administered_def)
qed

lemma charged_users:
  "charged (users_Create E cp)" "charged (users_UpdateRole E up)" "charged (users_Deactivate E u rq)"
  by (rule chargedI; auto simp: db_ok_def users_ok_def
      intro: steady_moves users_Create_steady users_UpdateRole_steady users_Deactivate_steady users_configs
        users_Create_admin users_UpdateRole_admin users_Deactivate_admin)+

lemma charged_pim: "charged (pim_Request E ps)"
proof (rule chargedI [OF steady_moves [OF pim_Request_steady] _ pim_Request_kept(1)])
  fix w r w'
  assume run: "run_state (pim_Request E ps) w = (r, w')" "has_admin (db w)"
  from accounts_kept.after [OF pim_Request_kept(2) run(1)] has_admin_accounts run(2) show "has_admin (db w')" by blast
qed

lemma charged_CreateAdmin: "charged (CreateAdmin E ps)"
  unfolding preserves_def
proof
  fix w
  obtain r w' where run: "run_state (CreateAdmin E ps) w = (r, w')" by fastforce
  note eff = CreateAdmin_effect [OF run]
  from eff(3) have "has_admin (db w) \<longrightarrow> has_admin (db w')" by (auto simp: has_admin_def)
  moreover from move.after [OF steady_moves [OF CreateAdmin_steady] run] have "db_ok (db w) \<longrightarrow> db_ok (db w')"
    using moves_facts(2) by blast
  ultimately show "keeps_charge (db w) (db (snd (run_state (CreateAdmin E ps) w)))"
    using eff(5) run by (auto simp: keeps_charge_def in_charge_def)
qed

text \<open>The wizard closes only over an active administrator, also when the database fails in between.\<close>

lemma Complete_closes:
  assumes "run_state (Complete a) w = (r, w')"
  shows "setup_done (db w') \<Longrightarrow> setup_done (db w) \<or> has_admin (db w)"
proof (cases r)
  case (Inr u)
  with Complete_effect(4) [OF assms] show ?thesis by simp
next
  case (Inl e)
  obtain b w1 where b: "run_state IsCompleted w = (b, w1)" by fastforce
  obtain st w2 where st: "run_state GetStatus w1 = (st, w2)" by fastforce
  have "db w1 = db w" "db w2 = db w" using IsCompleted_effect(1) [OF b] GetStatus_effect(1) [OF st] by auto
  moreover have "w' = w1 \<or> w' = w2"
    using assms Inl b st unfolding Complete_def by (cases b; cases st) (auto split: if_splits prod.splits)
  ultimately show "setup_done (db w') \<Longrightarrow> setup_done (db w) \<or> has_admin (db w)" by auto
qed

lemma charged_Complete: "charged (Complete a)"
  unfolding preserves_def
proof
  fix w
  obtain r w' where run: "run_state (Complete a) w = (r, w')" by fastforce
  from Complete_effect(1) [OF run] have "has_admin (db w') = has_admin (db w)" by (simp add: has_admin_def)
  moreover from move.after [OF steady_moves [OF Complete_steady] run] have "db_ok (db w) \<longrightarrow> db_ok (db w')"
    using moves_facts(2) by blast
  ultimately show "keeps_charge (db w) (db (snd (run_state (Complete a) w)))"
    using Complete_closes [OF run] run by (auto simp: keeps_charge_def in_charge_def)
qed

section \<open>The server\<close>

lemma charged_error_cases:
  "charged a \<Longrightarrow> charged b \<Longrightarrow> charged (case e of ErrPIMNotActive \<Rightarrow> a | _ \<Rightarrow> b)"
  by (cases e) auto

lemmas charged_intros = charge.composition charged_users charged_pim charged_CreateAdmin charged_Complete

lemma charged_public: "public_api E cfg ep = Some h \<Longrightarrow> charged (h r)"
proof (cases "ep = EP_CreateAdmin \<or> ep = EP_CompleteSetup")
  case True
  moreover assume "public_api E cfg ep = Some h"
  ultimately show ?thesis
    by (auto simp: h_CreateAdmin_def h_CompleteSetup_def Let_def intro!: charged_intros)
next
  case False
  moreover assume h: "public_api E cfg ep = Some h"
  ultimately show ?thesis
    by (intro charged_quiet steady_moves public_steady [OF h] public_administered [OF h]) auto
qed

definition account_endpoints :: "endpoint set" where
  "account_endpoints = {EP_CreateUser, EP_UpdateUserRole, EP_DeactivateUser, EP_RequestPIM, EP_BreakGlass}"

lemma protected_quiet:
  assumes "protected_api E V b c ep = Some h" "ep \<notin> account_endpoints"
  shows "keeps_administered (h (Some cl) r)"
  using assms unfolding account_endpoints_def
  by (cases ep) (auto simp: auth_handler_defs admin_handler_defs h_KillProcess_def killProcess_def
      info_handler_def intro!: handler_intros case_pim_error_kept audit_ExportCSV_silent [THEN admin_kept.silent_in]
        audit_ExportJSON_silent [THEN admin_kept.silent_in])

lemma charged_protected:
  assumes "protected_api E V b c ep = Some h"
  shows "charged (h (Some cl) r)"
proof (cases "ep \<in> account_endpoints")
  case True
  with assms show ?thesis unfolding account_endpoints_def
    by (auto simp: h_CreateUser_def h_UpdateUserRole_def h_DeactivateUser_def h_RequestPIM_def h_BreakGlass_def Let_def
        intro!: charged_intros)
next
  case False
  have "preserves moves (h (Some cl) r)"
    using assms KillProcess_moves protected_steady [OF assms] by (cases "ep = EP_KillProcess") (auto intro: steady_moves)
  from charged_quiet [OF this protected_quiet [OF assms False]] show ?thesis .
qed

lemma charged_serve: "charged (serve E cfg V b c ep r)"
  by (rule charge.request)
    (auto intro: charged_public charged_protected charge.silent_in IsCompleted_silent ServeMetrics_silent)

lemma server_run_charge:
  assumes "server_run E cfg s0 s"
  shows "keeps_charge (db (srv_world s0)) (db (srv_world s))"
  using assms
proof (induction rule: server_run.induct)
  case (request s0 s V ep r resp s')
  from charge.after [OF charged_serve handle_world [OF request.hyps(2)]] request.IH
  show ?case by (rule charge.trans_db [rotated])
qed (auto simp: keeps_charge_def)

text \<open>C4: Nobody is ever locked out of an installation: in every run of the server, through whatever requests one after another and
  under whatever database faults, a finished setup comes with an active administrator, provided it did at the
  start (as it does on a fresh database), and once there is an active administrator there always is one.\<close>

theorem never_locked_out:
  assumes "server_run E cfg s0 s" "db_ok (db (srv_world s0))"
    and "setup_done (db (srv_world s0)) \<longrightarrow> has_admin (db (srv_world s0))"
  shows "(setup_done (db (srv_world s)) \<longrightarrow> has_admin (db (srv_world s)))
    \<and> (has_admin (db (srv_world s0)) \<longrightarrow> has_admin (db (srv_world s)))"
  using server_run_charge [OF assms(1)] assms(2,3) by (auto simp: keeps_charge_def in_charge_def)

definition demo_finished :: server where
  "demo_finished = demo_server\<lparr>srv_world := demo_world\<lparr>db := demo_db\<lparr>configs := [demo_flag]\<rparr>\<rparr>\<rparr>"

lemma demo_finished_ok:
  "db_ok (db (srv_world demo_finished))" "has_admin (db (srv_world demo_finished))"
  by (simp_all add: demo_finished_def has_admin_def db_ok_def users_ok_def unique_keys_def row_ok_defs user_ref_def
      demo_flag_def null_or_def)

theorem never_locked_out_witness:
  "has_admin (db (srv_world (snd (handle demo_ext demo_cfg demo_env EP_DeactivateUser
      (with_id ''u1'' (demo_request demo_token)) demo_finished))))"
proof -
  let ?s = "snd (handle demo_ext demo_cfg demo_env EP_DeactivateUser (with_id ''u1'' (demo_request demo_token)) demo_finished)"
  have "server_run demo_ext demo_cfg demo_finished ?s"
    by (rule server_run.request [OF server_run.started]) (rule prod.collapse [symmetric])
  from never_locked_out [OF this demo_finished_ok(1)] demo_finished_ok(2) show ?thesis by blast
qed

end
