(* ===== verification/Config.thy ===== *)
theory Config
  imports Token
begin

text \<open>
  The configuration (\<open>internal/config/config.go\<close>) and what \<open>server.New\<close> and \<open>Start\<close> make of it. Reading files and
  the environment is viper's work: \<open>viper\<close> says whether a file was read and which configuration, if any, the
  defaults together with what was read decode to.
\<close>

record ServerConfig =
  sc_Host :: string
  sc_Port :: int
  sc_TLSCertFile :: string
  sc_TLSKeyFile :: string
  sc_ReadTimeoutSec :: int
  sc_WriteTimeoutSec :: int
  sc_IdleTimeoutSec :: int

record LogConfig =
  lc_Level :: string
  lc_Format :: string

record SecurityConfig =
  yc_JWTSecret :: string
  yc_ArgonMemory :: "32 word"
  yc_ArgonIterations :: "32 word"
  yc_ArgonParallelism :: "8 word"
  yc_JWTAccessTTLMin :: int
  yc_JWTRefreshTTLDay :: int

record DatabaseConfig =
  dc_Path :: string

record Config =
  cf_Server :: ServerConfig
  cf_Log :: LogConfig
  cf_Security :: SecurityConfig
  cf_Database :: DatabaseConfig

datatype cfg_value = CfgStr string | CfgInt int

datatype cfg_place = CfgFile string | CfgSearch string string "string list"

datatype cfg_read = CfgFound | CfgNotFound | CfgBroken

record viper =
  vp_read :: "cfg_place \<Rightarrow> cfg_read"
  vp_unmarshal :: "(string \<times> cfg_value) list \<Rightarrow> string \<Rightarrow> cfg_place \<Rightarrow> Config option"

definition setDefaults :: "(string \<times> cfg_value) list" where
  "setDefaults =
     [(''server.host'', CfgStr ''0.0.0.0''), (''server.port'', CfgInt 8443),
      (''server.read_timeout_sec'', CfgInt 10), (''server.write_timeout_sec'', CfgInt 30),
      (''server.idle_timeout_sec'', CfgInt 120), (''log.level'', CfgStr ''info''), (''log.format'', CfgStr ''json''),
      (''security.argon_memory'', CfgInt 65536), (''security.argon_iterations'', CfgInt 3),
      (''security.argon_parallelism'', CfgInt 2), (''security.jwt_access_ttl_min'', CfgInt 15),
      (''security.jwt_refresh_ttl_day'', CfgInt 7), (''security.jwt_secret'', CfgStr ''''),
      (''database.path'', CfgStr ''/var/lib/ctrld/ctrld.db'')]"

datatype config_error = ConfigRead | ConfigParse | ConfigSecret

text \<open>The prefix of the environment variables is \<open>CTRLD\<close>.\<close>

definition Load :: "viper \<Rightarrow> string \<Rightarrow> config_error + Config" where
  "Load V cfgFile =
     (let place = (if cfgFile \<noteq> '''' then CfgFile cfgFile
                   else CfgSearch ''config'' ''yaml'' [''/etc/ctrld/'', ''$HOME/.ctrld/'', ''.'']) in
      if vp_read V place = CfgBroken then Inl ConfigRead
      else (case vp_unmarshal V setDefaults ''CTRLD'' place of
              None \<Rightarrow> Inl ConfigParse
            | Some cfg \<Rightarrow> if length (yc_JWTSecret (cf_Security cfg)) < 32 then Inl ConfigSecret else Inr cfg))"

text \<open>What \<open>New\<close> passes to the services, the address it listens on, and which listener \<open>Start\<close> opens.\<close>

definition token_config :: "Config \<Rightarrow> TokenConfig" where
  "token_config cfg = \<lparr>Secret = yc_JWTSecret (cf_Security cfg), AccessTTLMin = yc_JWTAccessTTLMin (cf_Security cfg),
     RefreshTTLDays = yc_JWTRefreshTTLDay (cf_Security cfg)\<rparr>"

definition listen_addr :: "Config \<Rightarrow> string" where
  "listen_addr cfg = sc_Host (cf_Server cfg) @ '':'' @ int_text (sc_Port (cf_Server cfg))"

datatype listener = ListenTLS string string | ListenPlain

definition listener_of :: "Config \<Rightarrow> listener" where
  "listener_of cfg =
     (if sc_TLSCertFile (cf_Server cfg) \<noteq> '''' \<and> sc_TLSKeyFile (cf_Server cfg) \<noteq> ''''
      then ListenTLS (sc_TLSCertFile (cf_Server cfg)) (sc_TLSKeyFile (cf_Server cfg)) else ListenPlain)"

text \<open>A server only starts with a signing secret of at least 32 bytes.\<close>

theorem secret_long_enough: "Load V cfgFile = Inr cfg \<Longrightarrow> 32 \<le> length (Secret (token_config cfg))"
  by (auto simp: Load_def token_config_def Let_def split: if_splits option.splits)

end
