(* ===== verification/Program.thy ===== *)
theory Program
  imports Installation Config
begin

text \<open>
  The program around the server: opening the database (\<open>internal/db/database.go\<close>), what \<open>server.New\<close> starts with, the
  middleware that every answer passes (\<open>internal/server/server.go\<close>), and the life of the process from \<open>main\<close> to its
  exit (\<open>cmd/ctrld/main.go\<close>).
\<close>

section \<open>Opening the database\<close>

text \<open>
  The calls on the driver and on goose; \<open>ok\<close> tells which succeed. The settings of the pool and closing have no outcome
  the code looks at.
\<close>

datatype db_call = SqlOpen string | SetPool nat nat duration | ExecPragma string | SetDialect string | GooseUp string
  | CloseSql

datatype open_error = OpenFailed | PragmaFailed string | DialectFailed | MigrationFailed

definition dsn_params :: "(string \<times> string) list" where
  "dsn_params = [(''_journal_mode'', ''WAL''), (''_foreign_keys'', ''ON''), (''_busy_timeout'', ''5000'')]"

definition dsn :: "string \<Rightarrow> string" where
  "dsn path = path @ ''?'' @ join_with ''&'' (map (\<lambda>(k, v). k @ ''='' @ v) dsn_params)"

definition db_pragmas :: "string list" where
  "db_pragmas = [''PRAGMA journal_mode=WAL'', ''PRAGMA synchronous=NORMAL'', ''PRAGMA cache_size=-64000'',
     ''PRAGMA temp_store=MEMORY'', ''PRAGMA mmap_size=268435456'', ''PRAGMA foreign_keys=ON'', ''PRAGMA secure_delete=ON'']"

fun applyPragmas :: "(db_call \<Rightarrow> bool) \<Rightarrow> string list \<Rightarrow> db_call list \<times> (open_error + unit)" where
  "applyPragmas ok [] = ([], Inr ())"
| "applyPragmas ok (p # ps) =
     (if \<not> ok (ExecPragma p) then ([ExecPragma p], Inl (PragmaFailed p))
      else (case applyPragmas ok ps of (cs, r) \<Rightarrow> (ExecPragma p # cs, r)))"

definition db_migrate :: "(db_call \<Rightarrow> bool) \<Rightarrow> db_call list \<times> (open_error + unit)" where
  "db_migrate ok =
     (if \<not> ok (SetDialect ''sqlite3'') then ([SetDialect ''sqlite3''], Inl DialectFailed)
      else if \<not> ok (GooseUp ''migrations'') then ([SetDialect ''sqlite3'', GooseUp ''migrations''], Inl MigrationFailed)
      else ([SetDialect ''sqlite3'', GooseUp ''migrations''], Inr ()))"

definition db_Open :: "(db_call \<Rightarrow> bool) \<Rightarrow> string \<Rightarrow> db_call list \<times> (open_error + unit)" where
  "db_Open ok path =
     (if \<not> ok (SqlOpen (dsn path)) then ([SqlOpen (dsn path)], Inl OpenFailed)
      else let start = [SqlOpen (dsn path), SetPool 1 1 hour] in
        (case applyPragmas ok db_pragmas of
           (cs, Inl e) \<Rightarrow> (start @ cs @ [CloseSql], Inl e)
         | (cs, Inr _) \<Rightarrow>
             (case db_migrate ok of
                (ms, Inl e) \<Rightarrow> (start @ cs @ ms @ [CloseSql], Inl e)
              | (ms, Inr _) \<Rightarrow> (start @ cs @ ms, Inr ()))))"

section \<open>The pooled connection\<close>

text \<open>
  The pool has one connection and replaces it when it is used more than an hour after it was made. What the driver
  executes on a new connection is its own affair, a function \<open>D\<close> of the data source name; the pragmas of
  \<open>applyPragmas\<close> were executed on the first connection only. Journal mode is kept in the file.
\<close>

record connection =
  cn_created :: time
  cn_pragmas :: "string list"

definition db_connect :: "(string \<Rightarrow> string list) \<Rightarrow> string \<Rightarrow> time \<Rightarrow> connection" where
  "db_connect D path now = \<lparr>cn_created = now, cn_pragmas = D (dsn path)\<rparr>"

definition opened_connection :: "(string \<Rightarrow> string list) \<Rightarrow> string \<Rightarrow> time \<Rightarrow> connection" where
  "opened_connection D path now = (db_connect D path now)\<lparr>cn_pragmas := D (dsn path) @ db_pragmas\<rparr>"

definition pool_conn :: "(string \<Rightarrow> string list) \<Rightarrow> string \<Rightarrow> time \<Rightarrow> connection \<Rightarrow> connection" where
  "pool_conn D path now c = (if cn_created c + hour < now then db_connect D path now else c)"

section \<open>The server's parts\<close>

text \<open>What \<open>New\<close> starts the services with, on a database and at an instant, and the limits of the HTTP server.\<close>

definition new_server :: "database \<Rightarrow> time \<Rightarrow> server" where
  "new_server d now = \<lparr>srv_world = \<lparr>db = d, limiter = limiter_New, clock = now, uuid_ctr = 0, rand_ctr = 0,
     faults = [], issued = []\<rparr>, srv_buffer = NewBuffer, srv_info = None\<rparr>"

record http_server =
  hs_Addr :: string
  hs_ReadTimeout :: duration
  hs_WriteTimeout :: duration
  hs_IdleTimeout :: duration
  hs_ReadHeaderTimeout :: duration

definition http_server_of :: "Config \<Rightarrow> http_server" where
  "http_server_of cfg =
     \<lparr>hs_Addr = listen_addr cfg,
      hs_ReadTimeout = sw64 (sc_ReadTimeoutSec (cf_Server cfg) * second),
      hs_WriteTimeout = sw64 (sc_WriteTimeoutSec (cf_Server cfg) * second),
      hs_IdleTimeout = sw64 (sc_IdleTimeoutSec (cf_Server cfg) * second),
      hs_ReadHeaderTimeout = 5 * second\<rparr>"

section \<open>The middleware of every answer\<close>

definition quoted :: "string \<Rightarrow> string" where
  "quoted s = [CHR 0x27] @ s @ [CHR 0x27]"

definition securityHeaders :: "(string \<times> string) list" where
  "securityHeaders =
     [(''X-Frame-Options'', ''DENY''), (''X-Content-Type-Options'', ''nosniff''), (''X-XSS-Protection'', ''1; mode=block''),
      (''Strict-Transport-Security'', ''max-age=31536000; includeSubDomains''),
      (''Referrer-Policy'', ''strict-origin-when-cross-origin''),
      (''Content-Security-Policy'', ''default-src '' @ quoted ''none'' @ ''; frame-ancestors '' @ quoted ''none''),
      (''Permissions-Policy'', ''geolocation=(), microphone=(), camera=()'')]"

text \<open>
  The address in the access log. \<open>net.SplitHostPort\<close> fails without a port, with colons outside brackets and with
  misplaced brackets, and then returns the empty text as host.
\<close>

definition SplitHostPort :: "string \<Rightarrow> (string \<times> string) option" where
  "SplitHostPort a =
     (case last_index (CHR '':'') a of
        None \<Rightarrow> None
      | Some i \<Rightarrow>
          if has_prefix a ''[''
          then let host = takeWhile (\<lambda>c. c \<noteq> CHR '']'') (tl a); k = length host + 2; rest = drop k a in
               if length host + 1 = length a \<or> k \<noteq> i then None
               else if CHR ''['' \<in> set (tl a) \<or> CHR '']'' \<in> set rest then None
               else Some (host, drop (i + 1) a)
          else if CHR '':'' \<in> set (take i a) \<or> CHR ''['' \<in> set a \<or> CHR '']'' \<in> set a then None
          else Some (take i a, drop (i + 1) a))"

definition server_realIP :: "request \<Rightarrow> string" where
  "server_realIP r =
     (if r_header r ''X-Real-IP'' \<noteq> '''' then r_header r ''X-Real-IP''
      else if r_header r ''X-Forwarded-For'' \<noteq> '''' then r_header r ''X-Forwarded-For''
      else (case SplitHostPort (r_remote_addr r) of None \<Rightarrow> '''' | Some (ip, _) \<Rightarrow> ip))"

text \<open>A connection taken over for a WebSocket never writes a header through the wrapped writer and is logged with 0.\<close>

record access_entry =
  ac_method :: string
  ac_path :: string
  ac_remote_ip :: string
  ac_status :: nat

definition loggerMiddleware :: "request \<Rightarrow> payload response \<Rightarrow> access_entry" where
  "loggerMiddleware r resp = \<lparr>ac_method = r_method r, ac_path = r_path r, ac_remote_ip = server_realIP r,
     ac_status = (if status resp = 101 then 0 else status resp)\<rparr>"

text \<open>A request through the whole chain of \<open>buildRouter\<close>: headers, answer, log entry and the new state.\<close>

definition answer ::
    "ext \<Rightarrow> TokenConfig \<Rightarrow> environment \<Rightarrow> endpoint \<Rightarrow> request \<Rightarrow> server
      \<Rightarrow> ((string \<times> string) list \<times> payload response) \<times> access_entry \<times> server" where
  "answer E cfg V ep r s =
     (case handle E cfg V ep r s of (resp, s') \<Rightarrow> ((securityHeaders, resp), loggerMiddleware r resp, s'))"

section \<open>The process\<close>

text \<open>
  \<open>main\<close> after \<open>server.New\<close>: the goroutine that runs \<open>Start\<close> and sends its error, the channel of signals (one place),
  and the main goroutine. \<open>Start\<close> cancels the collection of metrics and the hub when listening ends.
\<close>

datatype main_phase = Selecting | ShuttingDown | Exited nat

record process =
  pr_phase :: main_phase
  pr_signal :: bool
  pr_listening :: bool
  pr_serverErr :: "bool option"
  pr_background :: bool
  pr_db_open :: bool

fun exited :: "main_phase \<Rightarrow> bool" where
  "exited (Exited n) = True"
| "exited _ = False"

abbreviation alive :: "process \<Rightarrow> bool" where
  "alive p \<equiv> \<not> exited (pr_phase p)"

definition process_start :: process where
  "process_start = \<lparr>pr_phase = Selecting, pr_signal = False, pr_listening = True, pr_serverErr = None,
     pr_background = True, pr_db_open = True\<rparr>"

text \<open>
  \<open>pr_serverErr\<close> is what \<open>Start\<close> has sent: \<open>Some True\<close> an error, \<open>Some False\<close> nil, which it returns when \<open>Shutdown\<close>
  closed the listener. \<open>os.Exit\<close> does not run the deferred \<open>db.Close\<close>; returning from \<open>main\<close> does.
\<close>

datatype process_event = Signalled | ListenFailed | ListenClosed | TookSignal | TookError | TookNil | ShutDown | ShutdownFailed

inductive process_step :: "process_event \<Rightarrow> process \<Rightarrow> process \<Rightarrow> bool" where
  signalled: "alive p \<Longrightarrow> process_step Signalled p (p\<lparr>pr_signal := True\<rparr>)"
| listen_failed: "alive p \<Longrightarrow> pr_serverErr p = None \<Longrightarrow> pr_listening p \<Longrightarrow>
    process_step ListenFailed p (p\<lparr>pr_listening := False, pr_serverErr := Some True, pr_background := False\<rparr>)"
| listen_closed: "alive p \<Longrightarrow> pr_serverErr p = None \<Longrightarrow> \<not> pr_listening p \<Longrightarrow>
    process_step ListenClosed p (p\<lparr>pr_serverErr := Some False, pr_background := False\<rparr>)"
| took_signal: "pr_phase p = Selecting \<Longrightarrow> pr_signal p \<Longrightarrow>
    process_step TookSignal p (p\<lparr>pr_phase := ShuttingDown, pr_signal := False, pr_listening := False\<rparr>)"
| took_error: "pr_phase p = Selecting \<Longrightarrow> pr_serverErr p = Some True \<Longrightarrow>
    process_step TookError p (p\<lparr>pr_phase := Exited 1\<rparr>)"
| took_nil: "pr_phase p = Selecting \<Longrightarrow> pr_serverErr p = Some False \<Longrightarrow>
    process_step TookNil p (p\<lparr>pr_phase := ShuttingDown, pr_listening := False\<rparr>)"
| shut_down: "pr_phase p = ShuttingDown \<Longrightarrow>
    process_step ShutDown p (p\<lparr>pr_phase := Exited 0, pr_db_open := False\<rparr>)"
| shutdown_failed: "pr_phase p = ShuttingDown \<Longrightarrow>
    process_step ShutdownFailed p (p\<lparr>pr_phase := Exited 1\<rparr>)"

code_pred (modes: i \<Rightarrow> i \<Rightarrow> o \<Rightarrow> bool) process_step .

inductive_cases process_stepE: "process_step e p p'"

inductive process_run :: "process_event list \<Rightarrow> process \<Rightarrow> process \<Rightarrow> bool" where
  launched: "process_run [] p p"
| stepped: "process_run es p p' \<Longrightarrow> process_step e p' p'' \<Longrightarrow> process_run (es @ [e]) p p''"

text \<open>\<open>main\<close> up to the goroutine: the exit code of \<open>log.Fatal\<close>, or the configuration and the running process.\<close>

definition main_start :: "viper \<Rightarrow> (db_call \<Rightarrow> bool) \<Rightarrow> string \<Rightarrow> nat + Config \<times> process" where
  "main_start V ok cfgFile =
     (case Load V cfgFile of
        Inl _ \<Rightarrow> Inl 1
      | Inr cfg \<Rightarrow>
          (case db_Open ok (dc_Path (cf_Database cfg)) of
             (_, Inl _) \<Rightarrow> Inl 1
           | (_, Inr _) \<Rightarrow> Inr (cfg, process_start)))"

section \<open>Properties of opening\<close>

text \<open>The calls of an opening without a failure, written out.\<close>

definition full_calls :: "string \<Rightarrow> db_call list" where
  "full_calls path =
     [SqlOpen (path @ ''?_journal_mode=WAL&_foreign_keys=ON&_busy_timeout=5000''), SetPool 1 1 hour,
      ExecPragma ''PRAGMA journal_mode=WAL'', ExecPragma ''PRAGMA synchronous=NORMAL'',
      ExecPragma ''PRAGMA cache_size=-64000'', ExecPragma ''PRAGMA temp_store=MEMORY'',
      ExecPragma ''PRAGMA mmap_size=268435456'', ExecPragma ''PRAGMA foreign_keys=ON'',
      ExecPragma ''PRAGMA secure_delete=ON'', SetDialect ''sqlite3'', GooseUp ''migrations'']"

lemma full_calls_eq: "full_calls path = [SqlOpen (dsn path), SetPool 1 1 hour] @ map ExecPragma db_pragmas
     @ [SetDialect ''sqlite3'', GooseUp ''migrations'']"
  by (simp add: full_calls_def dsn_def dsn_params_def db_pragmas_def)

definition succeeds :: "(db_call \<Rightarrow> bool) \<Rightarrow> db_call \<Rightarrow> bool" where
  "succeeds ok c = (case c of SetPool _ _ _ \<Rightarrow> True | CloseSql \<Rightarrow> True | _ \<Rightarrow> ok c)"

text \<open>C36: Opening the database makes its calls in one order, up to the first that fails, and succeeds exactly when none
  fails: the connection, the pool of one, the seven pragmas and only then the migrations, so foreign keys are
  enforced before any migration runs. After a failure an opened connection is closed, as the last call.\<close>

theorem db_open_outcome:
  "fst (db_Open ok path) =
     (let made = takeWhile (succeeds ok) (full_calls path) in
      if made = full_calls path then made
      else made @ [full_calls path ! length made] @ (if made = [] then [] else [CloseSql]))
   \<and> (snd (db_Open ok path) = Inr () \<longleftrightarrow> takeWhile (succeeds ok) (full_calls path) = full_calls path)"
  by (simp add: db_Open_def full_calls_eq db_pragmas_def succeeds_def db_migrate_def Let_def)

lemma pool_settled:
  "cn_pragmas c = D (dsn path) \<Longrightarrow> cn_pragmas (fold (pool_conn D path) ts c) = D (dsn path)"
  by (induction ts arbitrary: c) (auto simp: pool_conn_def db_connect_def)

lemma pool_fold_cases: "fold (pool_conn D path) ts c = c \<or> cn_pragmas (fold (pool_conn D path) ts c) = D (dsn path)"
proof (induction ts arbitrary: c)
  case (Cons t ts)
  show ?case
  proof (cases "cn_created c + hour < t")
    case True
    then have "pool_conn D path t c = db_connect D path t" by (simp add: pool_conn_def)
    with pool_settled [of "db_connect D path t" D path ts] show ?thesis by (simp add: db_connect_def)
  next
    case False
    with Cons [of c] show ?thesis by (simp add: pool_conn_def)
  qed
qed simp

text \<open>What the database is really run with: at the first use more than an hour after the start, and at all later
  ones, the pool's connection has what the driver executes on a new connection for the data source name and nothing
  else. Every pragma of \<open>applyPragmas\<close> that the driver does not execute itself was in force before and is not any
  more; \<open>secure_delete\<close>, for one, is not asked for in the data source name.\<close>

theorem pragmas_lost_after_an_hour:
  assumes "t0 + hour < t"
  shows "cn_pragmas (fold (pool_conn D path) (ts @ [t] @ ts') (opened_connection D path t0)) = D (dsn path)
    \<and> ''_secure_delete'' \<notin> fst ` set dsn_params"
proof -
  let ?c = "fold (pool_conn D path) ts (opened_connection D path t0)"
  have "cn_pragmas (pool_conn D path t ?c) = D (dsn path)"
    using pool_fold_cases [of D path ts "opened_connection D path t0"] assms
    by (auto simp: pool_conn_def opened_connection_def db_connect_def)
  then have "cn_pragmas (fold (pool_conn D path) ts' (pool_conn D path t ?c)) = D (dsn path)" by (rule pool_settled)
  then show ?thesis by (simp add: dsn_params_def)
qed

theorem pragmas_lost_after_an_hour_witness:
  "cn_pragmas (fold (pool_conn (\<lambda>_. [''PRAGMA synchronous=NORMAL'']) ''a.db'') [second, 2 * hour]
     (opened_connection (\<lambda>_. [''PRAGMA synchronous=NORMAL'']) ''a.db'' 0)) = [''PRAGMA synchronous=NORMAL'']"
  using pragmas_lost_after_an_hour [of 0 "2 * hour" "\<lambda>_. [''PRAGMA synchronous=NORMAL'']" "''a.db''" "[second]" "[]"] by simp

section \<open>Properties of the process\<close>

lemma exited_is_final: "pr_phase p = Exited n \<Longrightarrow> \<not> process_step e p p'"
  by (auto elim: process_stepE)

definition process_inv :: "process_event list \<Rightarrow> process \<Rightarrow> bool" where
  "process_inv es p =
     (TookNil \<notin> set es \<and> (pr_serverErr p = Some True \<longleftrightarrow> ListenFailed \<in> set es)
      \<and> (case pr_phase p of
           Selecting \<Rightarrow> pr_db_open p \<and> pr_signal p = (Signalled \<in> set es)
             \<and> (if pr_listening p then pr_serverErr p = None else pr_serverErr p = Some True)
         | ShuttingDown \<Rightarrow> pr_db_open p \<and> \<not> pr_listening p \<and> Signalled \<in> set es
         | Exited n \<Rightarrow> n = 0 \<and> \<not> pr_db_open p \<and> Signalled \<in> set es \<and> ShutDown \<in> set es
             \<or> n = 1 \<and> pr_db_open p \<and> (ListenFailed \<in> set es \<or> ShutdownFailed \<in> set es)))"

lemma process_inv_step:
  assumes "process_step e p p'" "process_inv es p"
  shows "process_inv (es @ [e]) p'"
  using assms
proof (cases rule: process_step.cases)
  case signalled
  with assms(2) show ?thesis by (cases "pr_phase p") (auto simp: process_inv_def)
next
  case listen_failed
  with assms(2) show ?thesis by (cases "pr_phase p") (auto simp: process_inv_def)
next
  case listen_closed
  with assms(2) show ?thesis by (cases "pr_phase p") (auto simp: process_inv_def)
qed (use assms(2) in \<open>auto simp: process_inv_def split: if_splits\<close>)

lemma process_run_inv: "process_run es p p' \<Longrightarrow> p = process_start \<Longrightarrow> process_inv es p'"
proof (induction rule: process_run.induct)
  case (launched p)
  then show ?case by (simp add: process_inv_def process_start_def)
qed (blast intro: process_inv_step)

text \<open>The turns the process can still take, signals apart.\<close>

definition process_turns :: "process \<Rightarrow> nat" where
  "process_turns p = (if pr_serverErr p = None then 1 else 0)
     + (case pr_phase p of Selecting \<Rightarrow> 2 | ShuttingDown \<Rightarrow> 1 | Exited n \<Rightarrow> 0)"

lemma process_turns_less:
  "process_step e p p' \<Longrightarrow> if e = Signalled then process_turns p' = process_turns p else process_turns p' < process_turns p"
  by (cases rule: process_stepE) (auto simp: process_turns_def)

lemma process_run_turns:
  "process_run es p p' \<Longrightarrow> length (filter (\<lambda>e. e \<noteq> Signalled) es) + process_turns p' \<le> process_turns p"
proof (induction rule: process_run.induct)
  case (stepped es p p' e p'')
  from process_turns_less [OF stepped.hyps(2)] stepped.IH show ?case by (auto split: if_splits)
qed simp

text \<open>C38: The life of the process: it exits with 0 only after a signal and a shutdown that succeeded, and then the
  database is closed; it exits with 1 only when listening or the shutdown failed, and then the database is not
  closed; it has no other exit. It takes at most three turns besides signals, and once a signal has come or
  listening has failed the main goroutine is never stuck before it exits.\<close>

theorem process_exits:
  assumes "process_run es process_start p"
  shows "(\<forall>n. pr_phase p = Exited n \<longrightarrow>
        n = 0 \<and> Signalled \<in> set es \<and> ShutDown \<in> set es \<and> \<not> pr_db_open p
        \<or> n = 1 \<and> (ListenFailed \<in> set es \<or> ShutdownFailed \<in> set es) \<and> pr_db_open p)
    \<and> length (filter (\<lambda>e. e \<noteq> Signalled) es) \<le> 3
    \<and> (Signalled \<in> set es \<or> ListenFailed \<in> set es \<longrightarrow> (\<exists>n. pr_phase p = Exited n)
        \<or> (\<exists>e p'. process_step e p p' \<and> e \<in> {TookSignal, TookError, ShutDown}))"
proof -
  have inv: "process_inv es p" using process_run_inv [OF assms refl] .
  have "\<exists>e p'. process_step e p p' \<and> e \<in> {TookSignal, TookError, ShutDown}"
    if "Signalled \<in> set es \<or> ListenFailed \<in> set es" "\<nexists>n. pr_phase p = Exited n"
  proof (cases "pr_phase p")
    case Selecting
    with inv that(1) have "pr_signal p \<or> pr_serverErr p = Some True" by (auto simp: process_inv_def split: if_splits)
    with took_signal [OF Selecting] took_error [OF Selecting] show ?thesis by blast
  next
    case ShuttingDown
    from shut_down [OF this] show ?thesis by blast
  qed (use that in auto)
  moreover have "length (filter (\<lambda>e. e \<noteq> Signalled) es) \<le> 3"
    using process_run_turns [OF assms] by (simp add: process_turns_def process_start_def)
  ultimately show ?thesis using inv by (auto simp: process_inv_def)
qed

lemma demo_process: "process_run (([] @ [Signalled]) @ [TookSignal]) process_start
    (process_start\<lparr>pr_signal := True, pr_phase := ShuttingDown, pr_signal := False, pr_listening := False\<rparr>)"
proof -
  let ?p = "process_start\<lparr>pr_signal := True\<rparr>"
  have "process_step Signalled process_start ?p" by (rule signalled) (simp add: process_start_def)
  moreover have "process_step TookSignal ?p (?p\<lparr>pr_phase := ShuttingDown, pr_signal := False, pr_listening := False\<rparr>)"
    by (rule took_signal) (simp_all add: process_start_def)
  ultimately show ?thesis by (blast intro: process_run.intros)
qed

theorem process_exits_witness:
  "\<exists>e p'. process_step e (process_start\<lparr>pr_signal := True, pr_phase := ShuttingDown, pr_signal := False,
     pr_listening := False\<rparr>) p' \<and> e \<in> {TookSignal, TookError, ShutDown}"
  using process_exits [OF demo_process] by (simp add: process_start_def)

section \<open>From the start\<close>

lemma main_start_Inr:
  assumes "main_start V ok cfgFile = Inr (cfg, p)"
  shows "Load V cfgFile = Inr cfg" "snd (db_Open ok (dc_Path (cf_Database cfg))) = Inr ()" "p = process_start"
  using assms by (auto simp: main_start_def split: sum.splits prod.splits)

text \<open>C5: From the program's start on: the server runs only with a signing secret of at least 32 bytes and after every
  call that opens the database succeeded; and whatever it is then asked, from an empty database with new
  services, the database stays well-formed and a finished setup has an active administrator.\<close>

theorem program_sound:
  assumes "main_start V ok cfgFile = Inr (cfg, p)" "server_run E (token_config cfg) (new_server empty_db now) s"
  shows "32 \<le> length (Secret (token_config cfg))
    \<and> list_all (succeeds ok) (full_calls (dc_Path (cf_Database cfg)))
    \<and> db_ok (db (srv_world s)) \<and> (setup_done (db (srv_world s)) \<longrightarrow> has_admin (db (srv_world s)))"
proof -
  note start = main_start_Inr [OF assms(1)]
  have "list_all (succeeds ok) (full_calls (dc_Path (cf_Database cfg)))"
    using start(2) by (simp add: db_Open_def full_calls_eq db_pragmas_def succeeds_def db_migrate_def Let_def split: if_splits)
  moreover have "\<not> setup_done empty_db" by (simp add: setup_done_def q_GetConfig_def first_row_def empty_db_def)
  then have "db_ok (db (srv_world s)) \<and> in_charge (db (srv_world s))"
    using server_run_charge [OF assms(2)] db_ok_empty by (simp add: keeps_charge_def new_server_def in_charge_def)
  ultimately show ?thesis using secret_long_enough [OF start(1)] by (simp add: in_charge_def)
qed

definition demo_config :: Config where
  "demo_config = \<lparr>cf_Server = \<lparr>sc_Host = ''0.0.0.0'', sc_Port = 8443, sc_TLSCertFile = '''', sc_TLSKeyFile = '''',
       sc_ReadTimeoutSec = 10, sc_WriteTimeoutSec = 30, sc_IdleTimeoutSec = 120\<rparr>,
     cf_Log = \<lparr>lc_Level = ''info'', lc_Format = ''json''\<rparr>,
     cf_Security = \<lparr>yc_JWTSecret = replicate 32 (CHR ''k''), yc_ArgonMemory = 65536, yc_ArgonIterations = 3,
       yc_ArgonParallelism = 2, yc_JWTAccessTTLMin = 15, yc_JWTRefreshTTLDay = 7\<rparr>,
     cf_Database = \<lparr>dc_Path = ''/var/lib/ctrld/ctrld.db''\<rparr>\<rparr>"

definition demo_viper :: viper where
  "demo_viper = \<lparr>vp_read = (\<lambda>_. CfgNotFound), vp_unmarshal = (\<lambda>_ _ _. Some demo_config)\<rparr>"

theorem program_sound_witness:
  "db_ok (db (srv_world (snd (handle demo_ext (token_config demo_config) demo_env EP_Login (demo_attempt ''10.0.0.9'')
      (new_server empty_db second)))))"
proof -
  let ?s = "snd (handle demo_ext (token_config demo_config) demo_env EP_Login (demo_attempt ''10.0.0.9'')
      (new_server empty_db second))"
  have start: "main_start demo_viper (\<lambda>_. True) '''' = Inr (demo_config, process_start)"
    by (simp add: main_start_def Load_def demo_viper_def demo_config_def db_Open_def db_pragmas_def db_migrate_def Let_def)
  have "server_run demo_ext (token_config demo_config) (new_server empty_db second) ?s"
    by (rule server_run.request [OF server_run.started]) (rule prod.collapse [symmetric])
  from program_sound [OF start this] show ?thesis by blast
qed

text \<open>
  The access log and the limiter do not agree on the address of a client that talks to the server directly over
  IPv6: the limiter keeps the brackets.
\<close>

lemma log_and_limiter_addresses:
  assumes "r_header r ''X-Real-IP'' = ''''" "r_header r ''X-Forwarded-For'' = ''''" "r_remote_addr r = ''[::1]:5000''"
  shows "server_realIP r = ''::1''" "realIP r = ''[::1]''"
proof -
  have "SplitHostPort ''[::1]:5000'' = Some (''::1'', ''5000'')" "last_index (CHR '':'') ''[::1]:5000'' = Some 5" by code_simp+
  with assms show "server_realIP r = ''::1''" "realIP r = ''[::1]''" by (simp_all add: server_realIP_def realIP_def)
qed

end
