(* ===== verification/Spec2Isabelle.thy ===== *)
theory Spec2Isabelle
  imports HostApi Hub Tls Program
begin

text \<open>
  CTRLD is a control panel for one Linux server: a Go program that serves a JSON interface over HTTP and a
  stream of metrics over WebSocket, and keeps its accounts, sessions, privileged sessions and audit log
  in SQLite. This development models its Go code under \<open>src/internal\<close> as executable functions and proves what
  makes the parts, and the server they form, correct. Where the code does not do what its comments or
  the README say, the theorem states what it does.

  \<^bold>\<open>How the program is put together.\<close> A request passes the router of \<open>server/server.go\<close>, the guard that closes
  everything but the wizard until the setup is complete, and for protected routes the middleware that
  validates the access token. A handler of \<open>handler/\<close> decodes the body, calls one service and turns its result into
  a status. The services (\<open>auth/service\<close>, \<open>pim\<close>, \<open>users\<close>, \<open>setup\<close>, \<open>mfa\<close>, \<open>audit\<close>) run SQL statements of
  \<open>db/generated\<close> and write audit entries; the login also asks the rate limiter. Beside the requests, goroutines
  clean the limiter up, collect metrics into a rolling buffer, broadcast them through the hub and
  evaluate alerts.

  \<^bold>\<open>The theories and the code.\<close>
  \<^item> \<^theory_text>\<open>Prelude\<close>, \<^theory_text>\<open>Clock\<close>, \<^theory_text>\<open>Encoding\<close>, \<^theory_text>\<open>Scan\<close>, \<^theory_text>\<open>Json\<close>, \<^theory_text>\<open>Decode\<close>: what the sources use of Go's
    standard library (\<open>strings\<close>, \<open>time\<close>, \<open>fmt\<close>, \<open>strconv\<close>, \<open>bufio\<close>, \<open>encoding/base64\<close>, \<open>hex\<close>, \<open>csv\<close>, \<open>json\<close>),
    with signed 64-bit numbers wrapped explicitly.
  \<^item> \<^theory_text>\<open>Database\<close>: a record per table (\<open>db/generated/models.go\<close>) with the constraints of the migrations.
    \<^theory_text>\<open>Queries\<close>: one definition per SQL statement. \<^theory_text>\<open>Integrity\<close>: the step relation of all writing statements,
    the invariant \<open>db_ok\<close>, and what no statement can do (change the audit log's past, reuse a key).
  \<^item> \<^theory_text>\<open>World\<close>: the state of a request (database, limiter, clock, counters of the random sources, faults of the
    database calls to come, the commands and signals the machine was given), the record \<open>ext\<close> of outside functions, the actions the
    services are written in and their composition rules.
  \<^item> \<^theory_text>\<open>RateLimit\<close> (\<open>ratelimit/ratelimit.go\<close>), \<^theory_text>\<open>Password\<close> (\<open>auth/password.go\<close>), \<^theory_text>\<open>Sha256\<close> and \<^theory_text>\<open>Token\<close>
    (\<open>auth/token.go\<close>, \<open>middleware/auth.go\<close>), \<^theory_text>\<open>AuthService\<close> (\<open>auth/service/service.go\<close>), \<^theory_text>\<open>Pim\<close>
    (\<open>pim/service.go\<close>), \<^theory_text>\<open>Users\<close> (\<open>users/service.go\<close>), \<^theory_text>\<open>Setup\<close> (\<open>setup/service.go\<close>), \<^theory_text>\<open>Mfa\<close>
    (\<open>mfa/totp.go\<close>, \<open>mfa/service.go\<close>), \<^theory_text>\<open>AuditLog\<close> (\<open>audit/service.go\<close>): the services.
  \<^item> \<^theory_text>\<open>Collector\<close>, \<^theory_text>\<open>Buffer\<close>, \<^theory_text>\<open>SystemInfo\<close> (\<open>metrics/\<close>), \<^theory_text>\<open>Alerts\<close> (\<open>alerts/service.go\<close>), \<^theory_text>\<open>Logs\<close> (\<open>logs/\<close>),
    \<^theory_text>\<open>Updater\<close> (\<open>updater/updater.go\<close>), \<^theory_text>\<open>Systemd\<close> (\<open>services/service.go\<close>), \<^theory_text>\<open>Tls\<close> (\<open>tls/manager.go\<close> and its two
    handlers), \<^theory_text>\<open>Config\<close> (\<open>config/config.go\<close>): looking at the machine and acting on it. Files, command outputs and
    HTTP answers are arguments; every command line of \<^theory_text>\<open>Systemd\<close> and \<^theory_text>\<open>Logs\<close> that a request runs, the reading ones too, is
    recorded in the state (the live tail's journalctl is part of \<^theory_text>\<open>Tail\<close>, not of that record). In \<^theory_text>\<open>Tls\<close> a failed
    write leaves any initial part of what it was to write.
  \<^item> \<^theory_text>\<open>Http\<close>, \<^theory_text>\<open>Handler\<close>, \<^theory_text>\<open>HandlerAuth\<close>, \<^theory_text>\<open>HandlerAdmin\<close>, \<^theory_text>\<open>HandlerHost\<close> (\<open>handler/\<close>): one definition
    per handler. \<^theory_text>\<open>Server\<close> (\<open>server/server.go\<close>, \<open>health/health.go\<close>): routes, guard and dispatch, and the server's
    moves (a request, a tick of the limiter's clean-up, a collected snapshot, time passing).
  \<^item> \<^theory_text>\<open>Hub\<close> (\<open>websocket/hub.go\<close>): the hub's loop and the goroutines of each connection as a step function over
    events, in any order. \<^theory_text>\<open>Tail\<close> (\<open>TailLogs\<close> of \<open>handler/logs.go\<close>, \<open>logs/tail.go\<close>): the goroutines of the live log
    as a labelled step relation. \<^theory_text>\<open>HostApi\<close>: the routes of the handlers that \<open>server.go\<close> does not register.
  \<^item> \<^theory_text>\<open>Program\<close> (\<open>db/database.go\<close>, \<open>cmd/ctrld/main.go\<close>, the rest of \<open>server/server.go\<close>): opening the database, the
    pooled connection, the middleware of every answer, and the process from \<open>main\<close> to its exit.
  \<^item> \<^theory_text>\<open>Demo\<close>: a concrete instance of everything outside the repository, used by the witnesses. \<^theory_text>\<open>Frames\<close>: which
    parts of the state operations leave alone.

  \<^bold>\<open>What the lemmas show.\<close>
  \<^item> \<^theory_text>\<open>Guarantees\<close>: over single requests and whole runs, the database stays well-typed and the buffer well-formed,
    keys and audit entries are never lost; processes are signalled only under an active privileged session; before
    the setup is finished everything but the wizard, login, health and socket is refused; without an
    administrator's token nothing of the accounts changes.
  \<^item> \<^theory_text>\<open>Installation\<close>: over whole runs and under any database faults, a finished setup comes with an active
    administrator, who never vanishes. \<^theory_text>\<open>Program\<close>: from \<open>main\<close> on, what holds before the first request and through
    all of them; what opening the database does at each failure; which settings the connection loses after an hour; and
    that the process exits, with which code, and with the database closed or not.
  \<^item> \<^theory_text>\<open>Security\<close>: what the two login steps prove and what they leave open: a half-finished login's token is
    accepted by every protected route, second factors can be guessed without limit, and a chosen
    header evades the limiter.
  \<^item> The service theories: functional behaviour on each branch (login, refresh, revocation, backup codes,
    wizard), with what becomes of them when a database call fails (the code ignores a failed look-up for an active
    privileged session and failed writes of a session's revocation and of a used backup code), the invariants (one
    active privileged session, up to such failures; one active administrator), a refinement of the
    privileged sessions to a map, the lock of an address over failures, successes and clean-ups, round trips (hashes, tokens, exports), and the equivalence of hand-written
    routines with their specification (substring search, version order, last lines of a file, pages).
    \<^theory_text>\<open>Tls\<close>: what a generated certificate names, and what is on disk after each failure.
  \<^item> \<^theory_text>\<open>Hub\<close>: channels are never closed twice, exactly when sending panics, delivery in order without
    gaps, and a measure that bounds the turns after the last input (successful pings, which recur and change
    nothing, apart). \<^theory_text>\<open>Tail\<close>: the same for the live log, up to the first line of 64 KiB, where the scanner stops,
    with the absence of deadlock. \<^theory_text>\<open>HostApi\<close>: which commands a request of these routes runs, and which service
    actions need a privileged session.

  \<^bold>\<open>Interfaces.\<close> \<open>keyed_table\<close> (\<^theory_text>\<open>Database\<close>, one interpretation per table with a key), \<open>db_invariant\<close>
  and \<open>db_relation\<close> (\<^theory_text>\<open>Integrity\<close>), \<open>world_relation\<close> and its extension \<open>db_frame\<close> (\<^theory_text>\<open>World\<close>, interpreted for each
  part of the state that is framed), \<open>audit_sink\<close> (\<^theory_text>\<open>World\<close>, the audit writer of each of the four services that
  write entries), \<open>login_throttle\<close> (\<^theory_text>\<open>RateLimit\<close>, recording, reset, query and clean-up of the limiter) and \<open>rolling\<close> with \<open>rolling_latest\<close> (\<^theory_text>\<open>Buffer\<close>).

  \<^bold>\<open>Bounds and fuel.\<close> Integers of the code are kept at their width in the collector (\<open>64 word\<close> counters) and
  wrapped to signed 64 bits where the parsers compute. Recursions are structural or have a measure. The reader
  of JSON texts runs on fuel, a little more than the length of the text: every call consumes a character. The hub's run is a
  function of a finite list of events; that it comes to rest is a theorem, not an assumption.

  \<^bold>\<open>Conventions.\<close> One instant per request: \<open>time.Now\<close> does not advance inside one. Each database call takes its
  outcome from a list of faults, so that every error branch is reached by some list and none can be
  assumed away. Rows that \<open>ORDER BY\<close> leaves tied keep their order of insertion, and so do elements \<open>sort.Slice\<close>
  leaves tied. Upper and lower case and white space are those of ASCII. Floating-point numbers are rationals. Times are UTC. A
  nil slice and an empty one are the same list. Of the response headers only those of the middleware are modelled, and message texts are left out;
  an answer is a status with the data of its body. Requests are served one after another: only the hub, the live
  log and the process interleave, and \<open>last_admin_race\<close> of \<^theory_text>\<open>Users\<close> shows what two interleaved requests can do. The router's choice of a route is the function \<open>routed\<close>. Of golang-jwt and
  crypto/x509 the laws \<open>jwt_lawful\<close> and \<open>x509_lawful\<close> are assumed, in the theorems that name them; Argon2id,
  TOTP, random sources, viper, QR codes, what the SQLite driver executes on a new connection, and the system's
  calls are unrestricted parameters.

  \<^bold>\<open>Modelled but not reached.\<close> \<open>server.go\<close> registers no handler of \<open>handler/services.go\<close>, \<open>handler/alerts.go\<close>,
  \<open>handler/logs.go\<close> and \<open>handler/system.go\<close>, and starts no alert engine. They are modelled, as functions of
  their own and behind \<open>Require\<close> in \<^theory_text>\<open>HostApi\<close>, and are not part of the server's runs.

  \<^bold>\<open>Not modelled.\<close> The work of goose and SQLite behind the calls of \<^theory_text>\<open>Program\<close> (the schema the migrations give is in
  \<^theory_text>\<open>Database\<close>), the forwarding wrapper \<open>db/generated/db.go\<close>, log messages other than the access log, the limits
  net/http enforces, the \<open>statfs\<close> call and the stubs for other systems, exported aliases for tests, the web frontend, the
  installation scripts and the container files: none of it is logic of the Go code that a function could translate.
\<close>

end
